theory Spec2Isabelle
  imports Complex_Main "HOL-Library.AList"
begin

section \<open>Python exceptions\<close>

text \<open>
  Every \<^verbatim>\<open>raise\<close> of the two source files, and every exception the library calls they
  make can raise on the paths modelled here, is a value of \<open>py_error\<close>. A function that
  can raise returns \<open>py_error + 'a\<close>, with \<open>Inl\<close> for the exception.
\<close>

datatype py_error =
    IndexError | KeyError | ValueError | TypeError | AttributeError
  | OSError | RuntimeError | UnpicklingError

section \<open>Arrays\<close>

text \<open>
  The data of a slice is a floating-point numpy array. Only two facts about floats matter
  to the code under study: a value is either a number or the missing value NaN (the dataset is
  opened with \<^verbatim>\<open>mask_and_scale=True\<close>, which turns masked cells into NaN), and numpy's
  \<^verbatim>\<open>==\<close> is false whenever one side is NaN. Numbers are idealised as reals.
\<close>

datatype fval = Fin real | NaN

fun np_eq :: "fval \<Rightarrow> fval \<Rightarrow> bool" where
  "np_eq (Fin a) (Fin b) = (a = b)"
| "np_eq _ _ = False"

text \<open>
  An n-dimensional array is its shape and its elements, nested one list per axis
  (outermost axis first). \<open>has_shape\<close> says that the nesting is rectangular and agrees with
  the shape, which numpy guarantees for every array.
\<close>

datatype 'a nested = Leaf 'a | Node "'a nested list"

record ndarray =
  shape :: "nat list"
  elems :: "fval nested"

fun has_shape :: "nat list \<Rightarrow> 'a nested \<Rightarrow> bool" where
  "has_shape [] (Leaf v) = True"
| "has_shape (n # ns) (Node xs) = (length xs = n \<and> list_all (has_shape ns) xs)"
| "has_shape s e = False"

fun no_nan :: "fval nested \<Rightarrow> bool" where
  "no_nan (Leaf v) = (v \<noteq> NaN)"
| "no_nan (Node xs) = list_all no_nan xs"

text \<open>Python's index normalisation: a negative index counts from the end.\<close>

definition py_index :: "nat \<Rightarrow> int \<Rightarrow> py_error + nat" where
  "py_index n i =
     (let j = (if i < 0 then i + int n else i)
      in if 0 \<le> j \<and> j < int n then Inr (nat j) else Inl IndexError)"

text \<open>
  \<open>take_axis k j\<close> selects position \<open>j\<close> on axis \<open>k\<close> and drops that axis;
  \<open>np_take\<close> is the numpy integer index \<^verbatim>\<open>a[:, ..., i, ..., :]\<close> on one axis, which
  checks the index against the shape first.
\<close>

fun take_axis :: "nat \<Rightarrow> nat \<Rightarrow> 'a nested \<Rightarrow> 'a nested" where
  "take_axis 0 j (Node xs) = xs ! j"
| "take_axis (Suc k) j (Node xs) = Node (map (take_axis k j) xs)"
| "take_axis k j (Leaf v) = Leaf v"

definition np_take :: "ndarray \<Rightarrow> nat \<Rightarrow> int \<Rightarrow> py_error + ndarray" where
  "np_take a axis i =
     (if length (shape a) \<le> axis then Inl IndexError
      else case py_index (shape a ! axis) i of
             Inl e \<Rightarrow> Inl e
           | Inr j \<Rightarrow> Inr \<lparr>shape = take axis (shape a) @ drop (Suc axis) (shape a),
                           elems = take_axis axis j (elems a)\<rparr>)"

text \<open>The slice \<^verbatim>\<open>a[:, ..., 0:1, ..., :]\<close> on one axis; a slice never raises.\<close>

fun slice_first :: "nat \<Rightarrow> 'a nested \<Rightarrow> 'a nested" where
  "slice_first 0 (Node xs) = Node (take 1 xs)"
| "slice_first (Suc k) (Node xs) = Node (map (slice_first k) xs)"
| "slice_first k (Leaf v) = Leaf v"

definition np_slice_first :: "ndarray \<Rightarrow> nat \<Rightarrow> ndarray" where
  "np_slice_first a axis =
     \<lparr>shape = (shape a)[axis := min 1 (shape a ! axis)],
      elems = slice_first axis (elems a)\<rparr>"

text \<open>\<^verbatim>\<open>concatenate((a, b), axis)\<close> for two arrays that agree on every other axis.\<close>

fun concat_axis :: "nat \<Rightarrow> 'a nested \<Rightarrow> 'a nested \<Rightarrow> 'a nested" where
  "concat_axis 0 (Node xs) (Node ys) = Node (xs @ ys)"
| "concat_axis (Suc k) (Node xs) (Node ys) = Node (map2 (concat_axis k) xs ys)"
| "concat_axis k a b = a"

definition np_concatenate :: "ndarray \<Rightarrow> ndarray \<Rightarrow> nat \<Rightarrow> ndarray" where
  "np_concatenate a b axis =
     \<lparr>shape = (shape a)[axis := shape a ! axis + shape b ! axis],
      elems = concat_axis axis (elems a) (elems b)\<rparr>"

text \<open>Element-wise \<^verbatim>\<open>==\<close> of two arrays of one shape, and \<^verbatim>\<open>np.all\<close>.\<close>

function (sequential) nested_eq :: "fval nested \<Rightarrow> fval nested \<Rightarrow> bool nested" where
  "nested_eq (Leaf a) (Leaf b) = Leaf (np_eq a b)"
| "nested_eq (Node xs) (Node ys) = Node (map2 nested_eq xs ys)"
| "nested_eq a b = Leaf False"
  by pat_completeness auto
termination
proof (relation "measure (\<lambda>(a, b). size a)")
  show "wf (measure (\<lambda>(a, b). size a))" by simp
next
  fix xs ys :: "fval nested list" and z x y
  assume "z \<in> set (zip xs ys)" and "(x, y) = z"
  then have "x \<in> set xs" by (auto dest: set_zip_leftD)
  then have "size x \<le> size_list size xs" by (induction xs) auto
  then show "((x, y), Node xs, Node ys) \<in> measure (\<lambda>(a, b). size a)" by simp
qed

fun np_all :: "bool nested \<Rightarrow> bool" where
  "np_all (Leaf b) = b"
| "np_all (Node xs) = list_all np_all xs"

text \<open>\<^verbatim>\<open>np.diff\<close> of a 1-D array, and \<^verbatim>\<open>np.allclose(a, b)\<close> against a scalar \<open>b\<close> with
  numpy's default tolerances \<^verbatim>\<open>rtol=1e-05\<close>, \<^verbatim>\<open>atol=1e-08\<close>.\<close>

definition np_diff :: "real list \<Rightarrow> real list" where
  "np_diff xs = map2 (\<lambda>a b. b - a) xs (tl xs)"

definition np_allclose :: "real list \<Rightarrow> real \<Rightarrow> bool" where
  "np_allclose a b = list_all (\<lambda>x. \<bar>x - b\<bar> \<le> 1 / 10 ^ 8 + \<bar>b\<bar> / 10 ^ 5) a"

section \<open>Labelled arrays\<close>

text \<open>
  An xray \<^verbatim>\<open>DataArray\<close>: the dimension names (one per axis), the values, the coordinates
  by name and the attribute dictionary. A Python dictionary is an association list with
  distinct keys in insertion order; \<^verbatim>\<open>d[k] = v\<close> is \<open>AList.update\<close>, which overwrites in
  place or appends. Coordinates are 1-D (or scalar) value lists with their own attributes;
  coordinates other than the one being extended are carried along untouched, so their
  dimensions are not recorded.
\<close>

type_synonym attr_dict = "(string \<times> string) list"

record coordinate =
  cvalues :: "real list"
  cattrs :: attr_dict

record dataarray =
  dims :: "string list"
  da_values :: ndarray
  coords :: "(string \<times> coordinate) list"
  attrs :: attr_dict

definition wf_dataarray :: "dataarray \<Rightarrow> bool" where
  "wf_dataarray da \<longleftrightarrow>
     length (dims da) = length (shape (da_values da)) \<and>
     has_shape (shape (da_values da)) (elems (da_values da)) \<and>
     distinct (dims da) \<and>
     distinct (map fst (coords da)) \<and>
     distinct (map fst (attrs da)) \<and>
     list_all (\<lambda>c. distinct (map fst (cattrs (snd c)))) (coords da)"

text \<open>\<^verbatim>\<open>tuple.index\<close>: the first position of an element, \<open>None\<close> where Python raises
  ValueError.\<close>

fun index_of :: "'a \<Rightarrow> 'a list \<Rightarrow> nat option" where
  "index_of x [] = None"
| "index_of x (y # ys) = (if x = y then Some 0 else map_option Suc (index_of x ys))"

text \<open>
  \<^verbatim>\<open>data.isel(**{coord: i})\<close>: xray raises ValueError for a dimension the array does not
  have, and numpy raises IndexError for an index outside the axis. The comparison in
  \<open>check_cyclic\<close> reads only the values of the selection, so \<open>isel\<close> returns those.
\<close>

definition isel :: "dataarray \<Rightarrow> string \<Rightarrow> int \<Rightarrow> py_error + ndarray" where
  "isel data coord i =
     (case index_of coord (dims data) of
        None \<Rightarrow> Inl ValueError
      | Some k \<Rightarrow> np_take (da_values data) k i)"

section \<open>plot\_util.py: the cyclic point\<close>

text \<open>
  \<^verbatim>\<open>def check_cyclic(data, coord='lon'):
      return np.all(data.isel(**{coord: 0}) == data.isel(**{coord: -1}))\<close>
\<close>

definition check_cyclic :: "dataarray \<Rightarrow> string \<Rightarrow> py_error + bool" where
  "check_cyclic data coord =
     (case isel data coord 0 of
        Inl e \<Rightarrow> Inl e
      | Inr a \<Rightarrow>
          (case isel data coord (- 1) of
             Inl e \<Rightarrow> Inl e
           | Inr b \<Rightarrow> Inr (np_all (nested_eq (elems a) (elems b)))))"

text \<open>
  \<^verbatim>\<open>cartopy.util.add_cyclic_point(data, coord, axis)\<close>, the library routine that
  \<open>cyclic_dataarray\<close> delegates to. In cartopy's order: the coordinate must be as long as
  the axis (ValueError); \<^verbatim>\<open>delta_coord = np.diff(coord)\<close> and \<^verbatim>\<open>delta_coord[0]\<close>, an
  IndexError when the coordinate has fewer than two values; the coordinate must be equally
  spaced up to \<^verbatim>\<open>np.allclose\<close> (ValueError); the new coordinate is
  \<^verbatim>\<open>concatenate((coord, coord[-1:] + delta_coord[0]))\<close> and the new data
  \<^verbatim>\<open>concatenate((data, data[..., 0:1, ...]), axis)\<close>.
\<close>

definition add_cyclic_point ::
  "ndarray \<Rightarrow> real list \<Rightarrow> nat \<Rightarrow> py_error + ndarray \<times> real list" where
  "add_cyclic_point data coord axis =
     (if length (shape data) \<le> axis then Inl IndexError
      else if length coord \<noteq> shape data ! axis then Inl ValueError
      else case np_diff coord of
             [] \<Rightarrow> Inl IndexError
           | d0 # ds \<Rightarrow>
               if \<not> np_allclose (d0 # ds) d0 then Inl ValueError
               else Inr (np_concatenate data (np_slice_first data axis) axis,
                         coord @ [last coord + d0]))"

text \<open>The two attribute-copying loops at the end of \<open>cyclic_dataarray\<close>.\<close>

definition copy_attrs :: "attr_dict \<Rightarrow> attr_dict \<Rightarrow> attr_dict" where
  "copy_attrs src dst = fold (\<lambda>(att, val). AList.update att val) src dst"

definition copy_coord_attrs ::
  "(string \<times> coordinate) list \<Rightarrow> (string \<times> coordinate) list \<Rightarrow> (string \<times> coordinate) list" where
  "copy_coord_attrs old new =
     fold (\<lambda>(c, oc). AList.map_entry c (\<lambda>nc. nc\<lparr>cattrs := copy_attrs (cattrs oc) (cattrs nc)\<rparr>))
       old new"

text \<open>
  \<^verbatim>\<open>def cyclic_dataarray(da, coord='lon'):
      lon_idx = da.dims.index(coord)
      cyclic_data, cyclic_coord = add_cyclic_point(da.values, coord=da.coords[coord],
                                                   axis=lon_idx)
      new_coords = dict(da.coords)
      new_coords[coord] = cyclic_coord
      new_values = cyclic_data
      new_da = xray.DataArray(new_values, dims=da.dims, coords=new_coords)
      for att, val in da.attrs.items():
          new_da.attrs[att] = val
      for c in da.coords:
          for att in da.coords[c].attrs:
              new_da.coords[c].attrs[att] = da.coords[c].attrs[att]
      return new_da\<close>
  The bare array \<open>cyclic_coord\<close> has no attributes when it enters the new array; the last
  loop gives them back.
\<close>

definition cyclic_dataarray :: "dataarray \<Rightarrow> string \<Rightarrow> py_error + dataarray" where
  "cyclic_dataarray da coord =
     (case index_of coord (dims da) of
        None \<Rightarrow> Inl ValueError
      | Some lon_idx \<Rightarrow>
          (case map_of (coords da) coord of
             None \<Rightarrow> Inl KeyError
           | Some c \<Rightarrow>
               (case add_cyclic_point (da_values da) (cvalues c) lon_idx of
                  Inl e \<Rightarrow> Inl e
                | Inr (cyclic_data, cyclic_coord) \<Rightarrow>
                    (let new_coords =
                           AList.update coord \<lparr>cvalues = cyclic_coord, cattrs = []\<rparr> (coords da);
                         new_da = \<lparr>dims = dims da, da_values = cyclic_data,
                                   coords = new_coords, attrs = []\<rparr>;
                         new_da = new_da\<lparr>attrs := copy_attrs (attrs da) (attrs new_da)\<rparr>;
                         new_da = new_da\<lparr>coords := copy_coord_attrs (coords da) (coords new_da)\<rparr>
                     in Inr new_da))))"

text \<open>
  The Cyclic-Point Corrector is the pair of lines in the time loop of
  plot-all-in-ncfile.py:
  \<^verbatim>\<open>if not check_cyclic(plot_data, coord='lon'):
      plot_data = cyclic_dataarray(plot_data, coord='lon')\<close>
\<close>

definition cyclic_corrector :: "dataarray \<Rightarrow> string \<Rightarrow> py_error + dataarray" where
  "cyclic_corrector plot_data coord =
     (case check_cyclic plot_data coord of
        Inl e \<Rightarrow> Inl e
      | Inr cyclic \<Rightarrow> if \<not> cyclic then cyclic_dataarray plot_data coord else Inr plot_data)"

text \<open>The array that \<open>cyclic_dataarray\<close> builds when no step raises, written out.\<close>

definition cyclic_result :: "dataarray \<Rightarrow> string \<Rightarrow> nat \<Rightarrow> coordinate \<Rightarrow> dataarray" where
  "cyclic_result da coord k c =
     \<lparr>dims = dims da,
      da_values = \<lparr>shape = (shape (da_values da))[k := Suc (shape (da_values da) ! k)],
                   elems = concat_axis k (elems (da_values da))
                             (slice_first k (elems (da_values da)))\<rparr>,
      coords = AList.update coord
                 \<lparr>cvalues = cvalues c @ [last (cvalues c) + (cvalues c ! 1 - cvalues c ! 0)],
                  cattrs = cattrs c\<rparr> (coords da),
      attrs = attrs da\<rparr>"

section \<open>Effects\<close>

text \<open>
  Keyword arguments and the cached colormap settings hold Python values of several types.
  \<open>PArr\<close> is a numpy array (the contour levels), \<open>PObj\<close> an opaque library object such as
  a colormap or a projection.
\<close>

datatype pyval =
    PNone | PBool bool | PNum real | PStr string | PArr "real list"
  | PList "pyval list" | PTuple "pyval list" | PDict "(string \<times> pyval) list" | PObj string

type_synonym kwargs = "(string \<times> pyval) list"

type_synonym color_data = "(string \<times> kwargs) list"

text \<open>Lists, dictionaries and arrays cannot be dictionary keys (TypeError).\<close>

fun hashable :: "pyval \<Rightarrow> bool" where
  "hashable (PArr a) = False"
| "hashable (PList xs) = False"
| "hashable (PDict d) = False"
| "hashable (PTuple xs) = list_all hashable xs"
| "hashable v = True"

text \<open>
  A georeferenced drawing surface. \<open>has_projection\<close> is \<^verbatim>\<open>hasattr(ax, 'projection')\<close>;
  \<open>labels_supported\<close> says whether \<^verbatim>\<open>ax.gridlines(draw_labels=True)\<close> works on its
  projection (cartopy raises TypeError where it cannot label).
\<close>

record axes =
  has_projection :: bool
  labels_supported :: bool

text \<open>The colorbar that \<open>add_colorbar\<close> asks matplotlib for.\<close>

datatype colorbar =
    AxisColorbar real string
  | FigureColorbar real real real real string

text \<open>
  Everything the program does to the outside world, in the order it does it: lines on
  standard output, warnings, the colormap file, and the calls into the plotting library.
\<close>

datatype event =
    Print string
  | Warn string
  | WriteColorfile string color_data
  | NewFigure string
  | AddSubplot
  | NewAxes
  | SetCurrentAxes
  | SetGlobal
  | Coastlines
  | Gridlines pyval
  | PlotCall string dataarray kwargs
  | SetTitle string
  | AddColorbar colorbar
  | SetLabel string
  | Draw
  | SaveFig string
  | CloseFig

text \<open>
  A computation returns its value, or stops the script, together with the events it caused
  up to that point. The script stops on an exception nobody catches (\<open>Raised\<close>) or on
  \<^verbatim>\<open>sys.exit(n)\<close> (\<open>Exit n\<close>). \<open>bind_run\<close> is sequencing: a stop skips the rest.
\<close>

datatype abort = Raised py_error | Exit nat

type_synonym 'a run = "(abort + 'a) \<times> event list"

definition done_run :: "'a \<Rightarrow> 'a run" where
  "done_run x = (Inr x, [])"

definition raise_run :: "py_error \<Rightarrow> 'a run" where
  "raise_run e = (Inl (Raised e), [])"

definition exit_run :: "nat \<Rightarrow> 'a run" where
  "exit_run n = (Inl (Exit n), [])"

definition emit :: "event list \<Rightarrow> unit run" where
  "emit evs = (Inr (), evs)"

definition lift_run :: "py_error + 'a \<Rightarrow> 'a run" where
  "lift_run r = (case r of Inl e \<Rightarrow> raise_run e | Inr x \<Rightarrow> done_run x)"

definition bind_run :: "'a run \<Rightarrow> ('a \<Rightarrow> 'b run) \<Rightarrow> 'b run" where
  "bind_run m f =
     (case m of
        (Inl e, evs) \<Rightarrow> (Inl e, evs)
      | (Inr x, evs) \<Rightarrow> (case f x of (r, evs') \<Rightarrow> (r, evs @ evs')))"

fun for_each :: "('a \<Rightarrow> unit run) \<Rightarrow> 'a list \<Rightarrow> unit run" where
  "for_each f [] = done_run ()"
| "for_each f (x # xs) = bind_run (f x) (\<lambda>_. for_each f xs)"

section \<open>plot\_util.py: the map renderer\<close>

text \<open>
  What the plotting libraries contribute. \<open>ccrs_namespace name\<close> is
  \<^verbatim>\<open>ccrs.__dict__[name]\<close>, the constructor of the projection of that name, applied to its
  keyword arguments; \<open>determine_cmap_params\<close> is xarray's
  \<^verbatim>\<open>_determine_cmap_params(plot_data, robust=, extend=, levels=)\<close>, a function of the
  arguments the program passes that returns the settings or raises (it raises, for
  instance, on data without a single finite value).
\<close>

record cmap_args =
  cm_levels :: "nat option"
  cm_robust :: bool
  cm_extend :: "string option"

definition default_cmap_args :: cmap_args where
  "default_cmap_args = \<lparr>cm_levels = None, cm_robust = False, cm_extend = None\<rparr>"

record plot_env =
  ccrs_namespace :: "string \<Rightarrow> (kwargs \<Rightarrow> py_error + axes) option"
  determine_cmap_params :: "cmap_args \<Rightarrow> ndarray \<Rightarrow> py_error + kwargs"

text \<open>
  \<^verbatim>\<open>_PLOTTYPE_ARGS = {
      'pcolormesh': dict(linewidth='0'),
      'pcolor': dict(linewidth='0'),
      'contourf': dict(),
  }\<close>
\<close>

definition PLOTTYPE_ARGS :: "(string \<times> kwargs) list" where
  "PLOTTYPE_ARGS =
     [(''pcolormesh'', [(''linewidth'', PStr ''0'')]),
      (''pcolor'', [(''linewidth'', PStr ''0'')]),
      (''contourf'', [])]"

text \<open>\<^verbatim>\<open>d.update(**other)\<close> on dictionaries.\<close>

definition dict_update :: "('k \<times> 'v) list \<Rightarrow> ('k \<times> 'v) list \<Rightarrow> ('k \<times> 'v) list" where
  "dict_update d other = fold (\<lambda>(k, v). AList.update k v) other d"

text \<open>
  \<^verbatim>\<open>def add_colorbar(mappable, fig=None, ax=None, thickness=0.025,
                   shrink=0.1, pad=0.05, orientation='horizontal')\<close>
  A figure is the list of the positions of its axes, each \<open>((x0, y0), (x1, y1))\<close> as
  \<^verbatim>\<open>get_position().get_points()\<close> gives them.
\<close>

type_synonym bbox = "(real \<times> real) \<times> (real \<times> real)"

definition add_colorbar ::
  "bbox list option \<Rightarrow> axes option \<Rightarrow> real \<Rightarrow> real \<Rightarrow> real \<Rightarrow> string \<Rightarrow> py_error + colorbar" where
  "add_colorbar fig ax thickness shrink pad orientation =
     (case fig of
        None \<Rightarrow>
          (case ax of
             None \<Rightarrow> Inl ValueError
           | Some a \<Rightarrow> Inr (AxisColorbar pad orientation))
      | Some figure_axes \<Rightarrow>
          (case figure_axes of
             [] \<Rightarrow> Inl IndexError
           | ul # rest \<Rightarrow>
               (let lr = last figure_axes;
                    top = snd (snd ul);
                    bot = snd (fst lr);
                    right = fst (snd lr);
                    left = fst (fst ul)
                in if orientation = ''vertical'' then
                     (let cb_left = right + pad;
                          cb_width = thickness;
                          cb_bottom = bot + shrink;
                          cb_height = (top - shrink) - cb_bottom
                      in Inr (FigureColorbar cb_left cb_bottom cb_width cb_height orientation))
                   else if orientation = ''horizontal'' then
                     (let cb_left = left + shrink;
                          cb_width = (right - shrink) - cb_left;
                          cb_height = thickness;
                          cb_bottom = (bot - pad) - cb_height
                      in Inr (FigureColorbar cb_left cb_bottom cb_width cb_height orientation))
                   else Inl ValueError)))"

text \<open>
  \<^verbatim>\<open>def geo_plot(darray, ax=None, method='contourf',
               projection='PlateCarree', grid=False, **kwargs)\<close>
  in the order of the source: the method lookup in \<open>PLOTTYPE_ARGS\<close> (the membership test
  hashes the method), the merge of the keyword arguments, the axis (created from the
  projection, or the one passed in, which must have a projection), the map set-up, the
  gridlines inside \<^verbatim>\<open>try ... except TypeError\<close>, the colormap fallback when \<^verbatim>\<open>vmin\<close>
  is not among the keyword arguments, and the plot call, which reads
  \<^verbatim>\<open>darray.lon\<close> and \<^verbatim>\<open>darray.lat\<close>.
\<close>

definition geo_plot_axis :: "plot_env \<Rightarrow> axes option \<Rightarrow> pyval \<Rightarrow> axes run" where
  "geo_plot_axis env ax projection =
     (case ax of
        None \<Rightarrow>
          bind_run
            (case projection of
               PList xs \<Rightarrow>
                 if length xs \<noteq> 2 then raise_run ValueError else done_run (xs ! 0, xs ! 1)
             | PTuple xs \<Rightarrow>
                 if length xs \<noteq> 2 then raise_run ValueError else done_run (xs ! 0, xs ! 1)
             | _ \<Rightarrow> done_run (projection, PDict []))
            (\<lambda>(projection, proj_kwargs).
               if \<not> hashable projection then raise_run TypeError
               else case projection of
                      PStr name \<Rightarrow>
                        (case ccrs_namespace env name of
                           None \<Rightarrow> raise_run KeyError
                         | Some make_proj \<Rightarrow>
                             (case proj_kwargs of
                                PDict kw \<Rightarrow>
                                  bind_run (lift_run (make_proj kw))
                                    (\<lambda>new_ax. bind_run (emit [NewAxes]) (\<lambda>_. done_run new_ax))
                              | _ \<Rightarrow> raise_run TypeError))
                    | _ \<Rightarrow> raise_run KeyError)
      | Some a \<Rightarrow>
          if \<not> has_projection a then raise_run ValueError
          else bind_run (emit [SetCurrentAxes]) (\<lambda>_. done_run a))"

definition geo_plot ::
  "plot_env \<Rightarrow> dataarray \<Rightarrow> axes option \<Rightarrow> pyval \<Rightarrow> pyval \<Rightarrow> pyval \<Rightarrow> kwargs \<Rightarrow> axes run" where
  "geo_plot env darray ax method projection grid kwargs =
     (if \<not> hashable method then raise_run TypeError
      else case (case method of PStr m \<Rightarrow> map_option (Pair m) (map_of PLOTTYPE_ARGS m)
                               | _ \<Rightarrow> None) of
        None \<Rightarrow> raise_run ValueError
      | Some (m, plot_args) \<Rightarrow>
          (let extra_args = dict_update plot_args kwargs;
               extra_args = AList.update ''transform'' (PObj ''PlateCarree'') extra_args
           in bind_run (geo_plot_axis env ax projection) (\<lambda>ax.
              bind_run (emit [SetGlobal, Coastlines]) (\<lambda>_.
              bind_run (if labels_supported ax then emit [Gridlines grid]
                        else emit [Warn ''Could not label the given map projection.'']) (\<lambda>_.
              bind_run (if ''vmin'' \<notin> fst ` set kwargs
                        then bind_run (emit [Warn ''Re-inferring color parameters...'']) (\<lambda>_.
                             bind_run (lift_run (determine_cmap_params env default_cmap_args
                                                   (da_values darray))) (\<lambda>cmap_kws.
                             done_run (dict_update extra_args cmap_kws)))
                        else done_run extra_args) (\<lambda>extra_args.
              if map_of (coords darray) ''lon'' = None then raise_run AttributeError
              else if map_of (coords darray) ''lat'' = None then raise_run AttributeError
              else bind_run (emit [PlotCall m darray extra_args]) (\<lambda>_. done_run ax)))))))"

section \<open>plot-all-in-ncfile.py\<close>

subsection \<open>Time stamps and file names\<close>

text \<open>
  A decoded time value, and the two \<^verbatim>\<open>strftime\<close> formats of the script:
  \<^verbatim>\<open>'%m-%d-%Y %H:%MZ'\<close> for the title and \<^verbatim>\<open>'%m%d%Y_%H%MZ'\<close> for the file name. Month, day,
  hour and minute are zero-padded to two digits; a pandas time stamp has a four-digit year.
\<close>

record timestamp =
  ts_year :: nat
  ts_month :: nat
  ts_day :: nat
  ts_hour :: nat
  ts_minute :: nat

definition digit_char :: "nat \<Rightarrow> char" where
  "digit_char n = ''0123456789'' ! n"

fun show_nat :: "nat \<Rightarrow> string" where
  "show_nat n =
     (if n < 10 then [digit_char n]
      else show_nat (n div 10) @ [digit_char (n mod 10)])"

definition pad2 :: "nat \<Rightarrow> string" where
  "pad2 n = (if n < 10 then ''0'' @ show_nat n else show_nat n)"

definition ts_str :: "timestamp \<Rightarrow> string" where
  "ts_str ts =
     pad2 (ts_month ts) @ ''-'' @ pad2 (ts_day ts) @ ''-'' @ show_nat (ts_year ts) @ '' '' @
     pad2 (ts_hour ts) @ '':'' @ pad2 (ts_minute ts) @ ''Z''"

definition fn_ts_str :: "timestamp \<Rightarrow> string" where
  "fn_ts_str ts =
     pad2 (ts_month ts) @ pad2 (ts_day ts) @ show_nat (ts_year ts) @ ''_'' @
     pad2 (ts_hour ts) @ pad2 (ts_minute ts) @ ''Z''"

text \<open>\<^verbatim>\<open>out_fn = "%s_%s.%s" % (v, fn_ts_str, plot_fmt)\<close> with \<^verbatim>\<open>plot_fmt = 'png'\<close>.\<close>

definition out_fn :: "string \<Rightarrow> timestamp \<Rightarrow> string" where
  "out_fn v ts = v @ ''_'' @ fn_ts_str ts @ ''.'' @ ''png''"

text \<open>
  \<^verbatim>\<open>os.path.splitext\<close> (posixpath): the extension starts at the last dot of the last path
  component, unless that component consists of leading dots up to there.
\<close>

definition rfind :: "char \<Rightarrow> string \<Rightarrow> int" where
  "rfind c p =
     (case filter (\<lambda>i. p ! i = c) (rev [0..<length p]) of
        [] \<Rightarrow> - 1
      | i # _ \<Rightarrow> int i)"

definition splitext :: "string \<Rightarrow> string \<times> string" where
  "splitext p =
     (let sepIndex = rfind CHR ''/'' p;
          dotIndex = rfind CHR ''.'' p
      in if dotIndex > sepIndex \<and>
            list_ex (\<lambda>c. c \<noteq> CHR ''.'')
              (take (nat (dotIndex - (sepIndex + 1))) (drop (nat (sepIndex + 1)) p))
         then (take (nat dotIndex) p, drop (nat dotIndex) p)
         else (p, []))"

subsection \<open>The dataset\<close>

text \<open>
  A variable of the opened file: its dimension names, its attributes, its full data (what
  the colormap inference reads), and what \<^verbatim>\<open>var_data.groupby('time')\<close> yields: the time
  slices in order, or the exception xray raises (a variable without a time axis).
  \<open>var_getattr\<close> is attribute-style access \<^verbatim>\<open>var_data.<name>\<close> formatted with \<^verbatim>\<open>%s\<close>,
  \<open>None\<close> where \<^verbatim>\<open>hasattr\<close> is false.
\<close>

record variable =
  var_dims :: "string list"
  var_attrs :: attr_dict
  var_getattr :: "string \<Rightarrow> string option"
  var_array :: ndarray
  var_groups :: "py_error + (timestamp \<times> dataarray) list"

text \<open>
  The dataset: its global attributes, its variables in file order (coordinate variables
  included) and the names that are coordinates. As in xray, the dimensions of the dataset
  are those of its variables, and \<^verbatim>\<open>name in dataset\<close> asks for a variable of that name.
\<close>

record dataset =
  ds_attrs :: attr_dict
  ds_variables :: "(string \<times> variable) list"
  ds_coords :: "string list"

definition ds_dims :: "dataset \<Rightarrow> string list" where
  "ds_dims ds = remdups (concat (map (\<lambda>(name, var). var_dims var) (ds_variables ds)))"

definition in_dataset :: "string \<Rightarrow> dataset \<Rightarrow> bool" where
  "in_dataset name ds \<longleftrightarrow> name \<in> fst ` set (ds_variables ds)"

text \<open>
  Variable names are distinct (they are dictionary keys). Every dimension has a coordinate
  variable of its own name, which xray creates when the file has none; the coordinates of
  the dataset are variables of it; and an array taken from the dataset has its dimensions
  and coordinates among the variables of the dataset.
\<close>

definition wf_dataset :: "dataset \<Rightarrow> bool" where
  "wf_dataset ds \<longleftrightarrow>
     distinct (map fst (ds_variables ds)) \<and>
     list_all (\<lambda>d. in_dataset d ds) (ds_dims ds) \<and>
     list_all (\<lambda>c. in_dataset c ds) (ds_coords ds) \<and>
     list_all (\<lambda>(v, var).
        case var_groups var of
          Inl e \<Rightarrow> True
        | Inr groups \<Rightarrow>
            list_all (\<lambda>(time, da).
               list_all (\<lambda>n. in_dataset n ds) (dims da @ map fst (coords da))) groups)
       (ds_variables ds)"

text \<open>
  \<^verbatim>\<open>dataset.rename({old: new}, inplace=True)\<close>. xray refuses a name that is not a variable
  of the dataset and a new name that is already taken (ValueError); otherwise the variable
  and every dimension of that name are renamed, in the dataset and so in every array taken
  from it afterwards.
\<close>

definition rename_name :: "string \<Rightarrow> string \<Rightarrow> string \<Rightarrow> string" where
  "rename_name old new n = (if n = old then new else n)"

definition rename_dataarray :: "string \<Rightarrow> string \<Rightarrow> dataarray \<Rightarrow> dataarray" where
  "rename_dataarray old new da =
     da\<lparr>dims := map (rename_name old new) (dims da),
        coords := map (\<lambda>(n, c). (rename_name old new n, c)) (coords da)\<rparr>"

definition rename_variable :: "string \<Rightarrow> string \<Rightarrow> variable \<Rightarrow> variable" where
  "rename_variable old new var =
     var\<lparr>var_dims := map (rename_name old new) (var_dims var),
         var_groups := map_sum id (map (\<lambda>(t, da). (t, rename_dataarray old new da)))
                         (var_groups var)\<rparr>"

definition rename :: "dataset \<Rightarrow> string \<Rightarrow> string \<Rightarrow> py_error + dataset" where
  "rename ds old new =
     (if \<not> in_dataset old ds then Inl ValueError
      else if in_dataset new ds then Inl ValueError
      else Inr (ds\<lparr>ds_variables :=
                      map (\<lambda>(n, var). (rename_name old new n, rename_variable old new var))
                        (ds_variables ds),
                    ds_coords := map (rename_name old new) (ds_coords ds)\<rparr>))"

text \<open>
  \<^verbatim>\<open>if 'longitude' in dataset:
      dataset.rename({'longitude': 'lon', }, inplace=True)
  if 'latitude' in dataset:
      dataset.rename({'latitude': 'lat', }, inplace=True)\<close>
\<close>

definition coerce_dims :: "dataset \<Rightarrow> py_error + dataset" where
  "coerce_dims dataset =
     (case (if in_dataset ''longitude'' dataset then rename dataset ''longitude'' ''lon''
            else Inr dataset) of
        Inl e \<Rightarrow> Inl e
      | Inr dataset \<Rightarrow>
          (if in_dataset ''latitude'' dataset then rename dataset ''latitude'' ''lat''
           else Inr dataset))"

text \<open>
  What the two renamings together do to a name, to an array and to a variable, and the name
  that the dimension called \<^verbatim>\<open>lon\<close> (\<^verbatim>\<open>lat\<close>) after them had in the file.
\<close>

definition coerced_name :: "string \<Rightarrow> string" where
  "coerced_name n = rename_name ''latitude'' ''lat'' (rename_name ''longitude'' ''lon'' n)"

definition coerced_dataarray :: "dataarray \<Rightarrow> dataarray" where
  "coerced_dataarray da =
     rename_dataarray ''latitude'' ''lat'' (rename_dataarray ''longitude'' ''lon'' da)"

definition coerced_variable :: "variable \<Rightarrow> variable" where
  "coerced_variable var =
     rename_variable ''latitude'' ''lat'' (rename_variable ''longitude'' ''lon'' var)"

definition file_lon :: "dataset \<Rightarrow> string" where
  "file_lon ds = (if in_dataset ''longitude'' ds then ''longitude'' else ''lon'')"

definition file_lat :: "dataset \<Rightarrow> string" where
  "file_lat ds = (if in_dataset ''latitude'' ds then ''latitude'' else ''lat'')"

subsection \<open>The command line and the file system\<close>

text \<open>
  The parsed arguments, and what the run finds outside: the result of
  \<^verbatim>\<open>xray.open_dataset\<close> on a path, the result of opening and unpickling a colormap file
  (\<open>OSError\<close> covers FileNotFoundError and IOError), which files can be written, how the
  dataset and a Python value print, and the plotting libraries.
\<close>

record args =
  nc_file :: string
  variables :: "string list option"
  colorfile :: "string option"
  sample :: bool

record env =
  open_dataset :: "string \<Rightarrow> py_error + dataset"
  load_colorfile :: "string \<Rightarrow> py_error + color_data"
  can_write :: "string \<Rightarrow> bool"
  repr_dataset :: "dataset \<Rightarrow> string"
  py_str :: "pyval \<Rightarrow> string"
  plotting :: plot_env

text \<open>The exit status of the process: 0 at the end of the script, the argument of
  \<^verbatim>\<open>sys.exit\<close>, and 1 for an exception nobody catches.\<close>

definition exit_status :: "'a run \<Rightarrow> nat" where
  "exit_status r =
     (case fst r of
        Inr x \<Rightarrow> 0
      | Inl (Exit n) \<Rightarrow> n
      | Inl (Raised e) \<Rightarrow> 1)"

subsection \<open>Reading the input\<close>

text \<open>
  \<^verbatim>\<open>try:
      dataset = xray.open_dataset(fn_in, decode_cf=True,
                                  decode_coords=True, mask_and_scale=True)
  except RuntimeError:
      print("Could not open netCDF file '%s'" % fn_in)
      sys.exit(1)
  print("Input file details:")
  for attr, val in dataset.attrs.items():
      print("   " + "%s: %s" % (attr, val))\<close>
\<close>

definition print_attrs :: "string \<Rightarrow> attr_dict \<Rightarrow> unit run" where
  "print_attrs indent d = emit (map (\<lambda>(attr, val). Print (indent @ attr @ '': '' @ val)) d)"

definition read_dataset :: "env \<Rightarrow> string \<Rightarrow> dataset run" where
  "read_dataset env fn_in =
     (case open_dataset env fn_in of
        Inl RuntimeError \<Rightarrow>
          bind_run (emit [Print (''Could not open netCDF file '' @ [CHR 0x27] @ fn_in @ [CHR 0x27])])
            (\<lambda>_. exit_run 1)
      | Inl e \<Rightarrow> raise_run e
      | Inr dataset \<Rightarrow>
          bind_run (emit [Print ''Input file details:'']) (\<lambda>_.
          bind_run (print_attrs ''   '' (ds_attrs dataset)) (\<lambda>_.
          done_run dataset)))"

subsection \<open>Colormap parameters\<close>

text \<open>
  The loop of the colorfile branch, over \<^verbatim>\<open>dataset.variables\<close>:
  \<^verbatim>\<open>for v in dataset.variables:
      if v in dataset.dims: continue
      if not (v in color_data):
          warnings.warn("Couldn't find color data for %s" % v)
          color_data[v] = _determine_cmap_params(dataset[v].data)\<close>
\<close>

definition missing_color_warning :: "string \<Rightarrow> string" where
  "missing_color_warning v = ''Couldn't find color data for '' @ v"

fun infer_missing ::
  "env \<Rightarrow> string list \<Rightarrow> (string \<times> variable) list \<Rightarrow> color_data \<Rightarrow> color_data run" where
  "infer_missing env dim_names [] color_data = done_run color_data"
| "infer_missing env dim_names ((v, var) # rest) color_data =
     (if v \<in> set dim_names then infer_missing env dim_names rest color_data
      else if v \<notin> fst ` set color_data then
        bind_run (emit [Warn (missing_color_warning v)]) (\<lambda>_.
        bind_run (lift_run (determine_cmap_params (plotting env) default_cmap_args
                              (var_array var))) (\<lambda>params.
        infer_missing env dim_names rest (AList.update v params color_data)))
      else infer_missing env dim_names rest color_data)"

text \<open>
  The loop of the other branch:
  \<^verbatim>\<open>color_data = {}
  for v in dataset.variables:
      if v in dataset.dims: continue
      print("   " + v)
      color_data[v] = _determine_cmap_params(dataset[v].data,
                                             levels=21,
                                             robust=True,
                                             extend='both')\<close>
\<close>

definition batch_cmap_args :: cmap_args where
  "batch_cmap_args = \<lparr>cm_levels = Some 21, cm_robust = True, cm_extend = Some ''both''\<rparr>"

fun infer_all ::
  "env \<Rightarrow> string list \<Rightarrow> (string \<times> variable) list \<Rightarrow> color_data \<Rightarrow> color_data run" where
  "infer_all env dim_names [] color_data = done_run color_data"
| "infer_all env dim_names ((v, var) # rest) color_data =
     (if v \<in> set dim_names then infer_all env dim_names rest color_data
      else
        bind_run (emit [Print (''   '' @ v)]) (\<lambda>_.
        bind_run (lift_run (determine_cmap_params (plotting env) batch_cmap_args
                              (var_array var))) (\<lambda>params.
        infer_all env dim_names rest (AList.update v params color_data))))"

text \<open>
  \<^verbatim>\<open>if args.colorfile is not None:
      colorfile = args.colorfile
      try:
          with open(colorfile, 'rb') as f:
              color_data = pickle.load(f)
      except (FileNotFoundError, IOError):
          print("Could not open colorfile '%s'" % args.colorfile)
          sys.exit(1)
      ... the first loop ...
  else:
      print("Inferring new colormaps")
      ... the second loop ...\<close>
\<close>

definition resolve_colors :: "env \<Rightarrow> args \<Rightarrow> dataset \<Rightarrow> color_data run" where
  "resolve_colors env args dataset =
     (case colorfile args of
        Some cf \<Rightarrow>
          (case load_colorfile env cf of
             Inl OSError \<Rightarrow>
               bind_run (emit [Print (''Could not open colorfile '' @ [CHR 0x27] @ cf @ [CHR 0x27])])
                 (\<lambda>_. exit_run 1)
           | Inl e \<Rightarrow> raise_run e
           | Inr color_data \<Rightarrow>
               infer_missing env (ds_dims dataset) (ds_variables dataset) color_data)
      | None \<Rightarrow>
          bind_run (emit [Print ''Inferring new colormaps'']) (\<lambda>_.
          infer_all env (ds_dims dataset) (ds_variables dataset) []))"

text \<open>
  \<^verbatim>\<open>print("Saving colormap data")
  fn_basename, _ = os.path.splitext(args.nc_file)
  with open(fn_basename+".cf", 'wb') as f:
      pickle.dump(color_data, f)\<close>
\<close>

definition save_colorfile :: "env \<Rightarrow> args \<Rightarrow> color_data \<Rightarrow> unit run" where
  "save_colorfile env args color_data =
     bind_run (emit [Print ''Saving colormap data'']) (\<lambda>_.
     (let fn_basename = fst (splitext (nc_file args))
      in if \<not> can_write env (fn_basename @ ''.cf'') then raise_run OSError
         else emit [WriteColorfile (fn_basename @ ''.cf'') color_data]))"

subsection \<open>Plotting\<close>

text \<open>
  The call \<^verbatim>\<open>geo_plot(plot_data, ax=ax, **var_cmap_kwargs)\<close>: a cached setting named like
  a parameter of \<open>geo_plot\<close> binds that parameter (twice for \<^verbatim>\<open>darray\<close> and \<^verbatim>\<open>ax\<close>, a
  TypeError); the others are its \<^verbatim>\<open>**kwargs\<close>.
\<close>

definition call_geo_plot :: "plot_env \<Rightarrow> dataarray \<Rightarrow> axes \<Rightarrow> kwargs \<Rightarrow> axes run" where
  "call_geo_plot penv plot_data ax var_cmap_kwargs =
     (if ''darray'' \<in> fst ` set var_cmap_kwargs \<or> ''ax'' \<in> fst ` set var_cmap_kwargs
      then raise_run TypeError
      else geo_plot penv plot_data (Some ax)
             (case map_of var_cmap_kwargs ''method'' of None \<Rightarrow> PStr ''contourf'' | Some m \<Rightarrow> m)
             (case map_of var_cmap_kwargs ''projection'' of
                None \<Rightarrow> PStr ''PlateCarree'' | Some p \<Rightarrow> p)
             (case map_of var_cmap_kwargs ''grid'' of None \<Rightarrow> PBool False | Some g \<Rightarrow> g)
             (filter (\<lambda>(k, v). k \<notin> {''method'', ''projection'', ''grid''}) var_cmap_kwargs))"

text \<open>
  \<^verbatim>\<open>if hasattr(var_data, 'long_name'):
      cb_label = var_data.long_name
  else:
      cb_label = v
  if hasattr(var_data, 'level'):
      cb_label += " (%s)" % var_data.level
  if hasattr(var_data, 'units'):
      cb_label += " [%s]" % var_data.units\<close>
\<close>

definition cb_label :: "string \<Rightarrow> variable \<Rightarrow> string" where
  "cb_label v var_data =
     (case var_getattr var_data ''long_name'' of None \<Rightarrow> v | Some n \<Rightarrow> n) @
     (case var_getattr var_data ''level'' of None \<Rightarrow> [] | Some l \<Rightarrow> '' ('' @ l @ '')'') @
     (case var_getattr var_data ''units'' of None \<Rightarrow> [] | Some u \<Rightarrow> '' ['' @ u @ '']'')"

text \<open>
  The body of the time loop, for one time slice: the line on standard output, the cyclic
  point, the figure with its PlateCarree axis, the map, the title, the colorbar and its
  label, and the image file.
\<close>

definition plot_timeslice ::
  "env \<Rightarrow> string \<Rightarrow> variable \<Rightarrow> kwargs \<Rightarrow> timestamp \<times> dataarray \<Rightarrow> unit run" where
  "plot_timeslice env v var_data var_cmap_kwargs slice =
     (case slice of (time, plot_data) \<Rightarrow>
        bind_run (emit [Print (''   '' @ ts_str time)]) (\<lambda>_.
        bind_run (lift_run (cyclic_corrector plot_data ''lon'')) (\<lambda>plot_data.
        bind_run (emit [NewFigure (ts_str time), AddSubplot]) (\<lambda>_.
        bind_run (call_geo_plot (plotting env) plot_data
                    \<lparr>has_projection = True, labels_supported = True\<rparr> var_cmap_kwargs) (\<lambda>ax.
        bind_run (emit [SetTitle (ts_str time)]) (\<lambda>_.
        bind_run (lift_run (add_colorbar None (Some ax) (25 / 1000) (1 / 10) (1 / 10)
                              ''horizontal'')) (\<lambda>cb.
        bind_run (emit [AddColorbar cb, SetLabel (cb_label v var_data), Draw]) (\<lambda>_.
        if \<not> can_write env (out_fn v time) then raise_run OSError
        else emit [SaveFig (out_fn v time), CloseFig]))))))))"

text \<open>
  \<^verbatim>\<open>for time, plot_data in var_data.groupby('time'):
      ...
      if args.sample:
          break\<close>
\<close>

fun plot_times :: "env \<Rightarrow> bool \<Rightarrow> string \<Rightarrow> variable \<Rightarrow> kwargs \<Rightarrow>
    (timestamp \<times> dataarray) list \<Rightarrow> unit run" where
  "plot_times env smpl v var_data var_cmap_kwargs [] = done_run ()"
| "plot_times env smpl v var_data var_cmap_kwargs (slice # rest) =
     bind_run (plot_timeslice env v var_data var_cmap_kwargs slice) (\<lambda>_.
     if smpl then done_run ()
     else plot_times env smpl v var_data var_cmap_kwargs rest)"

text \<open>
  The body of the variable loop:
  \<^verbatim>\<open>if (v in dataset.dims) or (v in dataset.coords): continue
  print("\nPlotting data for variable '%s'..." % v)
  var_data = dataset[v]
  print("   Variable details:")
  for attr, val in var_data.attrs.items():
      print("      " + "%s: %s" % (attr, val))
  print("   Colormap settings:")
  var_cmap_kwargs = color_data[v]
  for key, val in var_cmap_kwargs.items():
      print("      " + "%s: %s" % (key, val))
  ... the time loop ...\<close>
\<close>

definition plot_variable ::
  "env \<Rightarrow> args \<Rightarrow> dataset \<Rightarrow> color_data \<Rightarrow> string \<times> variable \<Rightarrow> unit run" where
  "plot_variable env args dataset color_data entry =
     (case entry of (v, var_data) \<Rightarrow>
        if v \<in> set (ds_dims dataset) \<or> v \<in> set (ds_coords dataset) then done_run ()
        else
          bind_run (emit [Print ([CHR 0x0A] @ ''Plotting data for variable '' @ [CHR 0x27] @ v @
                                 [CHR 0x27] @ ''...''),
                          Print ''   Variable details:'']) (\<lambda>_.
          bind_run (print_attrs ''      '' (var_attrs var_data)) (\<lambda>_.
          bind_run (emit [Print ''   Colormap settings:'']) (\<lambda>_.
          bind_run (case map_of color_data v of
                      None \<Rightarrow> raise_run KeyError
                    | Some kw \<Rightarrow> done_run kw) (\<lambda>var_cmap_kwargs.
          bind_run (emit (map (\<lambda>(key, val). Print (''      '' @ key @ '': '' @ py_str env val))
                            var_cmap_kwargs)) (\<lambda>_.
          bind_run (lift_run (var_groups var_data)) (\<lambda>groups.
          plot_times env (sample args) v var_data var_cmap_kwargs groups)))))))"

text \<open>The script from top to bottom.\<close>

definition main :: "env \<Rightarrow> args \<Rightarrow> unit run" where
  "main env args =
     bind_run (read_dataset env (nc_file args)) (\<lambda>dataset.
     bind_run (lift_run (coerce_dims dataset)) (\<lambda>dataset.
     bind_run (resolve_colors env args dataset) (\<lambda>color_data.
     bind_run (save_colorfile env args color_data) (\<lambda>_.
     bind_run (emit [Print (repr_dataset env dataset)]) (\<lambda>_.
     for_each (plot_variable env args dataset color_data) (ds_variables dataset))))))"

text \<open>The image files and the colormap files a run writes, in order.\<close>

fun saved_figures :: "event list \<Rightarrow> string list" where
  "saved_figures [] = []"
| "saved_figures (SaveFig f # evs) = f # saved_figures evs"
| "saved_figures (e # evs) = saved_figures evs"

fun written_colorfiles :: "event list \<Rightarrow> (string \<times> color_data) list" where
  "written_colorfiles [] = []"
| "written_colorfiles (WriteColorfile f cd # evs) = (f, cd) # written_colorfiles evs"
| "written_colorfiles (e # evs) = written_colorfiles evs"


text \<open>The events that follow the writing of the colormap file.\<close>

fun after_colorfile :: "event list \<Rightarrow> event list" where
  "after_colorfile [] = []"
| "after_colorfile (WriteColorfile f cd # evs) = evs"
| "after_colorfile (e # evs) = after_colorfile evs"

text \<open>Output on the terminal, as opposed to files and plotting calls.\<close>

fun is_output :: "event \<Rightarrow> bool" where
  "is_output (Print s) = True"
| "is_output (Warn s) = True"
| "is_output e = False"

fun is_file :: "event \<Rightarrow> bool" where
  "is_file (WriteColorfile f cd) = True"
| "is_file (SaveFig f) = True"
| "is_file e = False"

text \<open>
  The variables that the first loop infers afresh (not a dimension, not in the loaded
  mapping), and the variables that the second loop infers (not a dimension).
\<close>

definition missing_vars ::
  "string list \<Rightarrow> color_data \<Rightarrow> (string \<times> variable) list \<Rightarrow> (string \<times> variable) list" where
  "missing_vars dim_names color_data vars =
     filter (\<lambda>(v, var). v \<notin> set dim_names \<and> v \<notin> fst ` set color_data) vars"

definition nondim_vars ::
  "string list \<Rightarrow> (string \<times> variable) list \<Rightarrow> (string \<times> variable) list" where
  "nondim_vars dim_names vars = filter (\<lambda>(v, var). v \<notin> set dim_names) vars"

text \<open>
  The mapping a run starts from (the loaded one, or the empty one), and the inference
  arguments of its branch.
\<close>

definition loaded_colors :: "env \<Rightarrow> args \<Rightarrow> color_data" where
  "loaded_colors env args =
     (case colorfile args of
        None \<Rightarrow> []
      | Some cf \<Rightarrow> (case load_colorfile env cf of Inl e \<Rightarrow> [] | Inr color_data \<Rightarrow> color_data))"

definition branch_cmap_args :: "args \<Rightarrow> cmap_args" where
  "branch_cmap_args args =
     (case colorfile args of None \<Rightarrow> batch_cmap_args | Some cf \<Rightarrow> default_cmap_args)"

text \<open>
  The inference returns for each variable of a list, called with the given arguments on the
  full data of the variable.
\<close>

definition infer_ok :: "plot_env \<Rightarrow> cmap_args \<Rightarrow> (string \<times> variable) list \<Rightarrow> bool" where
  "infer_ok penv a vars =
     list_all (\<lambda>(v, var). case determine_cmap_params penv a (var_array var) of
                              Inl e \<Rightarrow> False
                            | Inr kw \<Rightarrow> True) vars"

text \<open>
  The variables the variable loop does not skip, and the image a sample run leaves for one
  of them: the one of its first time slice, when it has a time slice.
\<close>

definition plotted_vars :: "dataset \<Rightarrow> (string \<times> variable) list" where
  "plotted_vars ds =
     filter (\<lambda>(v, var). v \<notin> set (ds_dims ds) \<and> v \<notin> set (ds_coords ds)) (ds_variables ds)"

definition first_image :: "string \<times> variable \<Rightarrow> string list" where
  "first_image entry =
     (case entry of (v, var) \<Rightarrow>
        (case var_groups var of
           Inl e \<Rightarrow> []
         | Inr groups \<Rightarrow> (case groups of [] \<Rightarrow> [] | (time, plot_data) # rest \<Rightarrow> [out_fn v time])))"

subsection \<open>The image names of the specification\<close>

text \<open>
  The name \<^verbatim>\<open><variable>_<MMDDYYYY_HHMMZ>.png\<close> written out digit by digit, independently of
  the formatting functions of the script: the variable, an underscore, the month and the
  day with two digits each, the year with four digits, an underscore, the hour and the
  minute with two digits each, the letter Z and the extension. The time stamps of a file
  are calendar dates with a four-digit year and a time of day.
\<close>

definition two_digits :: "nat \<Rightarrow> string" where
  "two_digits n = [digit_char (n div 10), digit_char (n mod 10)]"

definition four_digits :: "nat \<Rightarrow> string" where
  "four_digits n =
     [digit_char (n div 1000), digit_char (n div 100 mod 10), digit_char (n div 10 mod 10),
      digit_char (n mod 10)]"

definition image_name :: "string \<Rightarrow> timestamp \<Rightarrow> string" where
  "image_name v ts =
     v @ ''_'' @ two_digits (ts_month ts) @ two_digits (ts_day ts) @ four_digits (ts_year ts) @
     ''_'' @ two_digits (ts_hour ts) @ two_digits (ts_minute ts) @ ''Z.png''"

definition valid_timestamp :: "timestamp \<Rightarrow> bool" where
  "valid_timestamp ts \<longleftrightarrow>
     1000 \<le> ts_year ts \<and> ts_year ts \<le> 9999 \<and> 1 \<le> ts_month ts \<and> ts_month ts \<le> 12 \<and>
     1 \<le> ts_day ts \<and> ts_day ts \<le> 31 \<and> ts_hour ts < 24 \<and> ts_minute ts < 60"

text \<open>
  The first time stamp of a variable, when its time slices can be formed and there is one;
  and the images the specification expects of a sample run for one variable: the one named
  after that first time stamp.
\<close>

definition first_timestamp :: "variable \<Rightarrow> timestamp option" where
  "first_timestamp var =
     (case var_groups var of
        Inl e \<Rightarrow> None
      | Inr groups \<Rightarrow> (case groups of [] \<Rightarrow> None | (time, plot_data) # rest \<Rightarrow> Some time))"

definition sample_image :: "string \<times> variable \<Rightarrow> string list" where
  "sample_image entry =
     (case entry of (v, var) \<Rightarrow>
        (case first_timestamp var of None \<Rightarrow> [] | Some time \<Rightarrow> [image_name v time]))"
section \<open>Notions used in the proofs\<close>

text \<open>
  Renaming by an arbitrary function on names, of which \<open>rename_dataarray\<close> is an instance;
  the variable names of a dataset, the names an array uses, the time slices of a dataset;
  and one of the two guarded renamings of \<open>coerce_dims\<close> with its effect written out.
\<close>

definition rekey :: "('a \<Rightarrow> 'a) \<Rightarrow> ('a \<times> 'b) list \<Rightarrow> ('a \<times> 'b) list" where
  "rekey f al = map (\<lambda>(n, c). (f n, c)) al"

definition rename_da :: "(string \<Rightarrow> string) \<Rightarrow> dataarray \<Rightarrow> dataarray" where
  "rename_da f da = da\<lparr>dims := map f (dims da), coords := rekey f (coords da)\<rparr>"

definition ds_names :: "dataset \<Rightarrow> string set" where
  "ds_names ds = fst ` set (ds_variables ds)"

definition da_names :: "dataarray \<Rightarrow> string set" where
  "da_names da = set (dims da) \<union> fst ` set (coords da)"

definition slices :: "dataset \<Rightarrow> dataarray set" where
  "slices ds = {da. \<exists>v var gs t. (v, var) \<in> set (ds_variables ds) \<and> var_groups var = Inr gs \<and>
                     (t, da) \<in> set gs}"

definition renamed :: "string \<Rightarrow> string \<Rightarrow> dataset \<Rightarrow> dataset" where
  "renamed old new ds =
     ds\<lparr>ds_variables :=
          map (\<lambda>(n, var). (rename_name old new n, rename_variable old new var)) (ds_variables ds),
        ds_coords := map (rename_name old new) (ds_coords ds)\<rparr>"

definition rename_step :: "dataset \<Rightarrow> string \<Rightarrow> string \<Rightarrow> py_error + dataset" where
  "rename_step ds old new = (if in_dataset old ds then rename ds old new else Inr ds)"

text \<open>The settings inferred for a variable, where the inference returns.\<close>

definition inferred :: "plot_env \<Rightarrow> cmap_args \<Rightarrow> variable \<Rightarrow> kwargs" where
  "inferred penv a var =
     (case determine_cmap_params penv a (var_array var) of Inl e \<Rightarrow> [] | Inr kw \<Rightarrow> kw)"
section \<open>Example inputs\<close>

text \<open>A slice with one latitude row, given by its longitude coordinate and that row.\<close>

definition lat_lon_slice :: "real list \<Rightarrow> fval list \<Rightarrow> dataarray" where
  "lat_lon_slice lons row =
     \<lparr>dims = [''lat'', ''lon''],
      da_values = \<lparr>shape = [1, length row], elems = Node [Node (map Leaf row)]\<rparr>,
      coords = [(''lat'', \<lparr>cvalues = [45], cattrs = [(''units'', ''degrees_north'')]\<rparr>),
                (''lon'', \<lparr>cvalues = lons, cattrs = [(''units'', ''degrees_east'')]\<rparr>)],
      attrs = [(''units'', ''K'')]\<rparr>"


text \<open>
  A small file: the coordinate variables of three dimensions and two fields over them, each
  with two time steps on a two-point longitude grid. The names of the horizontal dimensions
  are parameters.
\<close>

definition demo_time :: "nat \<Rightarrow> timestamp" where
  "demo_time h = \<lparr>ts_year = 2016, ts_month = 11, ts_day = 28, ts_hour = h, ts_minute = 0\<rparr>"

definition demo_slice :: "string \<Rightarrow> string \<Rightarrow> fval list \<Rightarrow> dataarray" where
  "demo_slice lat_name lon_name row =
     rename_dataarray ''lon'' lon_name
       (rename_dataarray ''lat'' lat_name (lat_lon_slice [0, 180] row))"

definition coord_variable :: "string \<Rightarrow> variable" where
  "coord_variable d =
     \<lparr>var_dims = [d], var_attrs = [], var_getattr = (\<lambda>name. None),
      var_array = \<lparr>shape = [1], elems = Node [Leaf (Fin 0)]\<rparr>,
      var_groups = Inl KeyError\<rparr>"

definition field_variable :: "string \<Rightarrow> string \<Rightarrow> fval list \<Rightarrow> variable" where
  "field_variable lat_name lon_name row =
     \<lparr>var_dims = [''time'', lat_name, lon_name],
      var_attrs = [(''units'', ''K'')],
      var_getattr = map_of [(''units'', ''K'')],
      var_array = \<lparr>shape = [2, 1, 2], elems = Node [Node [Node (map Leaf row)],
                                                      Node [Node (map Leaf row)]]\<rparr>,
      var_groups = Inr [(demo_time 6, demo_slice lat_name lon_name row),
                        (demo_time 12, demo_slice lat_name lon_name row)]\<rparr>"

definition demo_dataset :: "string \<Rightarrow> string \<Rightarrow> dataset" where
  "demo_dataset lat_name lon_name =
     \<lparr>ds_attrs = [(''title'', ''demo'')],
      ds_variables =
        [(''time'', coord_variable ''time''),
         (lat_name, coord_variable lat_name),
         (lon_name, coord_variable lon_name),
         (''temperature'', field_variable lat_name lon_name [Fin 1, Fin 2]),
         (''pressure'', field_variable lat_name lon_name [Fin 3, Fin 3])],
      ds_coords = [''time'', lat_name, lon_name]\<rparr>"

text \<open>
  An inference that records the arguments it was called with and, like the library's,
  raises a ValueError on data without a finite value; and the world around the run: the
  file \<^verbatim>\<open>demo.nc\<close> holds the dataset, the colormap file \<^verbatim>\<open>old.cf\<close> exists when a content
  is given for it, and every file can be written.
\<close>

fun has_finite :: "fval nested \<Rightarrow> bool" where
  "has_finite (Leaf (Fin x)) = True"
| "has_finite (Leaf NaN) = False"
| "has_finite (Node xs) = list_ex has_finite xs"

definition demo_plot_env :: plot_env where
  "demo_plot_env =
     \<lparr>ccrs_namespace = (\<lambda>name. None),
      determine_cmap_params =
        (\<lambda>a d. if has_finite (elems d)
               then Inr [(''vmin'', PNum 0), (''vmax'', PNum 1),
                         (''levels'', case cm_levels a of None \<Rightarrow> PNone | Some n \<Rightarrow> PNum (real n)),
                         (''extend'', case cm_extend a of
                                        None \<Rightarrow> PStr ''neither'' | Some e \<Rightarrow> PStr e)]
               else Inl ValueError)\<rparr>"

definition demo_env :: "dataset \<Rightarrow> color_data option \<Rightarrow> env" where
  "demo_env ds cache =
     \<lparr>open_dataset = (\<lambda>f. if f = ''demo.nc'' then Inr ds else Inl RuntimeError),
      load_colorfile =
        (\<lambda>f. case cache of
               None \<Rightarrow> Inl OSError
             | Some color_data \<Rightarrow> if f = ''old.cf'' then Inr color_data else Inl OSError),
      can_write = (\<lambda>f. True),
      repr_dataset = (\<lambda>ds. ''<xray.Dataset>''),
      py_str = (\<lambda>v. ''...''),
      plotting = demo_plot_env\<rparr>"

definition demo_args :: "string option \<Rightarrow> bool \<Rightarrow> args" where
  "demo_args cf smpl = \<lparr>nc_file = ''demo.nc'', variables = None, colorfile = cf, sample = smpl\<rparr>"


definition empty_time_variable :: variable where
  "empty_time_variable =
     \<lparr>var_dims = [''time'', ''lat'', ''lon''],
      var_attrs = [(''units'', ''K'')],
      var_getattr = map_of [(''units'', ''K'')],
      var_array = \<lparr>shape = [0, 1, 2], elems = Node []\<rparr>,
      var_groups = Inr []\<rparr>"

definition empty_time_dataset :: dataset where
  "empty_time_dataset =
     \<lparr>ds_attrs = [(''title'', ''demo'')],
      ds_variables =
        [(''time'', (coord_variable ''time'')\<lparr>var_array := \<lparr>shape = [0], elems = Node []\<rparr>\<rparr>),
         (''lat'', coord_variable ''lat''),
         (''lon'', coord_variable ''lon''),
         (''temperature'', empty_time_variable),
         (''pressure'', empty_time_variable)],
      ds_coords = [''time'', ''lat'', ''lon'']\<rparr>"
section \<open>Facts about arrays and dictionaries\<close>

lemma map2_same: "map2 f xs (map g xs) = map (\<lambda>x. f x (g x)) xs"
  by (induction xs) auto

lemma map2_diag: "map2 f xs xs = map (\<lambda>x. f x x) xs"
  by (induction xs) auto

lemma take_axis_concat_lt:
  "has_shape s e \<Longrightarrow> k < length s \<Longrightarrow> i < s ! k \<Longrightarrow>
   take_axis k i (concat_axis k e (slice_first k e)) = take_axis k i e"
proof (induction k arbitrary: s e)
  case 0
  then show ?case by (cases e; cases s) (auto simp: nth_append)
next
  case (Suc k)
  then show ?case
    by (cases e; cases s) (auto simp: map2_same list_all_iff)
qed

lemma take_axis_concat_last:
  "has_shape s e \<Longrightarrow> k < length s \<Longrightarrow> 0 < s ! k \<Longrightarrow>
   take_axis k (s ! k) (concat_axis k e (slice_first k e)) = take_axis k 0 e"
proof (induction k arbitrary: s e)
  case 0
  then show ?case by (cases e; cases s) (auto simp: nth_append take_Suc_conv_app_nth hd_conv_nth split: list.splits)
next
  case (Suc k)
  then show ?case
    by (cases e; cases s) (auto simp: map2_same list_all_iff)
qed

lemma has_shape_concat:
  "has_shape s e \<Longrightarrow> k < length s \<Longrightarrow> 0 < s ! k \<Longrightarrow>
   has_shape (s[k := Suc (s ! k)]) (concat_axis k e (slice_first k e))"
proof (induction k arbitrary: s e)
  case 0
  then show ?case by (cases e; cases s) (auto simp: list_all_iff dest: in_set_takeD)
next
  case (Suc k)
  then show ?case
    by (cases e; cases s) (auto simp: map2_same list_all_iff)
qed

lemma np_all_nested_eq_refl: "np_all (nested_eq x x) = no_nan x"
proof (induction x)
  case (Leaf v)
  then show ?case by (cases v) auto
next
  case (Node xs)
  then show ?case by (auto simp: map2_diag list_all_iff)
qed


lemma update_fresh: "k \<notin> fst ` set al \<Longrightarrow> AList.update k v al = al @ [(k, v)]"
  by (induction al) auto

lemma fold_update_fresh:
  "distinct (map fst src) \<Longrightarrow> fst ` set acc \<inter> fst ` set src = {} \<Longrightarrow>
   fold (\<lambda>(att, val). AList.update att val) src acc = acc @ src"
proof (induction src arbitrary: acc)
  case Nil
  then show ?case by simp
next
  case (Cons p src)
  obtain k v where p: "p = (k, v)" by (cases p)
  from Cons.prems have fresh: "k \<notin> fst ` set acc" by (auto simp: p)
  have "fst ` set (acc @ [(k, v)]) \<inter> fst ` set src = {}"
    using Cons.prems by (auto simp: p)
  moreover have "distinct (map fst src)" using Cons.prems by simp
  ultimately have "fold (\<lambda>(att, val). AList.update att val) src (acc @ [(k, v)]) = (acc @ [(k, v)]) @ src"
    by (rule Cons.IH[rotated])
  then show ?case by (simp add: p update_fresh[OF fresh])
qed

lemma copy_attrs_empty: "distinct (map fst src) \<Longrightarrow> copy_attrs src [] = src"
  using fold_update_fresh[of src "[]"] by (simp add: copy_attrs_def)

lemma fold_update_present:
  "\<forall>(k, v) \<in> set src. map_of dst k = Some v \<Longrightarrow>
   fold (\<lambda>(att, val). AList.update att val) src dst = dst"
  by (induction src) (auto simp: AList.update_triv)

lemma copy_attrs_same: "distinct (map fst src) \<Longrightarrow> copy_attrs src src = src"
  unfolding copy_attrs_def by (rule fold_update_present) auto

lemma map_fst_map_entry: "map fst (AList.map_entry k f al) = map fst al"
  by (induction al) auto

lemma map_entry_as_map:
  "distinct (map fst al) \<Longrightarrow>
   AList.map_entry k f al = map (\<lambda>(k', v). if k' = k then (k', f v) else (k', v)) al"
proof (induction al)
  case Nil
  then show ?case by simp
next
  case (Cons p al)
  obtain k' v' where p: "p = (k', v')" by (cases p)
  have "k' = k \<Longrightarrow> map (\<lambda>(k', v). if k' = k then (k', f v) else (k', v)) al = al"
    using Cons.prems by (intro map_idI) (force simp: p)
  with Cons show ?case by (auto simp: p)
qed

lemma update_as_map:
  "distinct (map fst al) \<Longrightarrow> k \<in> fst ` set al \<Longrightarrow>
   AList.update k v al = map (\<lambda>(k', v'). if k' = k then (k', v) else (k', v')) al"
proof (induction al)
  case Nil
  then show ?case by simp
next
  case (Cons p al)
  obtain k' v' where p: "p = (k', v')" by (cases p)
  have "k' = k \<Longrightarrow> map (\<lambda>(k', v'). if k' = k then (k', v) else (k', v')) al = al"
    using Cons.prems by (intro map_idI) (force simp: p)
  with Cons show ?case by (auto simp: p)
qed

lemma fold_map_entry:
  "distinct (map fst old) \<Longrightarrow> distinct (map fst acc) \<Longrightarrow>
   fold (\<lambda>(c, oc). AList.map_entry c (g oc)) old acc =
   map (\<lambda>(k, v). (k, case map_of old k of None \<Rightarrow> v | Some oc \<Rightarrow> g oc v)) acc"
proof (induction old arbitrary: acc)
  case Nil
  then show ?case by simp
next
  case (Cons p old)
  obtain c oc where p: "p = (c, oc)" by (cases p)
  have c: "map_of old c = None" using Cons.prems(1) by (simp add: p map_of_eq_None_iff)
  have d: "distinct (map fst (AList.map_entry c (g oc) acc))"
    using Cons.prems(2) by (simp add: map_fst_map_entry)
  have "fold (\<lambda>(c, oc). AList.map_entry c (g oc)) (p # old) acc =
        fold (\<lambda>(c, oc). AList.map_entry c (g oc)) old (AList.map_entry c (g oc) acc)"
    by (simp add: p)
  also have "\<dots> = map (\<lambda>(k, v). (k, case map_of old k of None \<Rightarrow> v | Some oc \<Rightarrow> g oc v))
                     (AList.map_entry c (g oc) acc)"
    using Cons.prems(1) d by (intro Cons.IH) simp_all
  also have "\<dots> = map (\<lambda>(k, v). (k, case map_of (p # old) k of None \<Rightarrow> v | Some oc \<Rightarrow> g oc v)) acc"
    using Cons.prems(2) c by (auto simp: map_entry_as_map p)
  finally show ?case .
qed

lemma copy_coord_attrs_update:
  assumes d: "distinct (map fst old)"
    and a: "list_all (\<lambda>c. distinct (map fst (cattrs (snd c)))) old"
    and c: "map_of old coord = Some c"
  shows "copy_coord_attrs old (AList.update coord \<lparr>cvalues = cc, cattrs = []\<rparr> old) =
         AList.update coord \<lparr>cvalues = cc, cattrs = cattrs c\<rparr> old"
proof -
  have mem: "coord \<in> fst ` set old" using c by (metis domI dom_map_of_conv_image_fst)
  have dc: "distinct (map fst (cattrs c))"
    using a c by (auto simp: list_all_iff dest!: map_of_SomeD)
  have d': "distinct (map fst (AList.update coord \<lparr>cvalues = cc, cattrs = []\<rparr> old))"
    using d by (simp add: AList.distinct_update)
  have "copy_coord_attrs old (AList.update coord \<lparr>cvalues = cc, cattrs = []\<rparr> old) =
        map (\<lambda>(k, v). (k, case map_of old k of None \<Rightarrow> v
                           | Some oc \<Rightarrow> v\<lparr>cattrs := copy_attrs (cattrs oc) (cattrs v)\<rparr>))
          (AList.update coord \<lparr>cvalues = cc, cattrs = []\<rparr> old)"
    unfolding copy_coord_attrs_def using d d' by (rule fold_map_entry)
  also have "\<dots> = map (\<lambda>(k', v'). if k' = coord then (k', \<lparr>cvalues = cc, cattrs = cattrs c\<rparr>) else (k', v')) old"
    unfolding update_as_map[OF d mem] map_map
  proof (rule map_cong[OF refl])
    fix x assume x: "x \<in> set old"
    obtain k v where kv: "x = (k, v)" by (cases x)
    have mk: "map_of old k = Some v" using x d by (simp add: kv)
    have dv: "distinct (map fst (cattrs v))" using a x by (auto simp: list_all_iff kv)
    show "((\<lambda>(k, v). (k, case map_of old k of None \<Rightarrow> v
                           | Some oc \<Rightarrow> v\<lparr>cattrs := copy_attrs (cattrs oc) (cattrs v)\<rparr>)) \<circ>
           (\<lambda>(k', v'). if k' = coord then (k', \<lparr>cvalues = cc, cattrs = []\<rparr>) else (k', v'))) x =
          (case x of (k', v') \<Rightarrow> if k' = coord then (k', \<lparr>cvalues = cc, cattrs = cattrs c\<rparr>) else (k', v'))"
      using mk c dc dv by (auto simp: kv copy_attrs_empty copy_attrs_same)
  qed
  also have "\<dots> = AList.update coord \<lparr>cvalues = cc, cattrs = cattrs c\<rparr> old"
    by (rule update_as_map[OF d mem, symmetric])
  finally show ?thesis .
qed


lemma index_of_SomeD: "index_of x xs = Some k \<Longrightarrow> k < length xs \<and> xs ! k = x"
  by (induction xs arbitrary: k) (auto split: if_splits)

lemma has_shape_take_axis:
  "has_shape s e \<Longrightarrow> k < length s \<Longrightarrow> j < s ! k \<Longrightarrow>
   has_shape (take k s @ drop (Suc k) s) (take_axis k j e)"
proof (induction k arbitrary: s e)
  case 0
  then show ?case by (cases e; cases s) (auto simp: list_all_length)
next
  case (Suc k)
  then show ?case by (cases e; cases s) (auto simp: list_all_iff)
qed

lemma list_all_map2_eq:
  assumes "length xs = length ys"
    and "\<And>a b. a \<in> set xs \<Longrightarrow> b \<in> set ys \<Longrightarrow> P (f a b) \<longleftrightarrow> a = b \<and> Q a"
  shows "list_all P (map2 f xs ys) \<longleftrightarrow> xs = ys \<and> list_all Q xs"
  using assms by (induction xs ys rule: list_induct2) auto

lemma np_all_nested_eq:
  "has_shape s x \<Longrightarrow> has_shape s y \<Longrightarrow> np_all (nested_eq x y) \<longleftrightarrow> x = y \<and> no_nan x"
proof (induction s arbitrary: x y)
  case Nil
  then show ?case
  proof (cases x; cases y)
    fix a b assume "x = Leaf a" "y = Leaf b"
    then show ?thesis by (cases a; cases b) auto
  qed auto
next
  case (Cons n s)
  from Cons.prems obtain xs ys where x: "x = Node xs" and y: "y = Node ys"
    by (cases x; cases y) auto
  from Cons.prems have len: "length xs = length ys"
    and sx: "\<And>a. a \<in> set xs \<Longrightarrow> has_shape s a" and sy: "\<And>b. b \<in> set ys \<Longrightarrow> has_shape s b"
    by (auto simp: x y list_all_iff)
  have "list_all np_all (map2 nested_eq xs ys) \<longleftrightarrow> xs = ys \<and> list_all no_nan xs"
    using len by (rule list_all_map2_eq) (rule Cons.IH[OF sx sy])
  then show ?case by (simp add: x y)
qed

lemma py_index_nat: "j < n \<Longrightarrow> py_index n (int j) = Inr j"
  by (simp add: py_index_def)

lemma py_index_last: "0 < n \<Longrightarrow> py_index n (- 1) = Inr (n - 1)"
  by (auto simp: py_index_def Let_def)

lemma py_index_empty: "py_index 0 i = Inl IndexError"
  by (auto simp: py_index_def Let_def)

lemma check_cyclic_empty:
  assumes "wf_dataarray da" and "index_of coord (dims da) = Some k"
    and "shape (da_values da) ! k = 0"
  shows "check_cyclic da coord = Inl IndexError"
  using assms index_of_SomeD[OF assms(2)]
  by (simp add: check_cyclic_def isel_def np_take_def wf_dataarray_def py_index_empty)

lemma check_cyclic_eq:
  assumes wf: "wf_dataarray da" and idx: "index_of coord (dims da) = Some k"
    and n: "0 < shape (da_values da) ! k"
  shows "check_cyclic da coord =
         Inr (take_axis k 0 (elems (da_values da)) =
                take_axis k (shape (da_values da) ! k - 1) (elems (da_values da)) \<and>
              no_nan (take_axis k 0 (elems (da_values da))))"
proof -
  let ?s = "shape (da_values da)" and ?e = "elems (da_values da)"
  have k: "k < length ?s" and hs: "has_shape ?s ?e"
    using wf index_of_SomeD[OF idx] by (simp_all add: wf_dataarray_def)
  have h0: "has_shape (take k ?s @ drop (Suc k) ?s) (take_axis k 0 ?e)"
    using hs k n by (rule has_shape_take_axis)
  have h1: "has_shape (take k ?s @ drop (Suc k) ?s) (take_axis k (?s ! k - 1) ?e)"
    using hs k n by (intro has_shape_take_axis) simp_all
  have "py_index (?s ! k) 0 = Inr 0" using py_index_nat[of 0 "?s ! k"] n by simp
  then show ?thesis
    using k n idx np_all_nested_eq[OF h0 h1]
    by (simp add: check_cyclic_def isel_def np_take_def py_index_last)
qed


lemma np_diff_two:
  "2 \<le> length xs \<Longrightarrow> \<exists>ds. np_diff xs = (xs ! 1 - xs ! 0) # ds"
  by (cases xs; cases "tl xs") (auto simp: np_diff_def)

lemma np_diff_ConsD: "np_diff xs = d0 # ds \<Longrightarrow> 2 \<le> length xs \<and> d0 = xs ! 1 - xs ! 0"
  by (cases xs; cases "tl xs") (auto simp: np_diff_def)

lemma cyclic_dataarray_iff:
  assumes wf: "wf_dataarray da"
  shows "cyclic_dataarray da coord = Inr da' \<longleftrightarrow>
         (\<exists>k c. index_of coord (dims da) = Some k \<and> map_of (coords da) coord = Some c \<and>
                length (cvalues c) = shape (da_values da) ! k \<and> 2 \<le> length (cvalues c) \<and>
                np_allclose (np_diff (cvalues c)) (cvalues c ! 1 - cvalues c ! 0) \<and>
                da' = cyclic_result da coord k c)"
proof (cases "index_of coord (dims da)")
  case None
  then show ?thesis by (simp add: cyclic_dataarray_def)
next
  case (Some k)
  note idx = this
  have k: "k < length (shape (da_values da))"
    using wf index_of_SomeD[OF idx] by (simp add: wf_dataarray_def)
  show ?thesis
  proof (cases "map_of (coords da) coord")
    case None
    then show ?thesis by (simp add: cyclic_dataarray_def idx)
  next
    case (Some c)
    have dk: "distinct (map fst (coords da))"
      and da: "list_all (\<lambda>c. distinct (map fst (cattrs (snd c)))) (coords da)"
      and dat: "distinct (map fst (attrs da))"
      using wf by (simp_all add: wf_dataarray_def)
    show ?thesis
    proof (cases "np_diff (cvalues c)")
      case Nil
      then have "\<not> 2 \<le> length (cvalues c)" using np_diff_two[of "cvalues c"] by auto
      then show ?thesis using Nil k
        by (auto simp: cyclic_dataarray_def idx Some add_cyclic_point_def)
    next
      case (Cons d0 ds)
      from np_diff_ConsD[OF this] have two: "2 \<le> length (cvalues c)"
        and d0: "d0 = cvalues c ! 1 - cvalues c ! 0" by simp_all
      show ?thesis
        using k two Cons d0
        by (auto simp: cyclic_dataarray_def idx Some add_cyclic_point_def Let_def
            copy_attrs_empty[OF dat] copy_coord_attrs_update[OF dk da Some]
            cyclic_result_def np_concatenate_def np_slice_first_def)
    qed
  qed
qed

lemma set_update_subset: "set (AList.update k v al) \<subseteq> insert (k, v) (set al)"
  by (induction al) auto

lemma wf_cyclic_result:
  assumes wf: "wf_dataarray da" and idx: "index_of coord (dims da) = Some k"
    and c: "map_of (coords da) coord = Some c" and n: "0 < shape (da_values da) ! k"
  shows "wf_dataarray (cyclic_result da coord k c)"
proof -
  have k: "k < length (shape (da_values da))"
    using wf index_of_SomeD[OF idx] by (simp add: wf_dataarray_def)
  have dc: "distinct (map fst (cattrs c))"
    using wf c by (auto simp: wf_dataarray_def list_all_iff dest!: map_of_SomeD)
  have "list_all (\<lambda>c. distinct (map fst (cattrs (snd c))))
          (AList.update coord \<lparr>cvalues = cvalues c @ [last (cvalues c) + (cvalues c ! 1 - cvalues c ! 0)],
                  cattrs = cattrs c\<rparr> (coords da))"
  proof -
    have "distinct (map fst (cattrs (snd p)))"
      if "p \<in> set (AList.update coord v (coords da))" and "cattrs v = cattrs c" for p v
    proof -
      from that(1) set_update_subset[of coord v "coords da"]
      have "p = (coord, v) \<or> p \<in> set (coords da)" by auto
      then show ?thesis using wf dc that(2) by (auto simp: wf_dataarray_def list_all_iff)
    qed
    then show ?thesis unfolding list_all_iff by simp
  qed
  then show ?thesis
    using wf k n has_shape_concat[of "shape (da_values da)" "elems (da_values da)" k]
    by (simp add: wf_dataarray_def cyclic_result_def AList.distinct_update)
qed

lemmas eval_defs = lat_lon_slice_def wf_dataarray_def cyclic_corrector_def check_cyclic_def
  isel_def np_take_def py_index_def cyclic_dataarray_def add_cyclic_point_def np_diff_def
  np_allclose_def np_concatenate_def np_slice_first_def copy_attrs_def copy_coord_attrs_def
  Let_def

section \<open>Facts about runs, events and renaming\<close>

lemma bind_run_Inl [simp]: "bind_run (Inl e, evs) f = (Inl e, evs)"
  by (simp add: bind_run_def)

lemma bind_run_Inr [simp]: "bind_run (Inr x, evs) f = (fst (f x), evs @ snd (f x))"
  by (simp add: bind_run_def split: prod.splits)

lemma bind_run_done [simp]: "bind_run (done_run x) f = f x"
  by (simp add: done_run_def)

lemma bind_run_raise [simp]: "bind_run (raise_run e) f = raise_run e"
  by (simp add: raise_run_def)

lemma bind_run_emit [simp]: "bind_run (emit evs) f = (fst (f ()), evs @ snd (f ()))"
  by (simp add: emit_def)

lemma bind_run_exit [simp]: "bind_run (exit_run n) f = exit_run n"
  by (simp add: exit_run_def)

lemma lift_run_simps [simp]: "lift_run (Inl e) = raise_run e" "lift_run (Inr x) = done_run x"
  by (simp_all add: lift_run_def)

lemma fst_raise_run [simp]: "fst (raise_run e) = Inl (Raised e)"
  and snd_raise_run [simp]: "snd (raise_run e) = []"
  by (simp_all add: raise_run_def)

lemma fst_exit_run [simp]: "fst (exit_run n) = Inl (Exit n)"
  and snd_exit_run [simp]: "snd (exit_run n) = []"
  by (simp_all add: exit_run_def)

lemma fst_done_run [simp]: "fst (done_run x) = Inr x" and snd_done_run [simp]: "snd (done_run x) = []"
  by (simp_all add: done_run_def)

lemma fst_emit [simp]: "fst (emit evs) = Inr ()" and snd_emit [simp]: "snd (emit evs) = evs"
  by (simp_all add: emit_def)

lemma fst_bind_run_Inr:
  "fst (bind_run m f) = Inr y \<longleftrightarrow> (\<exists>x. fst m = Inr x \<and> fst (f x) = Inr y)"
  by (cases m; cases "fst m") auto

lemma snd_bind_run_Inr:
  "fst m = Inr x \<Longrightarrow> snd (bind_run m f) = snd m @ snd (f x)"
  by (cases m) auto

lemma snd_bind_run_Inl:
  "fst m = Inl e \<Longrightarrow> snd (bind_run m f) = snd m"
  by (cases m) auto

lemma fst_bind_run_Inl:
  "fst m = Inl e \<Longrightarrow> fst (bind_run m f) = Inl e"
  by (cases m) auto

lemma geo_plot_unknown:
  assumes "m \<notin> {''pcolormesh'', ''pcolor'', ''contourf''}"
  shows "geo_plot penv darray ax (PStr m) projection grid kwargs = raise_run ValueError"
  using assms by (simp add: geo_plot_def PLOTTYPE_ARGS_def raise_run_def)

lemma saved_figures_append [simp]: "saved_figures (xs @ ys) = saved_figures xs @ saved_figures ys"
  by (induction xs rule: saved_figures.induct) auto

lemma infer_ok_Nil [simp]: "infer_ok penv a []"
  by (simp add: infer_ok_def)

lemma infer_ok_Cons:
  "infer_ok penv a ((v, var) # vars) \<longleftrightarrow>
     (\<exists>kw. determine_cmap_params penv a (var_array var) = Inr kw) \<and> infer_ok penv a vars"
  by (cases "determine_cmap_params penv a (var_array var)") (simp_all add: infer_ok_def)

lemma infer_ok_mem:
  "infer_ok penv a vars \<Longrightarrow> (v, var) \<in> set vars \<Longrightarrow>
   determine_cmap_params penv a (var_array var) = Inr (inferred penv a var)"
  by (cases "determine_cmap_params penv a (var_array var)")
     (auto simp: infer_ok_def inferred_def list_all_iff)

lemma inferred_Inr:
  "determine_cmap_params penv a (var_array var) = Inr kw \<Longrightarrow> inferred penv a var = kw"
  by (simp add: inferred_def)

lemma infer_missing_cases:
  "distinct (map fst vars) \<Longrightarrow>
   (if infer_ok (plotting env) default_cmap_args (missing_vars dn cd vars)
    then infer_missing env dn vars cd =
      (Inr (fold (\<lambda>(v, var). AList.update v (inferred (plotting env) default_cmap_args var))
              (missing_vars dn cd vars) cd),
       map (\<lambda>(v, var). Warn (missing_color_warning v)) (missing_vars dn cd vars))
    else (\<exists>e evs. infer_missing env dn vars cd = (Inl (Raised e), evs)))"
proof (induction vars arbitrary: cd)
  case Nil
  then show ?case by (simp add: missing_vars_def done_run_def)
next
  case (Cons p vars)
  obtain v var where p: "p = (v, var)" by (cases p)
  from Cons.prems have d: "distinct (map fst vars)" and nv: "v \<notin> fst ` set vars"
    by (simp_all add: p)
  note IH = Cons.IH[OF d]
  consider (dim) "v \<in> set dn" | (cached) "v \<notin> set dn" "v \<in> fst ` set cd"
    | (miss) "v \<notin> set dn" "v \<notin> fst ` set cd" by blast
  then show ?case
  proof cases
    case dim
    then have "missing_vars dn cd (p # vars) = missing_vars dn cd vars"
      by (simp add: missing_vars_def p)
    with dim IH[of cd] show ?thesis by (simp add: p)
  next
    case cached
    then have "missing_vars dn cd (p # vars) = missing_vars dn cd vars"
      by (simp add: missing_vars_def p)
    with cached IH[of cd] show ?thesis by (simp add: p)
  next
    case miss
    have same: "missing_vars dn (AList.update v x cd) vars = missing_vars dn cd vars" for x
      unfolding missing_vars_def using nv
      by (intro filter_cong refl) (force simp: AList.dom_update)
    from miss have mv: "missing_vars dn cd (p # vars) = (v, var) # missing_vars dn cd vars"
      by (simp add: missing_vars_def p)
    show ?thesis
    proof (cases "determine_cmap_params (plotting env) default_cmap_args (var_array var)")
      case (Inl e)
      then have "\<not> infer_ok (plotting env) default_cmap_args (missing_vars dn cd (p # vars))"
        by (simp add: mv infer_ok_Cons)
      moreover have "infer_missing env dn (p # vars) cd =
          (Inl (Raised e), [Warn (missing_color_warning v)])"
        using miss Inl by (simp add: p raise_run_def)
      ultimately show ?thesis by simp
    next
      case (Inr kw)
      then have ok: "infer_ok (plotting env) default_cmap_args (missing_vars dn cd (p # vars)) =
          infer_ok (plotting env) default_cmap_args (missing_vars dn cd vars)"
        by (simp add: mv infer_ok_Cons)
      have kw: "inferred (plotting env) default_cmap_args var = kw"
        using Inr by (rule inferred_Inr)
      have step: "infer_missing env dn (p # vars) cd =
          (fst (infer_missing env dn vars (AList.update v kw cd)),
           Warn (missing_color_warning v) # snd (infer_missing env dn vars (AList.update v kw cd)))"
        using miss Inr by (simp add: p)
      show ?thesis
      proof (cases "infer_ok (plotting env) default_cmap_args (missing_vars dn cd vars)")
        case True
        with IH[of "AList.update v kw cd"] show ?thesis
          unfolding ok step by (simp add: same mv kw)
      next
        case False
        with IH[of "AList.update v kw cd"] show ?thesis
          unfolding ok step by (auto simp: same)
      qed
    qed
  qed
qed

lemma infer_missing_result:
  "distinct (map fst vars) \<Longrightarrow>
   infer_ok (plotting env) default_cmap_args (missing_vars dn cd vars) \<Longrightarrow>
   infer_missing env dn vars cd =
     (Inr (fold (\<lambda>(v, var). AList.update v (inferred (plotting env) default_cmap_args var))
             (missing_vars dn cd vars) cd),
      map (\<lambda>(v, var). Warn (missing_color_warning v)) (missing_vars dn cd vars))"
  using infer_missing_cases[of vars env dn cd] by simp

lemma infer_missing_fails:
  "distinct (map fst vars) \<Longrightarrow>
   \<not> infer_ok (plotting env) default_cmap_args (missing_vars dn cd vars) \<Longrightarrow>
   \<exists>e evs. infer_missing env dn vars cd = (Inl (Raised e), evs)"
  using infer_missing_cases[of vars env dn cd] by simp

lemma map_of_fold_update_other:
  "k \<notin> fst ` set xs \<Longrightarrow>
   map_of (fold (\<lambda>(v, var). AList.update v (g var)) xs cd) k = map_of cd k"
  by (induction xs arbitrary: cd) (auto simp: AList.update_conv')

lemma map_of_fold_update_mem:
  "distinct (map fst xs) \<Longrightarrow> (k, var) \<in> set xs \<Longrightarrow>
   map_of (fold (\<lambda>(v, var). AList.update v (g var)) xs cd) k = Some (g var)"
proof (induction xs arbitrary: cd)
  case Nil
  then show ?case by simp
next
  case (Cons p xs)
  obtain v w where p: "p = (v, w)" by (cases p)
  show ?case
  proof (cases "(k, var) \<in> set xs")
    case True
    with Cons show ?thesis by (simp add: p)
  next
    case False
    with Cons.prems have kv: "k = v" "var = w" and "k \<notin> fst ` set xs" by (auto simp: p)
    then show ?thesis by (simp add: p map_of_fold_update_other AList.update_conv')
  qed
qed




lemma infer_all_cases:
  "if infer_ok (plotting env) batch_cmap_args (nondim_vars dn vars)
   then infer_all env dn vars cd =
     (Inr (fold (\<lambda>(v, var). AList.update v (inferred (plotting env) batch_cmap_args var))
             (nondim_vars dn vars) cd),
      map (\<lambda>(v, var). Print (''   '' @ v)) (nondim_vars dn vars))
   else (\<exists>e evs. infer_all env dn vars cd = (Inl (Raised e), evs))"
proof (induction vars arbitrary: cd)
  case Nil
  then show ?case by (simp add: nondim_vars_def done_run_def)
next
  case (Cons p vars)
  obtain v var where p: "p = (v, var)" by (cases p)
  show ?case
  proof (cases "v \<in> set dn")
    case True
    then have "nondim_vars dn (p # vars) = nondim_vars dn vars"
      by (simp add: nondim_vars_def p)
    with True Cons.IH[of cd] show ?thesis by (simp add: p)
  next
    case False
    then have nv: "nondim_vars dn (p # vars) = (v, var) # nondim_vars dn vars"
      by (simp add: nondim_vars_def p)
    show ?thesis
    proof (cases "determine_cmap_params (plotting env) batch_cmap_args (var_array var)")
      case (Inl e)
      then have "\<not> infer_ok (plotting env) batch_cmap_args (nondim_vars dn (p # vars))"
        by (simp add: nv infer_ok_Cons)
      moreover have "infer_all env dn (p # vars) cd = (Inl (Raised e), [Print (''   '' @ v)])"
        using False Inl by (simp add: p raise_run_def)
      ultimately show ?thesis by simp
    next
      case (Inr kw)
      then have ok: "infer_ok (plotting env) batch_cmap_args (nondim_vars dn (p # vars)) =
          infer_ok (plotting env) batch_cmap_args (nondim_vars dn vars)"
        by (simp add: nv infer_ok_Cons)
      have kw: "inferred (plotting env) batch_cmap_args var = kw"
        using Inr by (rule inferred_Inr)
      have step: "infer_all env dn (p # vars) cd =
          (fst (infer_all env dn vars (AList.update v kw cd)),
           Print (''   '' @ v) # snd (infer_all env dn vars (AList.update v kw cd)))"
        using False Inr by (simp add: p)
      show ?thesis
      proof (cases "infer_ok (plotting env) batch_cmap_args (nondim_vars dn vars)")
        case True
        with Cons.IH[of "AList.update v kw cd"] show ?thesis
          unfolding ok step by (simp add: nv kw)
      next
        case False
        with Cons.IH[of "AList.update v kw cd"] show ?thesis
          unfolding ok step by auto
      qed
    qed
  qed
qed

lemma infer_all_result:
  "infer_ok (plotting env) batch_cmap_args (nondim_vars dn vars) \<Longrightarrow>
   infer_all env dn vars cd =
     (Inr (fold (\<lambda>(v, var). AList.update v (inferred (plotting env) batch_cmap_args var))
             (nondim_vars dn vars) cd),
      map (\<lambda>(v, var). Print (''   '' @ v)) (nondim_vars dn vars))"
  using infer_all_cases[of env dn vars cd] by simp

lemma infer_all_fails:
  "\<not> infer_ok (plotting env) batch_cmap_args (nondim_vars dn vars) \<Longrightarrow>
   \<exists>e evs. infer_all env dn vars cd = (Inl (Raised e), evs)"
  using infer_all_cases[of env dn vars cd] by simp

lemma written_colorfiles_append [simp]:
  "written_colorfiles (xs @ ys) = written_colorfiles xs @ written_colorfiles ys"
  by (induction xs rule: written_colorfiles.induct) auto

lemma no_file_saved_figures: "list_all (\<lambda>e. \<not> is_file e) evs \<Longrightarrow> saved_figures evs = []"
  by (induction evs rule: saved_figures.induct) auto

lemma no_file_written_colorfiles:
  "list_all (\<lambda>e. \<not> is_file e) evs \<Longrightarrow> written_colorfiles evs = []"
  by (induction evs rule: written_colorfiles.induct) auto

lemma output_no_file: "list_all is_output evs \<Longrightarrow> list_all (\<lambda>e. \<not> is_file e) evs"
  by (induction evs) (auto elim: is_output.elims)

lemma list_all_bind_run:
  "list_all P (snd m) \<Longrightarrow> (\<And>x. list_all P (snd (f x))) \<Longrightarrow> list_all P (snd (bind_run m f))"
  by (cases m; cases "fst m") auto

lemma print_attrs_output: "list_all is_output (snd (print_attrs indent d))"
  by (simp add: print_attrs_def list_all_iff split_beta)

lemma fst_print_attrs [simp]: "fst (print_attrs indent d) = Inr ()"
  by (simp add: print_attrs_def)

lemma read_dataset_output: "list_all is_output (snd (read_dataset env f))"
  by (simp add: read_dataset_def print_attrs_def list_all_iff split_beta
      split: sum.splits py_error.splits)

lemma read_dataset_Inr:
  "open_dataset env f = Inr ds \<Longrightarrow> fst (read_dataset env f) = Inr ds"
  by (simp add: read_dataset_def print_attrs_def)

lemma read_dataset_InrD:
  "fst (read_dataset env f) = Inr ds \<Longrightarrow> open_dataset env f = Inr ds"
  by (auto simp: read_dataset_def print_attrs_def split: sum.splits py_error.splits)

lemma read_dataset_Inl:
  "open_dataset env f = Inl e \<Longrightarrow>
   fst (read_dataset env f) = (if e = RuntimeError then Inl (Exit 1) else Inl (Raised e))"
  by (cases e) (simp_all add: read_dataset_def)

lemma main_unfold:
  assumes "fst (read_dataset env (nc_file args)) = Inr ds0" and "coerce_dims ds0 = Inr ds"
  shows "main env args =
     (fst (bind_run (resolve_colors env args ds) (\<lambda>color_data.
             bind_run (save_colorfile env args color_data) (\<lambda>_.
             bind_run (emit [Print (repr_dataset env ds)]) (\<lambda>_.
             for_each (plot_variable env args ds color_data) (ds_variables ds))))),
      snd (read_dataset env (nc_file args)) @
      snd (bind_run (resolve_colors env args ds) (\<lambda>color_data.
             bind_run (save_colorfile env args color_data) (\<lambda>_.
             bind_run (emit [Print (repr_dataset env ds)]) (\<lambda>_.
             for_each (plot_variable env args ds color_data) (ds_variables ds))))))"
proof -
  obtain ev where r: "read_dataset env (nc_file args) = (Inr ds0, ev)"
    using assms(1) by (cases "read_dataset env (nc_file args)") auto
  show ?thesis unfolding main_def r by (simp add: assms(2))
qed

lemma snd_lift_run [simp]: "snd (lift_run r) = []"
  by (cases r) simp_all

lemma geo_plot_axis_no_file: "list_all (\<lambda>e. \<not> is_file e) (snd (geo_plot_axis penv ax projection))"
  unfolding geo_plot_axis_def
  by (auto intro!: list_all_bind_run split: option.splits pyval.splits sum.splits prod.splits)

lemma geo_plot_no_file:
  "list_all (\<lambda>e. \<not> is_file e) (snd (geo_plot penv darray ax method projection grid kwargs))"
  unfolding geo_plot_def Let_def
  by (auto intro!: list_all_bind_run geo_plot_axis_no_file
      split: option.splits pyval.splits sum.splits prod.splits)

lemma call_geo_plot_no_file:
  "list_all (\<lambda>e. \<not> is_file e) (snd (call_geo_plot penv plot_data ax kw))"
  unfolding call_geo_plot_def by (auto intro!: geo_plot_no_file)

lemma add_colorbar_axis [simp]:
  "add_colorbar None (Some ax) thickness shrink pad orientation = Inr (AxisColorbar pad orientation)"
  by (simp add: add_colorbar_def)

lemma plot_timeslice_figures:
  "saved_figures (snd (plot_timeslice env v var kw (t, da))) =
     (if fst (plot_timeslice env v var kw (t, da)) = Inr () then [out_fn v t] else [])"
proof (cases "cyclic_corrector da ''lon''")
  case (Inl e)
  then show ?thesis by (simp add: plot_timeslice_def)
next
  case (Inr d)
  let ?g = "call_geo_plot (plotting env) d \<lparr>has_projection = True, labels_supported = True\<rparr> kw"
  have nf: "saved_figures (snd ?g) = []"
    by (rule no_file_saved_figures[OF call_geo_plot_no_file])
  show ?thesis
  proof (cases "fst ?g")
    case (Inl a)
    then obtain ev where g: "?g = (Inl a, ev)" by (cases ?g) auto
    with nf show ?thesis by (simp add: plot_timeslice_def Inr)
  next
    case (Inr ax)
    then obtain ev where g: "?g = (Inr ax, ev)" by (cases ?g) auto
    with nf show ?thesis by (simp add: plot_timeslice_def \<open>cyclic_corrector da ''lon'' = Inr d\<close>)
  qed
qed

lemma plot_timeslice_no_colorfile:
  "written_colorfiles (snd (plot_timeslice env v var kw (t, da))) = []"
proof (cases "cyclic_corrector da ''lon''")
  case (Inl e)
  then show ?thesis by (simp add: plot_timeslice_def)
next
  case (Inr d)
  let ?g = "call_geo_plot (plotting env) d \<lparr>has_projection = True, labels_supported = True\<rparr> kw"
  have nf: "written_colorfiles (snd ?g) = []"
    by (rule no_file_written_colorfiles[OF call_geo_plot_no_file])
  show ?thesis
  proof (cases "fst ?g")
    case (Inl a)
    then obtain ev where g: "?g = (Inl a, ev)" by (cases ?g) auto
    with nf show ?thesis by (simp add: plot_timeslice_def Inr)
  next
    case (Inr ax)
    then obtain ev where g: "?g = (Inr ax, ev)" by (cases ?g) auto
    with nf show ?thesis by (simp add: plot_timeslice_def \<open>cyclic_corrector da ''lon'' = Inr d\<close>)
  qed
qed

lemma plot_times_no_colorfile:
  "written_colorfiles (snd (plot_times env smpl v var kw gs)) = []"
proof (induction gs)
  case Nil
  then show ?case by simp
next
  case (Cons s gs)
  obtain t da where s: "s = (t, da)" by (cases s)
  let ?p = "plot_timeslice env v var kw (t, da)"
  show ?case
  proof (cases "fst ?p")
    case (Inl a)
    then obtain ev where p: "?p = (Inl a, ev)" by (cases ?p) auto
    with plot_timeslice_no_colorfile[of env v var kw t da] show ?thesis by (simp add: s)
  next
    case (Inr u)
    then obtain ev where p: "?p = (Inr u, ev)" by (cases ?p) auto
    with plot_timeslice_no_colorfile[of env v var kw t da] Cons show ?thesis
      by (cases smpl) (simp_all add: s)
  qed
qed

lemma plot_times_sample_figures:
  "fst (plot_times env True v var kw gs) = Inr () \<Longrightarrow>
   saved_figures (snd (plot_times env True v var kw gs)) =
     (case gs of [] \<Rightarrow> [] | (t, da) # rest \<Rightarrow> [out_fn v t])"
proof (cases gs)
  case Nil
  then show ?thesis by simp
next
  case (Cons s rest)
  obtain t da where s: "s = (t, da)" by (cases s)
  let ?p = "plot_timeslice env v var kw (t, da)"
  assume ok: "fst (plot_times env True v var kw gs) = Inr ()"
  then have "fst ?p = Inr ()" by (cases ?p; cases "fst ?p") (auto simp: Cons s)
  then obtain ev where p: "?p = (Inr (), ev)" by (cases ?p) auto
  with plot_timeslice_figures[of env v var kw t da] show ?thesis by (simp add: Cons s)
qed

lemma plot_variable_no_colorfile:
  "written_colorfiles (snd (plot_variable env args ds cd p)) = []"
proof -
  obtain v var where p: "p = (v, var)" by (cases p)
  have pr: "written_colorfiles (map (\<lambda>(key, val). Print (f key val)) kw) = []" for f kw
    by (induction kw) auto
  show ?thesis
    by (cases "map_of cd v"; cases "var_groups var")
       (simp_all add: plot_variable_def p print_attrs_def pr plot_times_no_colorfile)
qed

lemma saved_figures_prints [simp]:
  "saved_figures (map (\<lambda>(key, val). Print (f key val)) kw) = []"
  by (induction kw) auto

lemma plot_variable_sample_figures:
  assumes "sample args" and "fst (plot_variable env args ds cd p) = Inr ()"
  shows "saved_figures (snd (plot_variable env args ds cd p)) =
           (if fst p \<in> set (ds_dims ds) \<or> fst p \<in> set (ds_coords ds) then []
            else first_image p)"
proof -
  obtain v var where p: "p = (v, var)" by (cases p)
  show ?thesis
  proof (cases "v \<in> set (ds_dims ds) \<or> v \<in> set (ds_coords ds)")
    case True
    then show ?thesis by (auto simp: plot_variable_def p)
  next
    case False
    show ?thesis
    proof (cases "map_of cd v"; cases "var_groups var")
      fix kw gs assume kw: "map_of cd v = Some kw" and gs: "var_groups var = Inr gs"
      have run: "plot_variable env args ds cd p =
          (fst (plot_times env True v var kw gs),
           [Print ([CHR 0x0A] @ ''Plotting data for variable '' @ [CHR 0x27] @ v @
                                 [CHR 0x27] @ ''...''),
            Print ''   Variable details:''] @
           snd (print_attrs ''      '' (var_attrs var)) @ [Print ''   Colormap settings:''] @
           map (\<lambda>(key, val). Print (''      '' @ key @ '': '' @ py_str env val)) kw @
           snd (plot_times env True v var kw gs))"
        using False assms(1) by (simp add: plot_variable_def p kw gs print_attrs_def)
      with assms(2) have ok: "fst (plot_times env True v var kw gs) = Inr ()" by simp
      have "saved_figures (snd (plot_variable env args ds cd p)) =
            saved_figures (snd (plot_times env True v var kw gs))"
        unfolding run by (simp add: print_attrs_def)
      also have "\<dots> = (case gs of [] \<Rightarrow> [] | (t, da) # rest \<Rightarrow> [out_fn v t])"
        by (rule plot_times_sample_figures[OF ok])
      also have "\<dots> = first_image p" by (simp add: first_image_def p gs)
      finally show ?thesis using False by (simp add: p)
    qed (use False assms(2) in \<open>simp_all add: plot_variable_def p print_attrs_def\<close>)
  qed
qed

lemma for_each_no_colorfile:
  "(\<And>x. written_colorfiles (snd (f x)) = []) \<Longrightarrow> written_colorfiles (snd (for_each f xs)) = []"
proof (induction xs)
  case Nil
  then show ?case by simp
next
  case (Cons x xs)
  have "written_colorfiles (snd (f x)) = []" by (rule Cons.prems)
  moreover have "written_colorfiles (snd (for_each f xs)) = []"
    by (rule Cons.IH) (rule Cons.prems)
  ultimately show ?case by (cases "f x"; cases "fst (f x)") auto
qed

lemma for_each_Cons_ok:
  "fst (for_each f (x # xs)) = Inr () \<longleftrightarrow> fst (f x) = Inr () \<and> fst (for_each f xs) = Inr ()"
  by (cases "f x"; cases "fst (f x)") auto

lemma for_each_Cons_events:
  "fst (f x) = Inr () \<Longrightarrow> snd (for_each f (x # xs)) = snd (f x) @ snd (for_each f xs)"
  by (cases "f x") auto

lemma for_each_sample_figures:
  assumes "sample args"
  shows "fst (for_each (plot_variable env args ds cd) vars) = Inr () \<Longrightarrow>
         saved_figures (snd (for_each (plot_variable env args ds cd) vars)) =
           concat (map first_image
             (filter (\<lambda>(v, var). v \<notin> set (ds_dims ds) \<and> v \<notin> set (ds_coords ds)) vars))"
proof (induction vars)
  case Nil
  then show ?case by simp
next
  case (Cons p vars)
  from Cons.prems have ok1: "fst (plot_variable env args ds cd p) = Inr ()"
    and ok2: "fst (for_each (plot_variable env args ds cd) vars) = Inr ()"
    by (simp_all only: for_each_Cons_ok)
  have "snd (for_each (plot_variable env args ds cd) (p # vars)) =
        snd (plot_variable env args ds cd p) @ snd (for_each (plot_variable env args ds cd) vars)"
    using ok1 by (rule for_each_Cons_events)
  then show ?case
    using plot_variable_sample_figures[OF assms ok1] Cons.IH[OF ok2]
    by (cases p) auto
qed

lemma infer_missing_output: "list_all is_output (snd (infer_missing env dn vars cd))"
  by (induction env dn vars cd rule: infer_missing.induct)
     (auto intro!: list_all_bind_run)

lemma infer_all_output: "list_all is_output (snd (infer_all env dn vars cd))"
  by (induction env dn vars cd rule: infer_all.induct)
     (auto intro!: list_all_bind_run)

lemma resolve_colors_output: "list_all is_output (snd (resolve_colors env args ds))"
  unfolding resolve_colors_def
  by (auto intro!: list_all_bind_run infer_missing_output infer_all_output
      split: option.splits sum.splits py_error.splits)

lemma main_success:
  assumes ok: "fst (main env args) = Inr ()"
    and op: "open_dataset env (nc_file args) = Inr ds0" and co: "coerce_dims ds0 = Inr ds"
  obtains cd ev1 where "resolve_colors env args ds = (Inr cd, ev1)"
    and "fst (for_each (plot_variable env args ds cd) (ds_variables ds)) = Inr ()"
    and "snd (main env args) =
           (snd (read_dataset env (nc_file args)) @ ev1 @ [Print ''Saving colormap data'']) @
           WriteColorfile (fst (splitext (nc_file args)) @ ''.cf'') cd #
           (Print (repr_dataset env ds) #
            snd (for_each (plot_variable env args ds cd) (ds_variables ds)))"
proof -
  note m = main_unfold[OF read_dataset_Inr[OF op] co]
  let ?rest = "\<lambda>color_data.
             bind_run (save_colorfile env args color_data) (\<lambda>_.
             bind_run (emit [Print (repr_dataset env ds)]) (\<lambda>_.
             for_each (plot_variable env args ds color_data) (ds_variables ds)))"
  from ok have 1: "fst (bind_run (resolve_colors env args ds) ?rest) = Inr ()"
    unfolding m by simp
  then obtain cd where r: "fst (resolve_colors env args ds) = Inr cd"
    and 2: "fst (?rest cd) = Inr ()"
    unfolding fst_bind_run_Inr by blast
  obtain ev1 where res: "resolve_colors env args ds = (Inr cd, ev1)"
    using r by (cases "resolve_colors env args ds") auto
  have cw: "can_write env (fst (splitext (nc_file args)) @ ''.cf'')"
    using 2 by (auto simp: save_colorfile_def Let_def split: if_splits)
  then have save: "save_colorfile env args cd =
      (Inr (), [Print ''Saving colormap data'',
                WriteColorfile (fst (splitext (nc_file args)) @ ''.cf'') cd])"
    by (simp add: save_colorfile_def Let_def emit_def)
  from 2 have 3: "fst (for_each (plot_variable env args ds cd) (ds_variables ds)) = Inr ()"
    unfolding save by simp
  have "snd (main env args) =
           (snd (read_dataset env (nc_file args)) @ ev1 @ [Print ''Saving colormap data'']) @
           WriteColorfile (fst (splitext (nc_file args)) @ ''.cf'') cd #
           (Print (repr_dataset env ds) #
            snd (for_each (plot_variable env args ds cd) (ds_variables ds)))"
    unfolding m res by (simp add: save)
  with res 3 show ?thesis by (rule that)
qed

lemma keys_fold_update:
  "fst ` set (fold (\<lambda>(v, var). AList.update v (g var)) xs cd) = fst ` set cd \<union> fst ` set xs"
proof (induction xs arbitrary: cd)
  case Nil
  then show ?case by simp
next
  case (Cons p xs)
  obtain v var where p: "p = (v, var)" by (cases p)
  have "fst ` set (fold (\<lambda>(v, var). AList.update v (g var)) (p # xs) cd) =
        fst ` set (AList.update v (g var) cd) \<union> fst ` set xs"
    by (simp add: p Cons.IH)
  also have "\<dots> = fst ` set cd \<union> fst ` set (p # xs)"
    unfolding AList.dom_update by (auto simp: p)
  finally show ?case .
qed

lemma resolve_colors_result:
  assumes d: "distinct (map fst (ds_variables ds))"
    and res: "resolve_colors env args ds = (Inr cd, evs)"
  shows "infer_ok (plotting env) (branch_cmap_args args)
           (missing_vars (ds_dims ds) (loaded_colors env args) (ds_variables ds)) \<and>
         cd = fold (\<lambda>(v, var). AList.update v (inferred (plotting env) (branch_cmap_args args) var))
                (missing_vars (ds_dims ds) (loaded_colors env args) (ds_variables ds))
                (loaded_colors env args)"
proof (cases "colorfile args")
  case None
  have mv: "missing_vars (ds_dims ds) [] (ds_variables ds) =
            nondim_vars (ds_dims ds) (ds_variables ds)"
    by (simp add: missing_vars_def nondim_vars_def)
  let ?r = "infer_all env (ds_dims ds) (ds_variables ds) []"
  from res have r: "fst ?r = Inr cd"
    by (simp add: resolve_colors_def None)
  have ok: "infer_ok (plotting env) batch_cmap_args (nondim_vars (ds_dims ds) (ds_variables ds))"
  proof (rule ccontr)
    assume "\<not> ?thesis"
    from infer_all_fails[OF this, of "[]"] r show False by auto
  qed
  from r show ?thesis
    by (simp add: infer_all_result[OF ok] ok mv None loaded_colors_def branch_cmap_args_def)
next
  case (Some cf)
  show ?thesis
  proof (cases "load_colorfile env cf")
    case (Inl e)
    then show ?thesis using res
      by (cases e) (simp_all add: resolve_colors_def Some raise_run_def exit_run_def)
  next
    case (Inr loaded)
    let ?r = "infer_missing env (ds_dims ds) (ds_variables ds) loaded"
    from res have r: "fst ?r = Inr cd"
      by (simp add: resolve_colors_def Some Inr)
    have ok: "infer_ok (plotting env) default_cmap_args
                (missing_vars (ds_dims ds) loaded (ds_variables ds))"
    proof (rule ccontr)
      assume "\<not> ?thesis"
      from infer_missing_fails[OF d this] r show False by auto
    qed
    from r show ?thesis
      by (simp add: infer_missing_result[OF d ok] ok Some Inr loaded_colors_def
          branch_cmap_args_def)
  qed
qed

text \<open>
  The file names of the script are those of the specification: on a calendar date with a
  four-digit year, \<^verbatim>\<open>"%s_%s.%s" % (v, ts.strftime("%m%d%Y_%H%MZ"), 'png')\<close> is
  \<^verbatim>\<open><variable>_<MMDDYYYY_HHMMZ>.png\<close>.
\<close>

lemma show_nat_digit: "n < 10 \<Longrightarrow> show_nat n = [digit_char n]"
  by (subst show_nat.simps) simp

lemma show_nat_step: "10 \<le> n \<Longrightarrow> show_nat n = show_nat (n div 10) @ [digit_char (n mod 10)]"
  by (subst show_nat.simps) simp

lemma pad2_two_digits: "n < 100 \<Longrightarrow> pad2 n = two_digits n"
proof (cases "n < 10")
  case True
  then show ?thesis by (simp add: pad2_def two_digits_def show_nat_digit digit_char_def)
next
  case False
  assume "n < 100"
  with False have "10 \<le> n" "n div 10 < 10" by simp_all
  then show ?thesis using False
    by (simp add: pad2_def two_digits_def show_nat_step show_nat_digit del: show_nat.simps)
qed

lemma show_nat_four_digits:
  assumes "1000 \<le> n" "n \<le> 9999"
  shows "show_nat n = four_digits n"
proof -
  have a: "10 \<le> n" "10 \<le> n div 10" "10 \<le> n div 10 div 10" "n div 10 div 10 div 10 < 10"
    using assms by simp_all
  have b: "n div 10 div 10 = n div 100" "n div 10 div 10 div 10 = n div 1000"
    "n div 100 div 10 = n div 1000"
    by (simp_all add: div_mult2_eq[symmetric])
  have "show_nat n = [digit_char (n div 10 div 10 div 10), digit_char (n div 10 div 10 mod 10),
                       digit_char (n div 10 mod 10), digit_char (n mod 10)]"
    by (simp add: show_nat_step[OF a(1)] show_nat_step[OF a(2)] show_nat_step[OF a(3)]
        show_nat_digit[OF a(4)] del: show_nat.simps)
  then show ?thesis by (simp add: four_digits_def b del: show_nat.simps)
qed

lemma out_fn_image_name: "valid_timestamp ts \<Longrightarrow> out_fn v ts = image_name v ts"
  by (simp add: valid_timestamp_def out_fn_def fn_ts_str_def image_name_def pad2_two_digits
      show_nat_four_digits del: show_nat.simps)

lemma first_image_sample_image:
  assumes "case first_timestamp var of None \<Rightarrow> True | Some time \<Rightarrow> valid_timestamp time"
  shows "first_image (v, var) = sample_image (v, var)"
  using assms
  by (auto simp: first_image_def sample_image_def first_timestamp_def out_fn_image_name
      split: sum.splits list.splits prod.splits)

lemma length_sample_images:
  "length (concat (map sample_image vars)) =
   length (filter (\<lambda>(v, var). first_timestamp var \<noteq> None) vars)"
  by (induction vars) (auto simp: sample_image_def split: option.splits)

lemma index_of_map_inj:
  "inj_on f (insert x (set xs)) \<Longrightarrow> index_of (f x) (map f xs) = index_of x xs"
proof (induction xs)
  case Nil
  then show ?case by simp
next
  case (Cons y ys)
  then have "inj_on f (insert x (set ys))" by (auto intro: inj_on_subset)
  with Cons have "index_of (f x) (map f ys) = index_of x ys" by blast
  moreover have "f x = f y \<longleftrightarrow> x = y" using Cons.prems by (auto simp: inj_on_def)
  ultimately show ?case by simp
qed

lemma map_of_rekey:
  "inj_on f (insert k (fst ` set al)) \<Longrightarrow> map_of (rekey f al) (f k) = map_of al k"
proof (induction al)
  case Nil
  then show ?case by (simp add: rekey_def)
next
  case (Cons p al)
  obtain n c where p: "p = (n, c)" by (cases p)
  from Cons.prems have "inj_on f (insert k (fst ` set al))" by (auto intro: inj_on_subset)
  with Cons.IH have "map_of (rekey f al) (f k) = map_of al k" by blast
  moreover have "f k = f n \<longleftrightarrow> k = n" using Cons.prems by (auto simp: inj_on_def p)
  ultimately show ?case by (auto simp: p rekey_def)
qed

lemma update_rekey:
  "inj_on f (insert k (fst ` set al)) \<Longrightarrow>
   AList.update (f k) v (rekey f al) = rekey f (AList.update k v al)"
proof (induction al)
  case Nil
  then show ?case by (simp add: rekey_def)
next
  case (Cons p al)
  obtain n c where p: "p = (n, c)" by (cases p)
  from Cons.prems have "inj_on f (insert k (fst ` set al))" by (auto intro: inj_on_subset)
  with Cons.IH have "AList.update (f k) v (rekey f al) = rekey f (AList.update k v al)" by blast
  moreover have "f k = f n \<longleftrightarrow> k = n" using Cons.prems by (auto simp: inj_on_def p)
  ultimately show ?case by (auto simp: p rekey_def)
qed

lemma map_entry_rekey:
  "inj_on f (insert k (fst ` set al)) \<Longrightarrow>
   AList.map_entry (f k) g (rekey f al) = rekey f (AList.map_entry k g al)"
proof (induction al)
  case Nil
  then show ?case by (simp add: rekey_def)
next
  case (Cons p al)
  obtain n c where p: "p = (n, c)" by (cases p)
  from Cons.prems have "inj_on f (insert k (fst ` set al))" by (auto intro: inj_on_subset)
  with Cons.IH have "AList.map_entry (f k) g (rekey f al) = rekey f (AList.map_entry k g al)"
    by blast
  moreover have "f k = f n \<longleftrightarrow> k = n" using Cons.prems by (auto simp: inj_on_def p)
  ultimately show ?case by (auto simp: p rekey_def)
qed

lemma keys_map_entry: "fst ` set (AList.map_entry k g al) = fst ` set al"
  using map_fst_map_entry[of k g al] by (metis set_map)

lemma copy_coord_attrs_rekey:
  "inj_on f (fst ` set old \<union> fst ` set new) \<Longrightarrow>
   copy_coord_attrs (rekey f old) (rekey f new) = rekey f (copy_coord_attrs old new)"
proof (induction old arbitrary: new)
  case Nil
  then show ?case by (simp add: copy_coord_attrs_def rekey_def)
next
  case (Cons p old)
  obtain n c where p: "p = (n, c)" by (cases p)
  let ?g = "\<lambda>nc. nc\<lparr>cattrs := copy_attrs (cattrs c) (cattrs nc)\<rparr>"
  have inj1: "inj_on f (insert n (fst ` set new))"
    using Cons.prems by (auto simp: p intro: inj_on_subset)
  have inj2: "inj_on f (fst ` set old \<union> fst ` set (AList.map_entry n ?g new))"
    using Cons.prems unfolding keys_map_entry by (auto simp: p intro: inj_on_subset)
  have "copy_coord_attrs (rekey f (p # old)) (rekey f new) =
        copy_coord_attrs (rekey f old) (AList.map_entry (f n) ?g (rekey f new))"
    by (simp add: copy_coord_attrs_def rekey_def p)
  also have "\<dots> = copy_coord_attrs (rekey f old) (rekey f (AList.map_entry n ?g new))"
    by (simp add: map_entry_rekey[OF inj1])
  also have "\<dots> = rekey f (copy_coord_attrs old (AList.map_entry n ?g new))"
    by (rule Cons.IH[OF inj2])
  also have "\<dots> = rekey f (copy_coord_attrs (p # old) new)"
    by (simp add: copy_coord_attrs_def p)
  finally show ?case .
qed

lemma rename_dataarray_eq: "rename_dataarray old new = rename_da (rename_name old new)"
  by (rule ext) (simp add: rename_dataarray_def rename_da_def rekey_def)

lemma check_cyclic_rename:
  assumes "inj_on f (insert coord (set (dims da) \<union> fst ` set (coords da)))"
  shows "check_cyclic (rename_da f da) (f coord) = check_cyclic da coord"
proof -
  have "inj_on f (insert coord (set (dims da)))"
    using assms by (auto intro: inj_on_subset)
  then have "index_of (f coord) (map f (dims da)) = index_of coord (dims da)"
    by (rule index_of_map_inj)
  then have "isel (rename_da f da) (f coord) i = isel da coord i" for i
    by (simp add: isel_def rename_da_def split: option.splits)
  then show ?thesis by (simp add: check_cyclic_def split: sum.splits)
qed

lemma cyclic_dataarray_rename:
  assumes inj: "inj_on f (insert coord (set (dims da) \<union> fst ` set (coords da)))"
  shows "cyclic_dataarray (rename_da f da) (f coord) =
         map_sum id (rename_da f) (cyclic_dataarray da coord)"
proof -
  have i1: "inj_on f (insert coord (set (dims da)))"
    and i2: "inj_on f (insert coord (fst ` set (coords da)))"
    using inj by (auto intro: inj_on_subset)
  have idx: "index_of (f coord) (map f (dims da)) = index_of coord (dims da)"
    by (rule index_of_map_inj[OF i1])
  have look: "map_of (rekey f (coords da)) (f coord) = map_of (coords da) coord"
    by (rule map_of_rekey[OF i2])
  show ?thesis
  proof (cases "index_of coord (dims da)")
    case None
    then show ?thesis by (simp add: cyclic_dataarray_def rename_da_def idx)
  next
    case (Some k)
    show ?thesis
    proof (cases "map_of (coords da) coord")
      case None
      then show ?thesis by (simp add: cyclic_dataarray_def rename_da_def idx look Some)
    next
      case (Some c)
      note c = this
      show ?thesis
      proof (cases "add_cyclic_point (da_values da) (cvalues c) k")
        case (Inl e)
        then show ?thesis
          by (simp add: cyclic_dataarray_def rename_da_def idx look c \<open>index_of coord (dims da) = Some k\<close>)
      next
        case (Inr r)
        obtain cd cc where r: "r = (cd, cc)" by (cases r)
        let ?new = "AList.update coord \<lparr>cvalues = cc, cattrs = []\<rparr> (coords da)"
        have keys: "fst ` set ?new = fst ` set (coords da)"
          using c by (auto simp: AList.dom_update dest: map_of_SomeD intro: rev_image_eqI)
        have i3: "inj_on f (fst ` set (coords da) \<union> fst ` set ?new)"
          unfolding keys using i2 by (auto intro: inj_on_subset)
        have "copy_coord_attrs (rekey f (coords da))
                (AList.update (f coord) \<lparr>cvalues = cc, cattrs = []\<rparr> (rekey f (coords da))) =
              rekey f (copy_coord_attrs (coords da) ?new)"
          unfolding update_rekey[OF i2] by (rule copy_coord_attrs_rekey[OF i3])
        then show ?thesis
          by (simp add: cyclic_dataarray_def rename_da_def idx look c Inr r Let_def
              \<open>index_of coord (dims da) = Some k\<close>)
      qed
    qed
  qed
qed

lemma cyclic_corrector_rename:
  assumes inj: "inj_on f (insert coord (set (dims da) \<union> fst ` set (coords da)))"
  shows "cyclic_corrector (rename_da f da) (f coord) =
         map_sum id (rename_da f) (cyclic_corrector da coord)"
  unfolding cyclic_corrector_def check_cyclic_rename[OF inj] cyclic_dataarray_rename[OF inj]
  by (cases "check_cyclic da coord") auto

lemma in_dataset_names: "in_dataset n ds \<longleftrightarrow> n \<in> ds_names ds"
  by (simp add: in_dataset_def ds_names_def)

lemma wf_slices: "wf_dataset ds \<Longrightarrow> da \<in> slices ds \<Longrightarrow> da_names da \<subseteq> ds_names ds"
proof
  fix n assume wf: "wf_dataset ds" and da: "da \<in> slices ds" and n: "n \<in> da_names da"
  from da obtain v var gs t where m: "(v, var) \<in> set (ds_variables ds)"
    and g: "var_groups var = Inr gs" and s: "(t, da) \<in> set gs"
    by (auto simp: slices_def)
  from wf m have "case var_groups var of Inl e \<Rightarrow> True
        | Inr groups \<Rightarrow> list_all (\<lambda>(time, da).
               list_all (\<lambda>n. in_dataset n ds) (dims da @ map fst (coords da))) groups"
    unfolding wf_dataset_def list_all_iff by blast
  with g s have "list_all (\<lambda>n. in_dataset n ds) (dims da @ map fst (coords da))"
    unfolding list_all_iff by fastforce
  moreover have "n \<in> set (dims da @ map fst (coords da))"
    using n by (simp add: da_names_def)
  ultimately show "n \<in> ds_names ds"
    unfolding list_all_iff in_dataset_names by blast
qed

lemma wf_dims: "wf_dataset ds \<Longrightarrow> set (ds_dims ds) \<subseteq> ds_names ds"
  unfolding wf_dataset_def list_all_iff in_dataset_names by blast

lemma wf_coords: "wf_dataset ds \<Longrightarrow> set (ds_coords ds) \<subseteq> ds_names ds"
  unfolding wf_dataset_def list_all_iff in_dataset_names by blast

lemma var_dims_subset: "(v, var) \<in> set (ds_variables ds) \<Longrightarrow> set (var_dims var) \<subseteq> set (ds_dims ds)"
  by (force simp: ds_dims_def)

lemma rename_name_id: "n \<noteq> old \<Longrightarrow> rename_name old new n = n"
  by (simp add: rename_name_def)

lemma map_rename_id: "old \<notin> set xs \<Longrightarrow> map (rename_name old new) xs = xs"
  by (induction xs) (auto simp: rename_name_def)

lemma rename_dataarray_id: "old \<notin> da_names da \<Longrightarrow> rename_dataarray old new da = da"
proof -
  assume a: "old \<notin> da_names da"
  then have "map (rename_name old new) (dims da) = dims da"
    by (intro map_rename_id) (simp add: da_names_def)
  moreover have "map (\<lambda>(n, c). (rename_name old new n, c)) (coords da) = coords da"
    using a by (intro map_idI) (force simp: da_names_def rename_name_def)
  ultimately show ?thesis by (simp add: rename_dataarray_def)
qed

lemma renamed_id:
  assumes wf: "wf_dataset ds" and no: "old \<notin> ds_names ds"
  shows "renamed old new ds = ds"
proof -
  have var: "rename_variable old new var = var" if m: "(v, var) \<in> set (ds_variables ds)" for v var
  proof -
    have "old \<notin> set (var_dims var)" using var_dims_subset[OF m] wf_dims[OF wf] no by blast
    then have d: "map (rename_name old new) (var_dims var) = var_dims var" by (rule map_rename_id)
    have g: "map_sum id (map (\<lambda>(t, da). (t, rename_dataarray old new da))) (var_groups var) =
             var_groups var"
    proof (cases "var_groups var")
      case (Inl e)
      then show ?thesis by simp
    next
      case (Inr gs)
      have "map (\<lambda>(t, da). (t, rename_dataarray old new da)) gs = gs"
      proof (rule map_idI)
        fix x assume x: "x \<in> set gs"
        obtain t da where td: "x = (t, da)" by (cases x)
        have "da \<in> slices ds" using m Inr x td by (auto simp: slices_def)
        then have "old \<notin> da_names da" using wf_slices[OF wf] no by blast
        then show "(case x of (t, da) \<Rightarrow> (t, rename_dataarray old new da)) = x"
          by (simp add: td rename_dataarray_id)
      qed
      then show ?thesis by (simp add: Inr)
    qed
    show ?thesis by (simp add: rename_variable_def d g)
  qed
  have "map (\<lambda>(n, var). (rename_name old new n, rename_variable old new var)) (ds_variables ds) =
        ds_variables ds"
  proof (rule map_idI)
    fix x assume x: "x \<in> set (ds_variables ds)"
    obtain n var where nv: "x = (n, var)" by (cases x)
    have "n \<noteq> old" using x no by (force simp: nv ds_names_def)
    then show "(case x of (n, var) \<Rightarrow> (rename_name old new n, rename_variable old new var)) = x"
      using var x by (simp add: nv rename_name_id)
  qed
  moreover have "map (rename_name old new) (ds_coords ds) = ds_coords ds"
    using wf_coords[OF wf] no by (intro map_rename_id) blast
  ultimately show ?thesis by (simp add: renamed_def)
qed

lemma rename_step_result:
  assumes wf: "wf_dataset ds" and ok: "rename_step ds old new = Inr ds1"
  shows "ds1 = renamed old new ds" and "old \<notin> ds_names ds \<or> new \<notin> ds_names ds"
proof -
  show "ds1 = renamed old new ds"
  proof (cases "in_dataset old ds")
    case True
    with ok show ?thesis
      by (auto simp: rename_step_def rename_def renamed_def split: if_splits)
  next
    case False
    with ok have "ds1 = ds" by (simp add: rename_step_def)
    moreover have "renamed old new ds = ds"
      using False by (intro renamed_id[OF wf]) (simp add: in_dataset_names)
    ultimately show ?thesis by simp
  qed
  show "old \<notin> ds_names ds \<or> new \<notin> ds_names ds"
    using ok by (auto simp: rename_step_def rename_def in_dataset_names split: if_splits)
qed

lemma coerce_dims_steps:
  "coerce_dims ds =
     (case rename_step ds ''longitude'' ''lon'' of
        Inl e \<Rightarrow> Inl e
      | Inr ds1 \<Rightarrow> rename_step ds1 ''latitude'' ''lat'')"
  by (simp add: coerce_dims_def rename_step_def split: sum.splits)

lemma ds_names_renamed: "ds_names (renamed old new ds) = rename_name old new ` ds_names ds"
  by (force simp: ds_names_def renamed_def)

lemma ds_dims_renamed: "set (ds_dims (renamed old new ds)) = rename_name old new ` set (ds_dims ds)"
  by (force simp: ds_dims_def renamed_def rename_variable_def)

lemma slices_renamed: "slices (renamed old new ds) = rename_dataarray old new ` slices ds"
proof (rule set_eqI)
  fix da'
  show "da' \<in> slices (renamed old new ds) \<longleftrightarrow> da' \<in> rename_dataarray old new ` slices ds"
  proof
    assume "da' \<in> slices (renamed old new ds)"
    then obtain v' var' gs' t where m: "(v', var') \<in> set (ds_variables (renamed old new ds))"
      and g: "var_groups var' = Inr gs'" and s: "(t, da') \<in> set gs'"
      by (auto simp: slices_def)
    from m obtain v var where m0: "(v, var) \<in> set (ds_variables ds)"
      and var': "var' = rename_variable old new var"
      by (auto simp: renamed_def)
    from g var' obtain gs where g0: "var_groups var = Inr gs"
      and gs': "gs' = map (\<lambda>(t, da). (t, rename_dataarray old new da)) gs"
      by (cases "var_groups var") (auto simp: rename_variable_def)
    from s gs' obtain da where s0: "(t, da) \<in> set gs" and da': "da' = rename_dataarray old new da"
      by auto
    from m0 g0 s0 have "da \<in> slices ds" unfolding slices_def by blast
    with da' show "da' \<in> rename_dataarray old new ` slices ds" by blast
  next
    assume "da' \<in> rename_dataarray old new ` slices ds"
    then obtain da v var gs t where da': "da' = rename_dataarray old new da"
      and m0: "(v, var) \<in> set (ds_variables ds)" and g0: "var_groups var = Inr gs"
      and s0: "(t, da) \<in> set gs"
      by (auto simp: slices_def)
    have "(rename_name old new v, rename_variable old new var) \<in>
            set (ds_variables (renamed old new ds))"
      using m0 by (force simp: renamed_def)
    moreover have "var_groups (rename_variable old new var) =
                     Inr (map (\<lambda>(t, da). (t, rename_dataarray old new da)) gs)"
      by (simp add: rename_variable_def g0)
    moreover have "(t, da') \<in> set (map (\<lambda>(t, da). (t, rename_dataarray old new da)) gs)"
      using s0 da' by force
    ultimately show "da' \<in> slices (renamed old new ds)"
      unfolding slices_def by blast
  qed
qed

lemma da_names_rename: "da_names (rename_dataarray old new da) = rename_name old new ` da_names da"
  by (force simp: da_names_def rename_dataarray_def)

lemma rename_name_inj_on:
  "old \<notin> S \<or> new \<notin> S \<Longrightarrow> inj_on (rename_name old new) S"
  by (auto simp: inj_on_def rename_name_def split: if_splits)

lemma wf_dataset_iff:
  "wf_dataset ds \<longleftrightarrow>
     distinct (map fst (ds_variables ds)) \<and> set (ds_dims ds) \<subseteq> ds_names ds \<and>
     set (ds_coords ds) \<subseteq> ds_names ds \<and> (\<forall>da \<in> slices ds. da_names da \<subseteq> ds_names ds)"
proof
  assume "wf_dataset ds"
  then show "distinct (map fst (ds_variables ds)) \<and> set (ds_dims ds) \<subseteq> ds_names ds \<and>
     set (ds_coords ds) \<subseteq> ds_names ds \<and> (\<forall>da \<in> slices ds. da_names da \<subseteq> ds_names ds)"
    using wf_dims wf_coords wf_slices by (auto simp: wf_dataset_def)
next
  assume a: "distinct (map fst (ds_variables ds)) \<and> set (ds_dims ds) \<subseteq> ds_names ds \<and>
     set (ds_coords ds) \<subseteq> ds_names ds \<and> (\<forall>da \<in> slices ds. da_names da \<subseteq> ds_names ds)"
  have "case var_groups var of Inl e \<Rightarrow> True
        | Inr groups \<Rightarrow> list_all (\<lambda>(time, da).
               list_all (\<lambda>n. in_dataset n ds) (dims da @ map fst (coords da))) groups"
    if m: "(v, var) \<in> set (ds_variables ds)" for v var
  proof (cases "var_groups var")
    case (Inl e)
    then show ?thesis by simp
  next
    case (Inr gs)
    have "list_all (\<lambda>n. in_dataset n ds) (dims da @ map fst (coords da))"
      if s: "(t, da) \<in> set gs" for t da
    proof -
      from m Inr s have "da \<in> slices ds" unfolding slices_def by blast
      with a have "da_names da \<subseteq> ds_names ds" by blast
      then show ?thesis
        unfolding list_all_iff in_dataset_names da_names_def by auto
    qed
    then show ?thesis unfolding Inr list_all_iff by auto
  qed
  then have "list_all (\<lambda>(v, var).
        case var_groups var of
          Inl e \<Rightarrow> True
        | Inr groups \<Rightarrow>
            list_all (\<lambda>(time, da).
               list_all (\<lambda>n. in_dataset n ds) (dims da @ map fst (coords da))) groups)
       (ds_variables ds)"
    unfolding list_all_iff by auto
  with a show "wf_dataset ds"
    unfolding wf_dataset_def by (auto simp: list_all_iff in_dataset_names)
qed

lemma wf_renamed:
  assumes wf: "wf_dataset ds" and fresh: "old \<notin> ds_names ds \<or> new \<notin> ds_names ds"
  shows "wf_dataset (renamed old new ds)"
proof -
  note w = wf[unfolded wf_dataset_iff]
  have inj: "inj_on (rename_name old new) (ds_names ds)"
    using fresh by (rule rename_name_inj_on)
  have "map fst (ds_variables (renamed old new ds)) =
        map (rename_name old new) (map fst (ds_variables ds))"
    by (simp add: renamed_def split_beta comp_def)
  then have "distinct (map fst (ds_variables (renamed old new ds)))"
    using w inj by (simp add: distinct_map ds_names_def del: map_map)
  moreover have "set (ds_dims (renamed old new ds)) \<subseteq> ds_names (renamed old new ds)"
    unfolding ds_dims_renamed ds_names_renamed using w by blast
  moreover have "set (ds_coords (renamed old new ds)) \<subseteq> ds_names (renamed old new ds)"
    unfolding ds_names_renamed using w by (auto simp: renamed_def)
  moreover have "\<forall>da \<in> slices (renamed old new ds). da_names da \<subseteq> ds_names (renamed old new ds)"
    unfolding slices_renamed ds_names_renamed using w by (auto simp: da_names_rename)
      blast
  ultimately show ?thesis unfolding wf_dataset_iff by blast
qed

lemma coerced_name_not_old: "coerced_name n \<noteq> ''longitude''" "coerced_name n \<noteq> ''latitude''"
  by (simp_all add: coerced_name_def rename_name_def)

lemma coerced_name_old [simp]:
  "coerced_name ''longitude'' = ''lon''" "coerced_name ''latitude'' = ''lat''"
  by (simp_all add: coerced_name_def rename_name_def)

section \<open>The example run\<close>

text \<open>The sample run on the example file, with no colormap file, reaches its end.\<close>

lemma demo_sample_run_ok:
  "fst (main (demo_env (demo_dataset ''lat'' ''lon'') None) (demo_args None True)) = Inr ()"
  by code_simp

section \<open>The Cyclic-Point Corrector\<close>

text \<open>
  Claim C1: a slice whose first and last longitude samples are equal is returned
  unchanged, and the correction is idempotent, a second application finding the corrected
  slice cyclic and leaving it alone. The code at a slice with a missing value at the first
  longitude: \<open>check_cyclic\<close> compares with numpy's \<^verbatim>\<open>==\<close>, and \<^verbatim>\<open>NaN == NaN\<close> is false.
  The first application appends the cyclic sample; the corrected slice has NaN at both
  ends, is not found cyclic, and the second application appends another sample instead of
  returning it unchanged.
\<close>

theorem cyclic_corrector_nan_twice:
  "cyclic_corrector (lat_lon_slice [0, 180] [NaN, Fin 1]) ''lon'' =
     Inr (lat_lon_slice [0, 180, 360] [NaN, Fin 1, NaN]) \<and>
   cyclic_corrector (lat_lon_slice [0, 180, 360] [NaN, Fin 1, NaN]) ''lon'' =
     Inr (lat_lon_slice [0, 180, 360, 540] [NaN, Fin 1, NaN, NaN]) \<and>
   cyclic_corrector (lat_lon_slice [0, 180, 360] [NaN, Fin 1, NaN]) ''lon'' \<noteq>
     Inr (lat_lon_slice [0, 180, 360] [NaN, Fin 1, NaN])"
  by (simp add: eval_defs)

text \<open>
  On slices whose first-longitude values are numbers the corrector does what it is meant
  to do: a slice with equal first and last longitude samples is returned as it is, and
  whatever the corrector returns is returned unchanged by a second application.
\<close>

theorem cyclic_corrector_idempotent:
  assumes wf: "wf_dataarray da" and idx: "index_of coord (dims da) = Some k"
    and nn: "no_nan (take_axis k 0 (elems (da_values da)))"
  shows "(0 < shape (da_values da) ! k \<and>
          take_axis k 0 (elems (da_values da)) =
            take_axis k (shape (da_values da) ! k - 1) (elems (da_values da))
          \<longrightarrow> cyclic_corrector da coord = Inr da) \<and>
         (\<forall>da'. cyclic_corrector da coord = Inr da' \<longrightarrow> cyclic_corrector da' coord = Inr da')"
proof (cases "shape (da_values da) ! k = 0")
  case True
  then show ?thesis
    using check_cyclic_empty[OF wf idx] by (simp add: cyclic_corrector_def)
next
  case False
  then have n: "0 < shape (da_values da) ! k" by simp
  let ?s = "shape (da_values da)" and ?e = "elems (da_values da)"
  have k: "k < length ?s" and hs: "has_shape ?s ?e"
    using wf index_of_SomeD[OF idx] by (simp_all add: wf_dataarray_def)
  note chk = check_cyclic_eq[OF wf idx n]
  have first: "cyclic_corrector da coord = Inr da"
    if "take_axis k 0 ?e = take_axis k (?s ! k - 1) ?e"
  proof -
    from that nn have "check_cyclic da coord = Inr True" unfolding chk by simp
    then show ?thesis by (simp add: cyclic_corrector_def)
  qed
  have second: "cyclic_corrector da' coord = Inr da'" if ok: "cyclic_corrector da coord = Inr da'" for da'
  proof (cases "take_axis k 0 ?e = take_axis k (?s ! k - 1) ?e")
    case True
    with first ok show ?thesis by simp
  next
    case False
    then have "check_cyclic da coord = Inr False" unfolding chk by simp
    with ok have "cyclic_dataarray da coord = Inr da'" by (simp add: cyclic_corrector_def)
    then obtain c where c: "map_of (coords da) coord = Some c"
      and da': "da' = cyclic_result da coord k c"
      using idx by (auto simp: cyclic_dataarray_iff[OF wf])
    have wf': "wf_dataarray da'" unfolding da' by (rule wf_cyclic_result[OF wf idx c n])
    have idx': "index_of coord (dims da') = Some k" by (simp add: da' cyclic_result_def idx)
    have sh: "shape (da_values da') ! k = Suc (?s ! k)" using k by (simp add: da' cyclic_result_def)
    have e0: "take_axis k 0 (elems (da_values da')) = take_axis k 0 ?e"
      using take_axis_concat_lt[OF hs k n] by (simp add: da' cyclic_result_def)
    have e1: "take_axis k (?s ! k) (elems (da_values da')) = take_axis k 0 ?e"
      using take_axis_concat_last[OF hs k n] by (simp add: da' cyclic_result_def)
    have "check_cyclic da' coord = Inr True"
      using check_cyclic_eq[OF wf' idx'] nn by (simp add: sh e0 e1)
    then show ?thesis by (simp add: cyclic_corrector_def)
  qed
  from first second show ?thesis by blast
qed

theorem cyclic_corrector_idempotent_witness:
  "cyclic_corrector (lat_lon_slice [0, 120, 240, 360] [Fin 1, Fin 2, Fin 3, Fin 1]) ''lon'' =
     Inr (lat_lon_slice [0, 120, 240, 360] [Fin 1, Fin 2, Fin 3, Fin 1]) \<and>
   cyclic_corrector (lat_lon_slice [0, 120, 240] [Fin 1, Fin 2, Fin 3]) ''lon'' =
     Inr (lat_lon_slice [0, 120, 240, 360] [Fin 1, Fin 2, Fin 3, Fin 1])"
proof -
  let ?c = "lat_lon_slice [0, 120, 240, 360] [Fin 1, Fin 2, Fin 3, Fin 1]"
  let ?s = "lat_lon_slice [0, 120, 240] [Fin 1, Fin 2, Fin 3]"
  have wf: "wf_dataarray ?c" "wf_dataarray ?s" by (simp_all add: eval_defs)
  have idx: "index_of ''lon'' (dims ?c) = Some 1" "index_of ''lon'' (dims ?s) = Some 1"
    by (simp_all add: eval_defs)
  have nn: "no_nan (take_axis 1 0 (elems (da_values ?c)))"
    "no_nan (take_axis 1 0 (elems (da_values ?s)))"
    by (simp_all add: eval_defs)
  have eq: "0 < shape (da_values ?c) ! 1 \<and>
            take_axis 1 0 (elems (da_values ?c)) =
              take_axis 1 (shape (da_values ?c) ! 1 - 1) (elems (da_values ?c))"
    by (simp add: eval_defs)
  have run: "cyclic_corrector ?s ''lon'' = Inr ?c" by (simp add: eval_defs)
  from cyclic_corrector_idempotent [OF wf(1) idx(1) nn(1)] eq
  have "cyclic_corrector ?c ''lon'' = Inr ?c" by blast
  moreover from cyclic_corrector_idempotent [OF wf(2) idx(2) nn(2)] run
  have "cyclic_corrector ?c ''lon'' = Inr ?c" by blast
  ultimately show ?thesis using run by simp
qed

text \<open>
  Claim C2, as the code has it. For a slice that the test finds non-cyclic, with at least
  two longitude samples and an equally spaced longitude coordinate, the corrected slice has
  one more longitude sample; the data at the new sample is the data at the first sample,
  the data at the old samples is untouched; the new coordinate value is the last one plus
  the spacing of the first two; every other coordinate, the attributes of the longitude
  coordinate and the attributes of the slice are unchanged.
\<close>

theorem cyclic_corrector_appends:
  assumes wf: "wf_dataarray da" and idx: "index_of coord (dims da) = Some k"
    and c: "map_of (coords da) coord = Some c"
    and len: "length (cvalues c) = shape (da_values da) ! k"
    and two: "2 \<le> length (cvalues c)"
    and close: "np_allclose (np_diff (cvalues c)) (cvalues c ! 1 - cvalues c ! 0)"
    and nc: "check_cyclic da coord = Inr False"
  shows "\<exists>da'. cyclic_corrector da coord = Inr da' \<and>
           dims da' = dims da \<and>
           shape (da_values da') = (shape (da_values da))[k := Suc (shape (da_values da) ! k)] \<and>
           has_shape (shape (da_values da')) (elems (da_values da')) \<and>
           (\<forall>j < shape (da_values da) ! k.
              take_axis k j (elems (da_values da')) = take_axis k j (elems (da_values da))) \<and>
           take_axis k (shape (da_values da) ! k) (elems (da_values da')) =
             take_axis k 0 (elems (da_values da)) \<and>
           map_of (coords da') coord =
             Some \<lparr>cvalues = cvalues c @ [last (cvalues c) + (cvalues c ! 1 - cvalues c ! 0)],
                   cattrs = cattrs c\<rparr> \<and>
           (\<forall>name. name \<noteq> coord \<longrightarrow> map_of (coords da') name = map_of (coords da) name) \<and>
           map fst (coords da') = map fst (coords da) \<and>
           attrs da' = attrs da"
proof -
  let ?s = "shape (da_values da)" and ?e = "elems (da_values da)"
  let ?da' = "cyclic_result da coord k c"
  have k: "k < length ?s" and hs: "has_shape ?s ?e"
    using wf index_of_SomeD[OF idx] by (simp_all add: wf_dataarray_def)
  have n: "0 < ?s ! k" using len two by simp
  have "cyclic_dataarray da coord = Inr ?da'"
    unfolding cyclic_dataarray_iff[OF wf] using idx c len two close by simp
  then have run: "cyclic_corrector da coord = Inr ?da'"
    using nc by (simp add: cyclic_corrector_def)
  have mem: "coord \<in> set (map fst (coords da))"
    using c by (metis domI dom_map_of_conv_image_fst set_map)
  have "has_shape (shape (da_values ?da')) (elems (da_values ?da'))"
    using has_shape_concat[OF hs k n] by (simp add: cyclic_result_def)
  moreover have "\<forall>j < ?s ! k. take_axis k j (elems (da_values ?da')) = take_axis k j ?e"
    using take_axis_concat_lt[OF hs k] by (simp add: cyclic_result_def)
  moreover have "take_axis k (?s ! k) (elems (da_values ?da')) = take_axis k 0 ?e"
    using take_axis_concat_last[OF hs k n] by (simp add: cyclic_result_def)
  moreover have "map fst (coords ?da') = map fst (coords da)"
    using mem by (simp add: cyclic_result_def AList.update_keys)
  ultimately show ?thesis
    using run by (intro exI[of _ ?da']) (simp add: cyclic_result_def AList.update_conv')
qed

theorem cyclic_corrector_appends_witness:
  "cyclic_corrector (lat_lon_slice [0, 90, 180, 270] [Fin 1, Fin 2, Fin 3, Fin 4]) ''lon'' =
     Inr (lat_lon_slice [0, 90, 180, 270, 360] [Fin 1, Fin 2, Fin 3, Fin 4, Fin 1])"
proof -
  let ?s = "lat_lon_slice [0, 90, 180, 270] [Fin 1, Fin 2, Fin 3, Fin 4]"
  let ?c = "\<lparr>cvalues = [0, 90, 180, 270], cattrs = [(''units'', ''degrees_east'')]\<rparr>"
  have wf: "wf_dataarray ?s" by (simp add: eval_defs)
  have idx: "index_of ''lon'' (dims ?s) = Some 1" by (simp add: eval_defs)
  have c: "map_of (coords ?s) ''lon'' = Some ?c" by (simp add: eval_defs)
  have len: "length (cvalues ?c) = shape (da_values ?s) ! 1" by (simp add: eval_defs)
  have two: "2 \<le> length (cvalues ?c)" by simp
  have close: "np_allclose (np_diff (cvalues ?c)) (cvalues ?c ! 1 - cvalues ?c ! 0)"
    by (simp add: eval_defs)
  have nc: "check_cyclic ?s ''lon'' = Inr False" by (simp add: eval_defs)
  from cyclic_corrector_appends [OF wf idx c len two close nc]
  obtain da' where "cyclic_corrector ?s ''lon'' = Inr da'" by blast
  then show ?thesis by (simp add: eval_defs)
qed

text \<open>
  The claim as it is written puts the new coordinate at the first coordinate plus 360. On a
  grid that does not span the globe the code does not: three samples 10 degrees apart get a
  fourth at 30.
\<close>

theorem cyclic_coordinate_counterexample:
  "cyclic_corrector (lat_lon_slice [0, 10, 20] [Fin 1, Fin 2, Fin 3]) ''lon'' =
     Inr (lat_lon_slice [0, 10, 20, 30] [Fin 1, Fin 2, Fin 3, Fin 1]) \<and>
   last [0, 10, 20, 30] \<noteq> hd [0, 10, 20] + (360 :: real)"
  by (simp add: eval_defs)

text \<open>
  Claim C3, as the code has it. Neither function checks the length of the longitude axis.
  With no longitude sample the index 0 is out of range and the corrector fails with an
  IndexError. With exactly one sample, holding numbers, the first and the last sample are
  the same one: the slice is found cyclic and returned unchanged, with no error.
\<close>

theorem cyclic_corrector_short_axis:
  assumes wf: "wf_dataarray da" and idx: "index_of coord (dims da) = Some k"
    and short: "shape (da_values da) ! k < 2"
  shows "(shape (da_values da) ! k = 0 \<longrightarrow> cyclic_corrector da coord = Inl IndexError) \<and>
         (shape (da_values da) ! k = 1 \<and> no_nan (take_axis k 0 (elems (da_values da)))
            \<longrightarrow> cyclic_corrector da coord = Inr da)"
proof (intro conjI impI)
  assume "shape (da_values da) ! k = 0"
  then show "cyclic_corrector da coord = Inl IndexError"
    using check_cyclic_empty[OF wf idx] by (simp add: cyclic_corrector_def)
next
  assume a: "shape (da_values da) ! k = 1 \<and> no_nan (take_axis k 0 (elems (da_values da)))"
  then have "check_cyclic da coord = Inr True"
    using check_cyclic_eq[OF wf idx] by simp
  then show "cyclic_corrector da coord = Inr da" by (simp add: cyclic_corrector_def)
qed

theorem cyclic_corrector_short_axis_witness:
  "cyclic_corrector (lat_lon_slice [] []) ''lon'' = Inl IndexError \<and>
   cyclic_corrector (lat_lon_slice [0] [Fin 5]) ''lon'' = Inr (lat_lon_slice [0] [Fin 5])"
proof -
  let ?e = "lat_lon_slice [] []" and ?o = "lat_lon_slice [0] [Fin 5]"
  have wf: "wf_dataarray ?e" "wf_dataarray ?o" by (simp_all add: eval_defs)
  have idx: "index_of ''lon'' (dims ?e) = Some 1" "index_of ''lon'' (dims ?o) = Some 1"
    by (simp_all add: eval_defs)
  have short: "shape (da_values ?e) ! 1 < 2" "shape (da_values ?o) ! 1 < 2"
    by (simp_all add: eval_defs)
  have "shape (da_values ?e) ! 1 = 0" by (simp add: eval_defs)
  with cyclic_corrector_short_axis [OF wf(1) idx(1) short(1)]
  have a: "cyclic_corrector ?e ''lon'' = Inl IndexError" by blast
  have "shape (da_values ?o) ! 1 = 1 \<and> no_nan (take_axis 1 0 (elems (da_values ?o)))"
    by (simp add: eval_defs)
  with cyclic_corrector_short_axis [OF wf(2) idx(2) short(2)]
  have b: "cyclic_corrector ?o ''lon'' = Inr ?o" by blast
  from a b show ?thesis by simp
qed

text \<open>
  The claim as it is written asks for an error on every slice with fewer than two longitude
  samples. A slice with one sample goes through silently.
\<close>

theorem single_sample_counterexample:
  "shape (da_values (lat_lon_slice [0] [Fin 5])) ! 1 < 2 \<and>
   cyclic_corrector (lat_lon_slice [0] [Fin 5]) ''lon'' = Inr (lat_lon_slice [0] [Fin 5])"
  by (simp add: eval_defs)

section \<open>The map renderer\<close>

text \<open>
  Claim C9. A call of \<open>geo_plot\<close> with a method name other than \<^verbatim>\<open>pcolormesh\<close>,
  \<^verbatim>\<open>pcolor\<close> and \<^verbatim>\<open>contourf\<close> raises ValueError before anything else happens: the
  result carries no event at all. In the time loop such a name can only arrive through the
  cached settings of the variable; then the body of the loop stops with an exception and
  saves no image for that time slice.
\<close>

theorem geo_plot_unknown_method:
  assumes "m \<notin> {''pcolormesh'', ''pcolor'', ''contourf''}"
  shows "geo_plot penv darray ax (PStr m) projection grid kwargs = raise_run ValueError \<and>
         (map_of var_cmap_kwargs ''method'' = Some (PStr m) \<longrightarrow>
            (\<exists>e. fst (plot_timeslice env v var var_cmap_kwargs slice) = Inl e) \<and>
            saved_figures (snd (plot_timeslice env v var var_cmap_kwargs slice)) = [])"
proof (intro conjI impI)
  show g: "geo_plot penv darray ax (PStr m) projection grid kwargs = raise_run ValueError"
    for penv darray ax projection grid kwargs
    using assms by (simp add: geo_plot_def PLOTTYPE_ARGS_def)
  assume meth: "map_of var_cmap_kwargs ''method'' = Some (PStr m)"
  obtain time plot_data where slice: "slice = (time, plot_data)" by (cases slice)
  have call: "\<exists>e. call_geo_plot (plotting env) d a var_cmap_kwargs = raise_run e" for d a
    by (auto simp: call_geo_plot_def meth g)
  show "\<exists>e. fst (plot_timeslice env v var var_cmap_kwargs slice) = Inl e"
  proof (cases "cyclic_corrector plot_data ''lon''")
    case (Inl e)
    then show ?thesis by (simp add: plot_timeslice_def slice)
  next
    case (Inr d)
    from call obtain e where "call_geo_plot (plotting env) d
        \<lparr>has_projection = True, labels_supported = True\<rparr> var_cmap_kwargs = raise_run e" by blast
    then show ?thesis by (simp add: plot_timeslice_def slice Inr)
  qed
  show "saved_figures (snd (plot_timeslice env v var var_cmap_kwargs slice)) = []"
  proof (cases "cyclic_corrector plot_data ''lon''")
    case (Inl e)
    then show ?thesis by (simp add: plot_timeslice_def slice)
  next
    case (Inr d)
    from call obtain e where "call_geo_plot (plotting env) d
        \<lparr>has_projection = True, labels_supported = True\<rparr> var_cmap_kwargs = raise_run e" by blast
    then show ?thesis by (simp add: plot_timeslice_def slice Inr)
  qed
qed

theorem geo_plot_unknown_method_witness:
  "geo_plot demo_plot_env (lat_lon_slice [0, 180] [Fin 1, Fin 2]) None (PStr ''scatterplot'')
     (PStr ''PlateCarree'') (PBool False) [] = raise_run ValueError \<and>
   fst (plot_timeslice (demo_env (demo_dataset ''lat'' ''lon'') None) ''temperature''
          (field_variable ''lat'' ''lon'' [Fin 1, Fin 2])
          [(''vmin'', PNum 0), (''method'', PStr ''scatterplot'')]
          (demo_time 6, lat_lon_slice [0, 180] [Fin 1, Fin 2])) = Inl (Raised ValueError) \<and>
   saved_figures (snd (plot_timeslice (demo_env (demo_dataset ''lat'' ''lon'') None) ''temperature''
          (field_variable ''lat'' ''lon'' [Fin 1, Fin 2])
          [(''vmin'', PNum 0), (''method'', PStr ''scatterplot'')]
          (demo_time 6, lat_lon_slice [0, 180] [Fin 1, Fin 2]))) = []"
proof -
  let ?kw = "[(''vmin'', PNum 0), (''method'', PStr ''scatterplot'')]"
  let ?run = "plot_timeslice (demo_env (demo_dataset ''lat'' ''lon'') None) ''temperature''
          (field_variable ''lat'' ''lon'' [Fin 1, Fin 2]) ?kw
          (demo_time 6, lat_lon_slice [0, 180] [Fin 1, Fin 2])"
  have m: "''scatterplot'' \<notin> {''pcolormesh'', ''pcolor'', ''contourf''}" by simp
  have k: "map_of ?kw ''method'' = Some (PStr ''scatterplot'')" by simp
  note t = geo_plot_unknown_method [OF m, of _ _ _ _ _ _ ?kw]
  from t [of demo_plot_env "lat_lon_slice [0, 180] [Fin 1, Fin 2]" None "PStr ''PlateCarree''"
      "PBool False" "[]"]
  have a: "geo_plot demo_plot_env (lat_lon_slice [0, 180] [Fin 1, Fin 2]) None
      (PStr ''scatterplot'') (PStr ''PlateCarree'') (PBool False) [] = raise_run ValueError"
    by blast
  from t k have b: "saved_figures (snd ?run) = []" by blast
  have c: "fst ?run = Inl (Raised ValueError)" by code_simp
  from a b c show ?thesis by simp
qed

section \<open>Colormap parameters and the colormap file\<close>




text \<open>
  Claim C10. A variable that is not a dimension gets its entry from
  \<^verbatim>\<open>_determine_cmap_params(data)\<close> with the default arguments when it is missing from a
  loaded colormap file, and from
  \<^verbatim>\<open>_determine_cmap_params(data, levels=21, robust=True, extend='both')\<close> when no colormap
  file is given: in either case the resolution returns when these calls return for the
  variables they are made for, and whenever it returns the entry of the variable is what
  the call with these arguments on the data of the variable returned. The two calls differ
  in all three arguments, so the two entries of one variable can differ, as they do for the
  inference of the example, which records its arguments.
\<close>

theorem fallback_uses_default_inference:
  assumes d: "distinct (map fst (ds_variables ds))"
    and x: "(X, var) \<in> set (ds_variables ds)"
    and nd: "X \<notin> set (ds_dims ds)"
  shows "(\<forall>cf loaded. colorfile args = Some cf \<and> load_colorfile env cf = Inr loaded \<and>
                      X \<notin> fst ` set loaded \<longrightarrow>
            (infer_ok (plotting env) \<lparr>cm_levels = None, cm_robust = False, cm_extend = None\<rparr>
               (missing_vars (ds_dims ds) loaded (ds_variables ds)) \<longrightarrow>
             (\<exists>color_data evs. resolve_colors env args ds = (Inr color_data, evs))) \<and>
            (\<forall>color_data evs.
               resolve_colors env args ds = (Inr color_data, evs) \<longrightarrow>
               (\<exists>kw. determine_cmap_params (plotting env)
                       \<lparr>cm_levels = None, cm_robust = False, cm_extend = None\<rparr>
                       (var_array var) = Inr kw \<and>
                     map_of color_data X = Some kw))) \<and>
         (colorfile args = None \<longrightarrow>
            (infer_ok (plotting env)
               \<lparr>cm_levels = Some 21, cm_robust = True, cm_extend = Some ''both''\<rparr>
               (nondim_vars (ds_dims ds) (ds_variables ds)) \<longrightarrow>
             (\<exists>color_data evs. resolve_colors env args ds = (Inr color_data, evs))) \<and>
            (\<forall>color_data evs.
               resolve_colors env args ds = (Inr color_data, evs) \<longrightarrow>
               (\<exists>kw. determine_cmap_params (plotting env)
                       \<lparr>cm_levels = Some 21, cm_robust = True, cm_extend = Some ''both''\<rparr>
                       (var_array var) = Inr kw \<and>
                     map_of color_data X = Some kw)))"
proof (intro conjI allI impI)
  fix cf loaded
  assume a: "colorfile args = Some cf \<and> load_colorfile env cf = Inr loaded \<and>
             X \<notin> fst ` set loaded"
  assume "infer_ok (plotting env) \<lparr>cm_levels = None, cm_robust = False, cm_extend = None\<rparr>
            (missing_vars (ds_dims ds) loaded (ds_variables ds))"
  then have ok: "infer_ok (plotting env) default_cmap_args
            (missing_vars (ds_dims ds) loaded (ds_variables ds))"
    by (simp add: default_cmap_args_def)
  show "\<exists>color_data evs. resolve_colors env args ds = (Inr color_data, evs)"
    using a by (simp add: resolve_colors_def infer_missing_result[OF d ok])
next
  fix cf loaded color_data evs
  assume a: "colorfile args = Some cf \<and> load_colorfile env cf = Inr loaded \<and>
             X \<notin> fst ` set loaded"
  assume res: "resolve_colors env args ds = (Inr color_data, evs)"
  let ?miss = "missing_vars (ds_dims ds) loaded (ds_variables ds)"
  let ?g = "inferred (plotting env) default_cmap_args"
  have lc: "loaded_colors env args = loaded" "branch_cmap_args args = default_cmap_args"
    using a by (simp_all add: loaded_colors_def branch_cmap_args_def)
  from resolve_colors_result[OF d res]
  have ok: "infer_ok (plotting env) default_cmap_args ?miss"
    and cd: "color_data = fold (\<lambda>(v, var). AList.update v (?g var)) ?miss loaded"
    unfolding lc by blast+
  have dm: "distinct (map fst ?miss)"
    using d unfolding missing_vars_def by (rule distinct_map_filter)
  have xm: "(X, var) \<in> set ?miss" using x nd a by (simp add: missing_vars_def)
  have "determine_cmap_params (plotting env) default_cmap_args (var_array var) = Inr (?g var)"
    using ok xm by (rule infer_ok_mem)
  moreover have "map_of color_data X = Some (?g var)"
    unfolding cd using dm xm by (rule map_of_fold_update_mem)
  ultimately show "\<exists>kw. determine_cmap_params (plotting env)
                       \<lparr>cm_levels = None, cm_robust = False, cm_extend = None\<rparr>
                       (var_array var) = Inr kw \<and>
                     map_of color_data X = Some kw"
    by (simp add: default_cmap_args_def)
next
  assume a: "colorfile args = None"
  assume "infer_ok (plotting env)
            \<lparr>cm_levels = Some 21, cm_robust = True, cm_extend = Some ''both''\<rparr>
            (nondim_vars (ds_dims ds) (ds_variables ds))"
  then have ok: "infer_ok (plotting env) batch_cmap_args
            (nondim_vars (ds_dims ds) (ds_variables ds))"
    by (simp add: batch_cmap_args_def)
  show "\<exists>color_data evs. resolve_colors env args ds = (Inr color_data, evs)"
    using a by (simp add: resolve_colors_def infer_all_result[OF ok])
next
  fix color_data evs
  assume a: "colorfile args = None"
  assume res: "resolve_colors env args ds = (Inr color_data, evs)"
  let ?nd = "nondim_vars (ds_dims ds) (ds_variables ds)"
  let ?g = "inferred (plotting env) batch_cmap_args"
  have lc: "loaded_colors env args = []" "branch_cmap_args args = batch_cmap_args"
    using a by (simp_all add: loaded_colors_def branch_cmap_args_def)
  have mv: "missing_vars (ds_dims ds) [] (ds_variables ds) = ?nd"
    by (simp add: missing_vars_def nondim_vars_def)
  from resolve_colors_result[OF d res]
  have ok: "infer_ok (plotting env) batch_cmap_args ?nd"
    and cd: "color_data = fold (\<lambda>(v, var). AList.update v (?g var)) ?nd []"
    unfolding lc mv by blast+
  have dm: "distinct (map fst ?nd)"
    using d unfolding nondim_vars_def by (rule distinct_map_filter)
  have xm: "(X, var) \<in> set ?nd" using x nd by (simp add: nondim_vars_def)
  have "determine_cmap_params (plotting env) batch_cmap_args (var_array var) = Inr (?g var)"
    using ok xm by (rule infer_ok_mem)
  moreover have "map_of color_data X = Some (?g var)"
    unfolding cd using dm xm by (rule map_of_fold_update_mem)
  ultimately show "\<exists>kw. determine_cmap_params (plotting env)
                       \<lparr>cm_levels = Some 21, cm_robust = True, cm_extend = Some ''both''\<rparr>
                       (var_array var) = Inr kw \<and>
                     map_of color_data X = Some kw"
    by (simp add: batch_cmap_args_def)
qed

theorem fallback_uses_default_inference_witness:
  "fst (resolve_colors (demo_env (demo_dataset ''lat'' ''lon'') (Some []))
          (demo_args (Some ''old.cf'') False) (demo_dataset ''lat'' ''lon'')) =
     Inr [(''temperature'', [(''vmin'', PNum 0), (''vmax'', PNum 1), (''levels'', PNone),
                             (''extend'', PStr ''neither'')]),
          (''pressure'', [(''vmin'', PNum 0), (''vmax'', PNum 1), (''levels'', PNone),
                          (''extend'', PStr ''neither'')])] \<and>
   fst (resolve_colors (demo_env (demo_dataset ''lat'' ''lon'') None)
          (demo_args None False) (demo_dataset ''lat'' ''lon'')) =
     Inr [(''temperature'', [(''vmin'', PNum 0), (''vmax'', PNum 1), (''levels'', PNum 21),
                             (''extend'', PStr ''both'')]),
          (''pressure'', [(''vmin'', PNum 0), (''vmax'', PNum 1), (''levels'', PNum 21),
                          (''extend'', PStr ''both'')])] \<and>
   determine_cmap_params (plotting (demo_env (demo_dataset ''lat'' ''lon'') (Some [])))
     \<lparr>cm_levels = None, cm_robust = False, cm_extend = None\<rparr>
     (var_array (field_variable ''lat'' ''lon'' [Fin 1, Fin 2])) =
     Inr [(''vmin'', PNum 0), (''vmax'', PNum 1), (''levels'', PNone),
          (''extend'', PStr ''neither'')] \<and>
   determine_cmap_params (plotting (demo_env (demo_dataset ''lat'' ''lon'') None))
     \<lparr>cm_levels = Some 21, cm_robust = True, cm_extend = Some ''both''\<rparr>
     (var_array (field_variable ''lat'' ''lon'' [Fin 1, Fin 2])) =
     Inr [(''vmin'', PNum 0), (''vmax'', PNum 1), (''levels'', PNum 21),
          (''extend'', PStr ''both'')]"
proof -
  let ?ds = "demo_dataset ''lat'' ''lon''"
  let ?var = "field_variable ''lat'' ''lon'' [Fin 1, Fin 2]"
  let ?a1 = "demo_args (Some ''old.cf'') False" and ?e1 = "demo_env ?ds (Some [])"
  let ?a2 = "demo_args None False" and ?e2 = "demo_env ?ds None"
  have d: "distinct (map fst (ds_variables ?ds))" by (simp add: demo_dataset_def)
  have x: "(''temperature'', ?var) \<in> set (ds_variables ?ds)" by (simp add: demo_dataset_def)
  have nd: "''temperature'' \<notin> set (ds_dims ?ds)"
    by (simp add: demo_dataset_def ds_dims_def field_variable_def coord_variable_def)
  note t = fallback_uses_default_inference [OF d x nd]
  have h1: "colorfile ?a1 = Some ''old.cf'' \<and> load_colorfile ?e1 ''old.cf'' = Inr [] \<and>
        ''temperature'' \<notin> fst ` set ([] :: color_data)"
    by (simp add: demo_args_def demo_env_def)
  have ok1: "infer_ok (plotting ?e1) \<lparr>cm_levels = None, cm_robust = False, cm_extend = None\<rparr>
               (missing_vars (ds_dims ?ds) [] (ds_variables ?ds))"
    by code_simp
  have h2: "colorfile ?a2 = None" by (simp add: demo_args_def)
  have ok2: "infer_ok (plotting ?e2)
               \<lparr>cm_levels = Some 21, cm_robust = True, cm_extend = Some ''both''\<rparr>
               (nondim_vars (ds_dims ?ds) (ds_variables ?ds))"
    by code_simp
  have r1: "fst (resolve_colors ?e1 ?a1 ?ds) =
     Inr [(''temperature'', [(''vmin'', PNum 0), (''vmax'', PNum 1), (''levels'', PNone),
                             (''extend'', PStr ''neither'')]),
          (''pressure'', [(''vmin'', PNum 0), (''vmax'', PNum 1), (''levels'', PNone),
                          (''extend'', PStr ''neither'')])]"
    by code_simp
  have r2: "fst (resolve_colors ?e2 ?a2 ?ds) =
     Inr [(''temperature'', [(''vmin'', PNum 0), (''vmax'', PNum 1), (''levels'', PNum 21),
                             (''extend'', PStr ''both'')]),
          (''pressure'', [(''vmin'', PNum 0), (''vmax'', PNum 1), (''levels'', PNum 21),
                          (''extend'', PStr ''both'')])]"
    by code_simp
  from t [of ?a1 ?e1] h1 ok1
  obtain cd1 ev1 where run1: "resolve_colors ?e1 ?a1 ?ds = (Inr cd1, ev1)" by blast
  with t [of ?a1 ?e1] h1
  obtain kw1 where k1: "determine_cmap_params (plotting ?e1)
        \<lparr>cm_levels = None, cm_robust = False, cm_extend = None\<rparr> (var_array ?var) = Inr kw1"
      and m1: "map_of cd1 ''temperature'' = Some kw1"
    by blast
  from run1 r1 have "cd1 = [(''temperature'', [(''vmin'', PNum 0), (''vmax'', PNum 1),
                              (''levels'', PNone), (''extend'', PStr ''neither'')]),
          (''pressure'', [(''vmin'', PNum 0), (''vmax'', PNum 1), (''levels'', PNone),
                          (''extend'', PStr ''neither'')])]"
    by simp
  with m1 have kw1: "kw1 = [(''vmin'', PNum 0), (''vmax'', PNum 1), (''levels'', PNone),
                             (''extend'', PStr ''neither'')]"
    by simp
  from t [of ?a2 ?e2] h2 ok2
  obtain cd2 ev2 where run2: "resolve_colors ?e2 ?a2 ?ds = (Inr cd2, ev2)" by blast
  with t [of ?a2 ?e2] h2
  obtain kw2 where k2: "determine_cmap_params (plotting ?e2)
        \<lparr>cm_levels = Some 21, cm_robust = True, cm_extend = Some ''both''\<rparr> (var_array ?var) =
        Inr kw2"
      and m2: "map_of cd2 ''temperature'' = Some kw2"
    by blast
  from run2 r2 have "cd2 = [(''temperature'', [(''vmin'', PNum 0), (''vmax'', PNum 1),
                              (''levels'', PNum 21), (''extend'', PStr ''both'')]),
          (''pressure'', [(''vmin'', PNum 0), (''vmax'', PNum 1), (''levels'', PNum 21),
                          (''extend'', PStr ''both'')])]"
    by simp
  with m2 have kw2: "kw2 = [(''vmin'', PNum 0), (''vmax'', PNum 1), (''levels'', PNum 21),
                             (''extend'', PStr ''both'')]"
    by simp
  from r1 r2 k1 k2 show ?thesis unfolding kw1 kw2 by blast
qed
text \<open>
  Claim C6. When a colormap file is requested and opening it raises an OSError (the file is
  missing or unreadable), the process ends with status 1 and writes neither a colormap file
  nor an image; and once the input file has been opened and its dimensions coerced, so that
  the colormap file is reached, the script stops through \<^verbatim>\<open>sys.exit(1)\<close> and the last line
  it prints is the message that names the colormap file.
\<close>

theorem unreadable_colorfile_exits:
  assumes cf: "colorfile args = Some cf" and load: "load_colorfile env cf = Inl OSError"
  shows "exit_status (main env args) = 1 \<and>
         written_colorfiles (snd (main env args)) = [] \<and>
         saved_figures (snd (main env args)) = [] \<and>
         (\<forall>ds0 ds. open_dataset env (nc_file args) = Inr ds0 \<and> coerce_dims ds0 = Inr ds \<longrightarrow>
            fst (main env args) = Inl (Exit 1) \<and>
            last (snd (main env args)) =
              Print (''Could not open colorfile '' @ [CHR 0x27] @ cf @ [CHR 0x27]))"
proof -
  have res: "resolve_colors env args ds =
      (Inl (Exit 1), [Print (''Could not open colorfile '' @ [CHR 0x27] @ cf @ [CHR 0x27])])" for ds
    by (simp add: resolve_colors_def cf load exit_run_def)
  let ?r = "read_dataset env (nc_file args)"
  have out: "list_all is_output (snd (main env args)) \<and> exit_status (main env args) = 1 \<and>
        (\<forall>ds0 ds. open_dataset env (nc_file args) = Inr ds0 \<and> coerce_dims ds0 = Inr ds \<longrightarrow>
            fst (main env args) = Inl (Exit 1) \<and>
            last (snd (main env args)) =
              Print (''Could not open colorfile '' @ [CHR 0x27] @ cf @ [CHR 0x27]))"
  proof (cases "open_dataset env (nc_file args)")
    case (Inl e)
    let ?ab = "if e = RuntimeError then Exit 1 else Raised e"
    obtain ev where r: "?r = (Inl ?ab, ev)"
      using read_dataset_Inl[OF Inl] by (cases ?r) auto
    have ev: "list_all is_output ev" using read_dataset_output[of env "nc_file args"] r
      by (metis snd_conv)
    have "main env args = (Inl ?ab, ev)"
      unfolding main_def r by simp
    then show ?thesis using ev Inl
      by (auto simp: exit_status_def)
  next
    case (Inr ds0)
    note rd = read_dataset_Inr[OF Inr]
    obtain ev where r: "?r = (Inr ds0, ev)" using rd by (cases ?r) auto
    have ev: "list_all is_output ev" using read_dataset_output[of env "nc_file args"] r
      by (metis snd_conv)
    show ?thesis
    proof (cases "coerce_dims ds0")
      case (Inl e)
      then have "main env args = (Inl (Raised e), ev)"
        unfolding main_def r by (simp add: raise_run_def)
      then show ?thesis using ev Inr Inl by (simp add: exit_status_def)
    next
      case (Inr ds)
      have "main env args =
          (Inl (Exit 1), ev @ [Print (''Could not open colorfile '' @ [CHR 0x27] @ cf @ [CHR 0x27])])"
        unfolding main_def r by (simp add: Inr res)
      then show ?thesis using ev Inr \<open>open_dataset env (nc_file args) = Inr ds0\<close>
        by (simp add: exit_status_def)
    qed
  qed
  then show ?thesis
    using no_file_saved_figures[OF output_no_file] no_file_written_colorfiles[OF output_no_file]
    by blast
qed

theorem unreadable_colorfile_exits_witness:
  "exit_status (main (demo_env (demo_dataset ''lat'' ''lon'') None)
                  (demo_args (Some ''old.cf'') False)) = 1 \<and>
   fst (main (demo_env (demo_dataset ''lat'' ''lon'') None)
          (demo_args (Some ''old.cf'') False)) = Inl (Exit 1) \<and>
   last (snd (main (demo_env (demo_dataset ''lat'' ''lon'') None)
                (demo_args (Some ''old.cf'') False))) =
     Print (''Could not open colorfile '' @ [CHR 0x27] @ ''old.cf'' @ [CHR 0x27])"
proof -
  let ?ds = "demo_dataset ''lat'' ''lon''"
  let ?env = "demo_env ?ds None" and ?args = "demo_args (Some ''old.cf'') False"
  have cf: "colorfile ?args = Some ''old.cf''" by (simp add: demo_args_def)
  have load: "load_colorfile ?env ''old.cf'' = Inl OSError" by (simp add: demo_env_def)
  have op: "open_dataset ?env (nc_file ?args) = Inr ?ds"
    by (simp add: demo_env_def demo_args_def)
  have co: "coerce_dims ?ds = Inr ?ds"
    by (simp add: coerce_dims_def in_dataset_def demo_dataset_def)
  from unreadable_colorfile_exits [OF cf load] op co show ?thesis by blast
qed

text \<open>
  Claim C7, as the code has it. In a run with the sample flag that reaches its end, the
  image files are, in the order of the variables, those of the variables that the variable
  loop does not skip: one for each of them that has a time slice, named
  \<^verbatim>\<open><variable>_<MMDDYYYY_HHMMZ>.png\<close> after the variable and its first time stamp, and none
  for a variable without a time slice. The time slices of every such variable could be
  formed.
\<close>

theorem sample_images_first_timestamp:
  assumes smp: "sample args" and ok: "fst (main env args) = Inr ()"
    and op: "open_dataset env (nc_file args) = Inr ds0" and co: "coerce_dims ds0 = Inr ds"
    and ts: "list_all (\<lambda>(v, var). case first_timestamp var of
                                       None \<Rightarrow> True
                                     | Some time \<Rightarrow> valid_timestamp time) (plotted_vars ds)"
  shows "saved_figures (snd (main env args)) = concat (map sample_image (plotted_vars ds)) \<and>
         length (saved_figures (snd (main env args))) =
           length (filter (\<lambda>(v, var). first_timestamp var \<noteq> None) (plotted_vars ds))"
proof -
  from main_success[OF ok op co] obtain cd ev1
    where res: "resolve_colors env args ds = (Inr cd, ev1)"
      and loop: "fst (for_each (plot_variable env args ds cd) (ds_variables ds)) = Inr ()"
      and evs: "snd (main env args) =
           (snd (read_dataset env (nc_file args)) @ ev1 @ [Print ''Saving colormap data'']) @
           WriteColorfile (fst (splitext (nc_file args)) @ ''.cf'') cd #
           (Print (repr_dataset env ds) #
            snd (for_each (plot_variable env args ds cd) (ds_variables ds)))"
    by blast
  have "list_all is_output ev1" using resolve_colors_output[of env args ds] res by simp
  then have "saved_figures ev1 = []"
    by (intro no_file_saved_figures output_no_file)
  moreover have "saved_figures (snd (read_dataset env (nc_file args))) = []"
    by (intro no_file_saved_figures output_no_file read_dataset_output)
  ultimately have "saved_figures (snd (main env args)) =
      concat (map first_image (plotted_vars ds))"
    unfolding evs using for_each_sample_figures[OF smp loop]
    by (simp add: plotted_vars_def)
  also have "map first_image (plotted_vars ds) = map sample_image (plotted_vars ds)"
    using ts by (intro map_cong refl) (auto simp: list_all_iff intro: first_image_sample_image)
  finally have a: "saved_figures (snd (main env args)) =
      concat (map sample_image (plotted_vars ds))" .
  then show ?thesis by (simp add: length_sample_images)
qed

theorem sample_images_first_timestamp_witness:
  "saved_figures (snd (main (demo_env (demo_dataset ''lat'' ''lon'') None) (demo_args None True))) =
     [''temperature_11282016_0600Z.png'', ''pressure_11282016_0600Z.png'']"
proof -
  let ?ds = "demo_dataset ''lat'' ''lon''"
  let ?env = "demo_env ?ds None" and ?args = "demo_args None True"
  have smp: "sample ?args" by (simp add: demo_args_def)
  have op: "open_dataset ?env (nc_file ?args) = Inr ?ds"
    by (simp add: demo_env_def demo_args_def)
  have co: "coerce_dims ?ds = Inr ?ds"
    by (simp add: coerce_dims_def in_dataset_def demo_dataset_def)
  have ts: "list_all (\<lambda>(v, var). case first_timestamp var of
                                     None \<Rightarrow> True
                                   | Some time \<Rightarrow> valid_timestamp time) (plotted_vars ?ds)"
    by code_simp
  have r: "concat (map sample_image (plotted_vars ?ds)) =
          [''temperature_11282016_0600Z.png'', ''pressure_11282016_0600Z.png'']"
    by code_simp
  from sample_images_first_timestamp [OF smp demo_sample_run_ok op co ts]
  have "saved_figures (snd (main ?env ?args)) = concat (map sample_image (plotted_vars ?ds))"
    by (rule conjunct1)
  then show ?thesis unfolding r .
qed

text \<open>
  The claim as it is written has one image for every plotted variable. In a file whose
  time dimension has length zero no variable has a time slice: with a colormap file that
  has an entry for either field, the run with the sample flag reaches its end, the variable
  loop skips neither field, and no image is written.
\<close>

theorem sample_without_time_slice_counterexample:
  "sample (demo_args (Some ''old.cf'') True) \<and>
   fst (main (demo_env empty_time_dataset
                (Some [(''temperature'', [(''vmin'', PNum 0), (''vmax'', PNum 1)]),
                       (''pressure'', [(''vmin'', PNum 0), (''vmax'', PNum 1)])]))
          (demo_args (Some ''old.cf'') True)) = Inr () \<and>
   map fst (plotted_vars empty_time_dataset) = [''temperature'', ''pressure''] \<and>
   saved_figures
     (snd (main (demo_env empty_time_dataset
                   (Some [(''temperature'', [(''vmin'', PNum 0), (''vmax'', PNum 1)]),
                          (''pressure'', [(''vmin'', PNum 0), (''vmax'', PNum 1)])]))
             (demo_args (Some ''old.cf'') True))) = []"
  by code_simp
text \<open>
  Claim C5, as the code has it. The colormap file is not written at the end of the run: in
  a run that reaches its end it is written once, after the colormap parameters are resolved
  and before the variable loop, so before any image. Up to that point the run has only
  printed and warned. The file is named after the input file, with the extension of the
  input replaced by \<^verbatim>\<open>.cf\<close>. Its content has exactly the entries of the loaded mapping
  (none without a colormap file) and one entry for every variable of the dataset that is
  not a dimension: the loaded entries as they were loaded, the others what the inference
  returned with the arguments of the branch taken.
\<close>

theorem colorfile_saved_before_plotting:
  assumes ok: "fst (main env args) = Inr ()"
    and op: "open_dataset env (nc_file args) = Inr ds0" and co: "coerce_dims ds0 = Inr ds"
    and d: "distinct (map fst (ds_variables ds))"
  shows "\<exists>color_data pre post.
           snd (main env args) =
             pre @ WriteColorfile (fst (splitext (nc_file args)) @ ''.cf'') color_data # post \<and>
           list_all is_output pre \<and>
           written_colorfiles post = [] \<and>
           fst ` set color_data =
             fst ` set (loaded_colors env args) \<union>
             {v \<in> fst ` set (ds_variables ds). v \<notin> set (ds_dims ds)} \<and>
           (\<forall>k \<in> fst ` set (loaded_colors env args).
              map_of color_data k = map_of (loaded_colors env args) k) \<and>
           (\<forall>(v, var) \<in> set (ds_variables ds).
              v \<notin> set (ds_dims ds) \<and> v \<notin> fst ` set (loaded_colors env args) \<longrightarrow>
              (\<exists>kw. determine_cmap_params (plotting env) (branch_cmap_args args)
                      (var_array var) = Inr kw \<and>
                    map_of color_data v = Some kw))"
proof -
  from main_success[OF ok op co] obtain cd ev1
    where res: "resolve_colors env args ds = (Inr cd, ev1)"
      and evs: "snd (main env args) =
           (snd (read_dataset env (nc_file args)) @ ev1 @ [Print ''Saving colormap data'']) @
           WriteColorfile (fst (splitext (nc_file args)) @ ''.cf'') cd #
           (Print (repr_dataset env ds) #
            snd (for_each (plot_variable env args ds cd) (ds_variables ds)))"
    by blast
  let ?loaded = "loaded_colors env args"
  let ?miss = "missing_vars (ds_dims ds) ?loaded (ds_variables ds)"
  let ?g = "inferred (plotting env) (branch_cmap_args args)"
  from resolve_colors_result[OF d res]
  have inf: "infer_ok (plotting env) (branch_cmap_args args) ?miss"
    and cd: "cd = fold (\<lambda>(v, var). AList.update v (?g var)) ?miss ?loaded"
    by blast+
  have dm: "distinct (map fst ?miss)"
    using d unfolding missing_vars_def by (rule distinct_map_filter)
  have "list_all is_output ev1" using resolve_colors_output[of env args ds] res by simp
  then have pre: "list_all is_output
      (snd (read_dataset env (nc_file args)) @ ev1 @ [Print ''Saving colormap data''])"
    using read_dataset_output[of env "nc_file args"] by simp
  have post: "written_colorfiles (Print (repr_dataset env ds) #
            snd (for_each (plot_variable env args ds cd) (ds_variables ds))) = []"
    using for_each_no_colorfile[of "plot_variable env args ds cd" "ds_variables ds"]
    by (simp add: plot_variable_no_colorfile)
  have keys: "fst ` set cd =
      fst ` set ?loaded \<union> {v \<in> fst ` set (ds_variables ds). v \<notin> set (ds_dims ds)}"
    unfolding cd keys_fold_update by (force simp: missing_vars_def)
  have keep: "map_of cd k = map_of ?loaded k" if "k \<in> fst ` set ?loaded" for k
  proof -
    from that have "k \<notin> fst ` set ?miss" by (force simp: missing_vars_def)
    then show ?thesis unfolding cd by (rule map_of_fold_update_other)
  qed
  have fresh: "\<exists>kw. determine_cmap_params (plotting env) (branch_cmap_args args)
                     (var_array var) = Inr kw \<and>
                   map_of cd v = Some kw"
    if "(v, var) \<in> set (ds_variables ds)" "v \<notin> set (ds_dims ds)" "v \<notin> fst ` set ?loaded"
    for v var
  proof -
    from that have m: "(v, var) \<in> set ?miss" by (simp add: missing_vars_def)
    with dm have "map_of cd v = Some (?g var)" unfolding cd by (rule map_of_fold_update_mem)
    moreover from inf m
    have "determine_cmap_params (plotting env) (branch_cmap_args args) (var_array var) =
          Inr (?g var)"
      by (rule infer_ok_mem)
    ultimately show ?thesis by blast
  qed
  from evs pre post keys keep fresh show ?thesis by blast
qed

theorem colorfile_saved_before_plotting_witness:
  "written_colorfiles
     (snd (main (demo_env (demo_dataset ''lat'' ''lon'') None) (demo_args None True))) =
     [(''demo.cf'',
       [(''temperature'', [(''vmin'', PNum 0), (''vmax'', PNum 1), (''levels'', PNum 21),
                           (''extend'', PStr ''both'')]),
        (''pressure'', [(''vmin'', PNum 0), (''vmax'', PNum 1), (''levels'', PNum 21),
                        (''extend'', PStr ''both'')])])]"
proof -
  let ?ds = "demo_dataset ''lat'' ''lon''"
  let ?env = "demo_env ?ds None" and ?args = "demo_args None True"
  have op: "open_dataset ?env (nc_file ?args) = Inr ?ds"
    by (simp add: demo_env_def demo_args_def)
  have co: "coerce_dims ?ds = Inr ?ds"
    by (simp add: coerce_dims_def in_dataset_def demo_dataset_def)
  have d: "distinct (map fst (ds_variables ?ds))" by (simp add: demo_dataset_def)
  have r: "written_colorfiles (snd (main ?env ?args)) =
     [(''demo.cf'',
       [(''temperature'', [(''vmin'', PNum 0), (''vmax'', PNum 1), (''levels'', PNum 21),
                           (''extend'', PStr ''both'')]),
        (''pressure'', [(''vmin'', PNum 0), (''vmax'', PNum 1), (''levels'', PNum 21),
                        (''extend'', PStr ''both'')])])]"
    by code_simp
  show ?thesis
    using colorfile_saved_before_plotting [OF demo_sample_run_ok op co d] by - (rule r)
qed

text \<open>
  The claim as it is written has the colormap file saved at the end of the run. In the run
  of the example both images are saved after the colormap file, and the last thing the run
  does is close a figure.
\<close>

theorem colorfile_not_last_counterexample:
  "fst (main (demo_env (demo_dataset ''lat'' ''lon'') None) (demo_args None True)) = Inr () \<and>
   saved_figures (after_colorfile
     (snd (main (demo_env (demo_dataset ''lat'' ''lon'') None) (demo_args None True)))) =
     [''temperature_11282016_0600Z.png'', ''pressure_11282016_0600Z.png''] \<and>
   last (snd (main (demo_env (demo_dataset ''lat'' ''lon'') None) (demo_args None True))) =
     CloseFig"
  by code_simp

section \<open>Dimension names\<close>

text \<open>
  Claim C8. For a dataset as xray builds it, once \<open>coerce_dims\<close> has returned: a dimension
  named \<^verbatim>\<open>longitude\<close> (\<^verbatim>\<open>latitude\<close>) in the file is named \<^verbatim>\<open>lon\<close> (\<^verbatim>\<open>lat\<close>), and no
  dimension carries an old name; every variable and every time slice is the renamed one;
  and what the time loop does with the name \<^verbatim>\<open>lon\<close> concerns the dimension that had the
  longitude name in the file: the cyclic check and correction of a renamed slice along
  \<^verbatim>\<open>lon\<close> are those of the original slice along its own longitude name, renamed, and the
  renderer's \<^verbatim>\<open>darray.lon\<close> and \<^verbatim>\<open>darray.lat\<close> are the coordinates that the file had
  under its own names.
\<close>

theorem coerce_dims_renames:
  assumes wf: "wf_dataset ds" and ok: "coerce_dims ds = Inr ds'"
  shows "(''longitude'' \<in> set (ds_dims ds) \<longrightarrow> ''lon'' \<in> set (ds_dims ds')) \<and>
         (''latitude'' \<in> set (ds_dims ds) \<longrightarrow> ''lat'' \<in> set (ds_dims ds')) \<and>
         ''longitude'' \<notin> set (ds_dims ds') \<and> ''latitude'' \<notin> set (ds_dims ds') \<and>
         ds_variables ds' =
           map (\<lambda>(n, var). (coerced_name n, coerced_variable var)) (ds_variables ds) \<and>
         (\<forall>(v, var) \<in> set (ds_variables ds). \<forall>groups. var_groups var = Inr groups \<longrightarrow>
            (\<forall>(time, da) \<in> set groups.
               cyclic_corrector (coerced_dataarray da) ''lon'' =
                 map_sum id coerced_dataarray (cyclic_corrector da (file_lon ds)) \<and>
               map_of (coords (coerced_dataarray da)) ''lon'' = map_of (coords da) (file_lon ds) \<and>
               map_of (coords (coerced_dataarray da)) ''lat'' = map_of (coords da) (file_lat ds)))"
proof -
  let ?f1 = "rename_name ''longitude'' ''lon''" and ?f2 = "rename_name ''latitude'' ''lat''"
  from ok obtain ds1 where s1: "rename_step ds ''longitude'' ''lon'' = Inr ds1"
    and s2: "rename_step ds1 ''latitude'' ''lat'' = Inr ds'"
    unfolding coerce_dims_steps by (auto split: sum.splits)
  note r1 = rename_step_result[OF wf s1]
  have wf1: "wf_dataset ds1" unfolding r1(1) by (rule wf_renamed[OF wf r1(2)])
  note r2 = rename_step_result[OF wf1 s2]
  have ds': "ds' = renamed ''latitude'' ''lat'' (renamed ''longitude'' ''lon'' ds)"
    using r1(1) r2(1) by simp
  have vars: "ds_variables ds' =
      map (\<lambda>(n, var). (coerced_name n, coerced_variable var)) (ds_variables ds)"
    by (simp add: ds' renamed_def coerced_name_def coerced_variable_def split_beta comp_def)
  have dims: "set (ds_dims ds') = coerced_name ` set (ds_dims ds)"
    unfolding ds' ds_dims_renamed by (auto simp: coerced_name_def)
  have d1: "''longitude'' \<in> set (ds_dims ds) \<longrightarrow> ''lon'' \<in> set (ds_dims ds')"
    and d2: "''latitude'' \<in> set (ds_dims ds) \<longrightarrow> ''lat'' \<in> set (ds_dims ds')"
    unfolding dims by (metis coerced_name_old image_eqI)+
  have d3: "''longitude'' \<notin> set (ds_dims ds')" "''latitude'' \<notin> set (ds_dims ds')"
    unfolding dims using coerced_name_not_old by (metis imageE)+
  have lon1: "?f1 (file_lon ds) = ''lon''"
    by (simp add: file_lon_def rename_name_def)
  have lat1: "?f1 (file_lat ds) = file_lat ds"
    by (simp add: file_lat_def rename_name_def)
  have lat2: "?f2 (file_lat ds) = ''lat''"
    by (simp add: file_lat_def rename_name_def)
  have lon2: "?f2 ''lon'' = ''lon''"
    by (simp add: rename_name_def)
  have fl1: "''longitude'' \<notin> insert (file_lon ds) (ds_names ds) \<or>
             ''lon'' \<notin> insert (file_lon ds) (ds_names ds)"
    using r1(2) by (auto simp: file_lon_def in_dataset_names)
  have fl1': "''longitude'' \<notin> insert (file_lat ds) (ds_names ds) \<or>
             ''lon'' \<notin> insert (file_lat ds) (ds_names ds)"
    using r1(2) by (auto simp: file_lat_def in_dataset_names)
  have fl2: "''latitude'' \<notin> insert ''lon'' (ds_names ds1) \<or>
             ''lat'' \<notin> insert ''lon'' (ds_names ds1)"
    using r2(2) by auto
  have lat_in: "''latitude'' \<in> ds_names ds1 \<longleftrightarrow> ''latitude'' \<in> ds_names ds"
    unfolding r1(1) ds_names_renamed by (auto simp: rename_name_def split: if_splits)
  have fl2': "''latitude'' \<notin> insert (file_lat ds) (ds_names ds1) \<or>
             ''lat'' \<notin> insert (file_lat ds) (ds_names ds1)"
    using r2(2) lat_in by (auto simp: file_lat_def in_dataset_names)
  have slice: "cyclic_corrector (coerced_dataarray da) ''lon'' =
                 map_sum id coerced_dataarray (cyclic_corrector da (file_lon ds)) \<and>
               map_of (coords (coerced_dataarray da)) ''lon'' = map_of (coords da) (file_lon ds) \<and>
               map_of (coords (coerced_dataarray da)) ''lat'' = map_of (coords da) (file_lat ds)"
    if da: "da \<in> slices ds" for da
  proof -
    let ?da1 = "rename_dataarray ''longitude'' ''lon'' da"
    have n0: "da_names da \<subseteq> ds_names ds" by (rule wf_slices[OF wf da])
    have "?da1 \<in> slices ds1" unfolding r1(1) slices_renamed using da by blast
    then have n1: "da_names ?da1 \<subseteq> ds_names ds1" by (rule wf_slices[OF wf1])
    have i1: "inj_on ?f1 (insert (file_lon ds) (set (dims da) \<union> fst ` set (coords da)))"
      using fl1 n0 by (intro rename_name_inj_on) (auto simp: da_names_def)
    have i1': "inj_on ?f1 (insert (file_lat ds) (fst ` set (coords da)))"
      using fl1' n0 by (intro rename_name_inj_on) (auto simp: da_names_def)
    have i2: "inj_on ?f2 (insert ''lon'' (set (dims ?da1) \<union> fst ` set (coords ?da1)))"
      using fl2 n1 by (intro rename_name_inj_on) (auto simp: da_names_def)
    have i2': "inj_on ?f2 (insert (file_lat ds) (fst ` set (coords ?da1)))"
      using fl2' n1 by (intro rename_name_inj_on) (auto simp: da_names_def)
    have c1: "cyclic_corrector ?da1 ''lon'' =
        map_sum id (rename_dataarray ''longitude'' ''lon'') (cyclic_corrector da (file_lon ds))"
      using cyclic_corrector_rename[OF i1] by (simp add: rename_dataarray_eq lon1)
    have c2: "cyclic_corrector (rename_dataarray ''latitude'' ''lat'' ?da1) ''lon'' =
        map_sum id (rename_dataarray ''latitude'' ''lat'') (cyclic_corrector ?da1 ''lon'')"
      using cyclic_corrector_rename[OF i2] by (simp add: rename_dataarray_eq lon2)
    have corr: "cyclic_corrector (coerced_dataarray da) ''lon'' =
                 map_sum id coerced_dataarray (cyclic_corrector da (file_lon ds))"
      unfolding coerced_dataarray_def c2 c1
      by (cases "cyclic_corrector da (file_lon ds)") (simp_all add: coerced_dataarray_def)
    have i2l: "inj_on ?f2 (insert ''lon'' (fst ` set (coords ?da1)))"
      using i2 by (auto intro: inj_on_subset)
    have i1l: "inj_on ?f1 (insert (file_lon ds) (fst ` set (coords da)))"
      using i1 by (auto intro: inj_on_subset)
    have "map_of (coords (coerced_dataarray da)) ''lon'' = map_of (coords ?da1) ''lon''"
      using map_of_rekey[OF i2l] by (simp add: coerced_dataarray_def rename_dataarray_eq
          rename_da_def lon2)
    also have "\<dots> = map_of (coords da) (file_lon ds)"
      using map_of_rekey[OF i1l] by (simp add: rename_dataarray_eq rename_da_def lon1)
    finally have look_lon: "map_of (coords (coerced_dataarray da)) ''lon'' =
        map_of (coords da) (file_lon ds)" .
    have "map_of (coords (coerced_dataarray da)) ''lat'' = map_of (coords ?da1) (file_lat ds)"
      using map_of_rekey[OF i2'] by (simp add: coerced_dataarray_def rename_dataarray_eq
          rename_da_def lat2)
    also have "\<dots> = map_of (coords da) (file_lat ds)"
      using map_of_rekey[OF i1'] by (simp add: rename_dataarray_eq rename_da_def lat1)
    finally have look_lat: "map_of (coords (coerced_dataarray da)) ''lat'' =
        map_of (coords da) (file_lat ds)" .
    from corr look_lon look_lat show ?thesis by blast
  qed
  have "\<forall>(v, var) \<in> set (ds_variables ds). \<forall>groups. var_groups var = Inr groups \<longrightarrow>
            (\<forall>(time, da) \<in> set groups.
               cyclic_corrector (coerced_dataarray da) ''lon'' =
                 map_sum id coerced_dataarray (cyclic_corrector da (file_lon ds)) \<and>
               map_of (coords (coerced_dataarray da)) ''lon'' = map_of (coords da) (file_lon ds) \<and>
               map_of (coords (coerced_dataarray da)) ''lat'' = map_of (coords da) (file_lat ds))"
  proof (intro ballI allI impI, clarify)
    fix v var groups time da
    assume "(v, var) \<in> set (ds_variables ds)" "var_groups var = Inr groups"
      "(time, da) \<in> set groups"
    then have "da \<in> slices ds" unfolding slices_def by blast
    then show "cyclic_corrector (coerced_dataarray da) ''lon'' =
                 map_sum id coerced_dataarray (cyclic_corrector da (file_lon ds)) \<and>
               map_of (coords (coerced_dataarray da)) ''lon'' = map_of (coords da) (file_lon ds) \<and>
               map_of (coords (coerced_dataarray da)) ''lat'' = map_of (coords da) (file_lat ds)"
      by (rule slice)
  qed
  with d1 d2 d3 vars show ?thesis by blast
qed

theorem coerce_dims_renames_witness:
  "coerce_dims (demo_dataset ''latitude'' ''longitude'') = Inr (demo_dataset ''lat'' ''lon'') \<and>
   ''lon'' \<in> set (ds_dims (demo_dataset ''lat'' ''lon'')) \<and>
   ''lat'' \<in> set (ds_dims (demo_dataset ''lat'' ''lon'')) \<and>
   ''longitude'' \<notin> set (ds_dims (demo_dataset ''lat'' ''lon'')) \<and>
   ''latitude'' \<notin> set (ds_dims (demo_dataset ''lat'' ''lon'')) \<and>
   cyclic_corrector (coerced_dataarray (demo_slice ''latitude'' ''longitude'' [Fin 1, Fin 2])) ''lon'' =
     map_sum id coerced_dataarray
       (cyclic_corrector (demo_slice ''latitude'' ''longitude'' [Fin 1, Fin 2]) ''longitude'')"
proof -
  let ?ds = "demo_dataset ''latitude'' ''longitude''"
  let ?da = "demo_slice ''latitude'' ''longitude'' [Fin 1, Fin 2]"
  have wf: "wf_dataset ?ds"
    by (simp add: wf_dataset_def demo_dataset_def ds_dims_def in_dataset_def field_variable_def
        coord_variable_def demo_slice_def rename_dataarray_def rename_name_def lat_lon_slice_def)
  have ok: "coerce_dims ?ds = Inr (demo_dataset ''lat'' ''lon'')"
    by (simp add: coerce_dims_def rename_def in_dataset_def demo_dataset_def field_variable_def
        coord_variable_def demo_slice_def rename_variable_def rename_dataarray_def
        rename_name_def lat_lon_slice_def)
  have d: "''longitude'' \<in> set (ds_dims ?ds)" "''latitude'' \<in> set (ds_dims ?ds)"
    by (simp_all add: demo_dataset_def ds_dims_def field_variable_def coord_variable_def)
  have m: "(''temperature'', field_variable ''latitude'' ''longitude'' [Fin 1, Fin 2])
             \<in> set (ds_variables ?ds)"
    by (simp add: demo_dataset_def)
  have g: "var_groups (field_variable ''latitude'' ''longitude'' [Fin 1, Fin 2]) =
             Inr [(demo_time 6, ?da), (demo_time 12, ?da)]"
    by (simp add: field_variable_def)
  have fl: "file_lon ?ds = ''longitude''"
    by (simp add: file_lon_def in_dataset_def demo_dataset_def)
  note t = coerce_dims_renames [OF wf ok]
  from t d have dims: "''lon'' \<in> set (ds_dims (demo_dataset ''lat'' ''lon'')) \<and>
      ''lat'' \<in> set (ds_dims (demo_dataset ''lat'' ''lon'')) \<and>
      ''longitude'' \<notin> set (ds_dims (demo_dataset ''lat'' ''lon'')) \<and>
      ''latitude'' \<notin> set (ds_dims (demo_dataset ''lat'' ''lon''))"
    by blast
  from t m g have "cyclic_corrector (coerced_dataarray ?da) ''lon'' =
      map_sum id coerced_dataarray (cyclic_corrector ?da (file_lon ?ds))"
    by fastforce
  with ok dims fl show ?thesis by simp
qed


end
